(* ===== verification/Prelude.thy ===== *)
theory Prelude
  imports Main "HOL-Library.Char_ord" "HOL-Library.List_Lexorder" "HOL-Library.Sublist"
begin

text \<open>
  What every component of the OpenFOAM agent's controller uses of Python: results that may
  raise, insertion-ordered de-duplication, string methods and \<open>PurePosixPath\<close>.

  A Python \<open>str\<close> is a \<open>string\<close>: a list of the code points below 256.  A \<open>ValueError\<close> is a
  value of \<open>value_error\<close>, with one constructor for each message the modelled code raises and
  the data the message shows; a function that can raise returns \<open>value_error + 'a\<close>.
\<close>

section \<open>Exceptions\<close>

datatype value_error =
    Region_With_All_Regions
  | Region_Repeated
  | Region_Name_Missing
  | Unsafe_Region_Name string
  | Duplicate_Contract string
  | Invalid_Scope_Key string
  | Unknown_Scope_Key string
  | Duplicate_Scope_Identities
  | Unbound_Scope "string option"
  | No_Named_Scope_Contract string
  | Undeclared_Mesh_Scope string
  | Undeclared_Execution_Scope
  | Unsafe_Dependency_Path string
  | Operation_Without_Outputs
  | Dependency_History_Full
  | Not_A_Chronological_Dag
  | Include_Escapes_Case string
  | Invalid_Command_Name string

type_synonym 'a result = "value_error + 'a"

definition bind_result :: "'e + 'a \<Rightarrow> ('a \<Rightarrow> 'e + 'b) \<Rightarrow> 'e + 'b" where
  "bind_result m f = (case m of Inl e \<Rightarrow> Inl e | Inr x \<Rightarrow> f x)"

lemma bind_result_simps [simp]:
  "bind_result (Inl e) f = Inl e"
  "bind_result (Inr x) f = f x"
  by (simp_all add: bind_result_def)

lemma bind_result_eq_Inr [simp]:
  "bind_result m f = Inr y \<longleftrightarrow> (\<exists>x. m = Inr x \<and> f x = Inr y)"
  by (cases m) simp_all

lemma bind_result_eq_Inl:
  "bind_result m f = Inl e \<longleftrightarrow> m = Inl e \<or> (\<exists>x. m = Inr x \<and> f x = Inl e)"
  by (cases m) simp_all

lemma bind_result_cong [fundef_cong]:
  "m = m' \<Longrightarrow> (\<And>x. m' = Inr x \<Longrightarrow> f x = f' x) \<Longrightarrow> bind_result m f = bind_result m' f'"
  by (cases m') simp_all

text \<open>A comprehension whose element expression may raise: the first error wins.\<close>

fun map_result :: "('a \<Rightarrow> 'e + 'b) \<Rightarrow> 'a list \<Rightarrow> 'e + 'b list" where
  "map_result f [] = Inr []"
| "map_result f (x # xs) =
     bind_result (f x) (\<lambda>y. bind_result (map_result f xs) (\<lambda>ys. Inr (y # ys)))"

lemma map_result_Inr_iff:
  "map_result f xs = Inr ys \<longleftrightarrow> list_all2 (\<lambda>x y. f x = Inr y) xs ys"
proof (induction xs arbitrary: ys)
  case (Cons x xs)
  then show ?case by (cases ys) auto
qed auto

lemma map_result_total:
  "(\<And>x. x \<in> set xs \<Longrightarrow> f x = Inr (g x)) \<Longrightarrow> map_result f xs = Inr (map g xs)"
  by (induction xs) auto

lemma map_result_Inr_set:
  assumes "map_result f xs = Inr ys"
  shows "set ys = {y. \<exists>x \<in> set xs. f x = Inr y}"
  using assms
proof (induction xs arbitrary: ys)
  case (Cons x xs)
  then obtain y zs where "f x = Inr y" "map_result f xs = Inr zs" "ys = y # zs"
    by auto
  with Cons.IH [of zs] show ?case by auto
qed simp

lemma map_result_defined:
  "map_result f xs = Inr ys \<Longrightarrow> x \<in> set xs \<Longrightarrow> \<exists>y \<in> set ys. f x = Inr y"
  by (induction xs arbitrary: ys) auto

lemma map_result_Inl:
  "map_result f xs = Inl e \<Longrightarrow> \<exists>x \<in> set xs. f x = Inl e"
  by (induction xs) (auto simp: bind_result_eq_Inl)

lemma map_result_cong: "(\<And>x. x \<in> set xs \<Longrightarrow> f x = g x) \<Longrightarrow> map_result f xs = map_result g xs"
  by (induction xs) simp_all

lemma map_result_raises:
  "x \<in> set xs \<Longrightarrow> f x = Inl e \<Longrightarrow> \<exists>e'. map_result f xs = Inl e'"
proof (induction xs)
  case (Cons y ys)
  then show ?case
    by (cases "f y"; cases "map_result f ys") auto
qed simp

text \<open>A value or the default of \<open>dict.get\<close>.\<close>

definition get_default :: "'a \<Rightarrow> 'a option \<Rightarrow> 'a" where
  "get_default d v = (case v of None \<Rightarrow> d | Some x \<Rightarrow> x)"

lemma get_default_simps [simp]: "get_default d None = d" "get_default d (Some x) = x"
  by (simp_all add: get_default_def)

section \<open>Insertion-ordered sets\<close>

text \<open>\<open>tuple(dict.fromkeys(xs))\<close>: the first occurrence of every element, in order.\<close>

fun fromkeys_from :: "'a list \<Rightarrow> 'a list \<Rightarrow> 'a list" where
  "fromkeys_from seen [] = []"
| "fromkeys_from seen (x # xs) =
     (if x \<in> set seen then fromkeys_from seen xs else x # fromkeys_from (x # seen) xs)"

definition dict_fromkeys :: "'a list \<Rightarrow> 'a list" where
  "dict_fromkeys xs = fromkeys_from [] xs"

lemma set_fromkeys_from: "set (fromkeys_from seen xs) = set xs - set seen"
  by (induction seen xs rule: fromkeys_from.induct) auto

lemma distinct_fromkeys_from: "distinct (fromkeys_from seen xs)"
  by (induction seen xs rule: fromkeys_from.induct) (auto simp: set_fromkeys_from)

lemma fromkeys_from_distinct:
  "distinct xs \<Longrightarrow> set xs \<inter> set seen = {} \<Longrightarrow> fromkeys_from seen xs = xs"
  by (induction seen xs rule: fromkeys_from.induct) auto

lemma subseq_fromkeys_from: "subseq (fromkeys_from seen xs) xs"
  by (induction seen xs rule: fromkeys_from.induct) auto

lemma set_dict_fromkeys [simp]: "set (dict_fromkeys xs) = set xs"
  by (simp add: dict_fromkeys_def set_fromkeys_from)

lemma distinct_dict_fromkeys [simp]: "distinct (dict_fromkeys xs)"
  by (simp add: dict_fromkeys_def distinct_fromkeys_from)

lemma dict_fromkeys_distinct: "distinct xs \<Longrightarrow> dict_fromkeys xs = xs"
  by (simp add: dict_fromkeys_def fromkeys_from_distinct)

lemma subseq_dict_fromkeys: "subseq (dict_fromkeys xs) xs"
  by (simp add: dict_fromkeys_def subseq_fromkeys_from)

lemma dict_fromkeys_simps [simp]:
  "dict_fromkeys [] = []"
  "dict_fromkeys [x] = [x]"
  by (simp_all add: dict_fromkeys_def)

lemma dict_fromkeys_Nil_iff [simp]: "dict_fromkeys xs = [] \<longleftrightarrow> xs = []"
  by (metis set_dict_fromkeys set_empty)

text \<open>
  De-duplication by a key with a \<open>seen\<close> set: keep an item when its token is new.
\<close>

fun dedupe_by_from :: "('a \<Rightarrow> 'k) \<Rightarrow> 'k list \<Rightarrow> 'a list \<Rightarrow> 'a list" where
  "dedupe_by_from key seen [] = []"
| "dedupe_by_from key seen (x # xs) =
     (if key x \<in> set seen then dedupe_by_from key seen xs
      else x # dedupe_by_from key (key x # seen) xs)"

definition dedupe_by :: "('a \<Rightarrow> 'k) \<Rightarrow> 'a list \<Rightarrow> 'a list" where
  "dedupe_by key xs = dedupe_by_from key [] xs"

lemma map_dedupe_by_from:
  "map key (dedupe_by_from key seen xs) = fromkeys_from seen (map key xs)"
  by (induction key seen xs rule: dedupe_by_from.induct) auto

lemma map_dedupe_by: "map key (dedupe_by key xs) = dict_fromkeys (map key xs)"
  by (simp add: dedupe_by_def dict_fromkeys_def map_dedupe_by_from)

lemma distinct_dedupe_by: "distinct (map key (dedupe_by key xs))"
  by (simp add: map_dedupe_by)

lemma subseq_dedupe_by_from: "subseq (dedupe_by_from key seen xs) xs"
  by (induction key seen xs rule: dedupe_by_from.induct) auto

lemma subseq_dedupe_by: "subseq (dedupe_by key xs) xs"
  by (simp add: dedupe_by_def subseq_dedupe_by_from)

lemma set_dedupe_by_from: "set (dedupe_by_from key seen xs) \<subseteq> set xs"
  by (induction key seen xs rule: dedupe_by_from.induct) auto

lemma set_dedupe_by_subset: "set (dedupe_by key xs) \<subseteq> set xs"
  by (simp add: dedupe_by_def set_dedupe_by_from)

lemma keys_dedupe_by: "key ` set (dedupe_by key xs) = key ` set xs"
  by (metis list.set_map map_dedupe_by set_dict_fromkeys)

lemma dedupe_by_from_id:
  "distinct (map key xs) \<Longrightarrow> set (map key xs) \<inter> set seen = {} \<Longrightarrow> dedupe_by_from key seen xs = xs"
  by (induction key seen xs rule: dedupe_by_from.induct) auto

lemma dedupe_by_id: "distinct (map key xs) \<Longrightarrow> dedupe_by key xs = xs"
  by (simp add: dedupe_by_def dedupe_by_from_id)

text \<open>\<open>sorted(set(xs))\<close>\<close>

definition sorted_set :: "'a::linorder list \<Rightarrow> 'a list" where
  "sorted_set xs = sort (remdups xs)"

lemma sorted_set_props [simp]:
  "set (sorted_set xs) = set xs" "distinct (sorted_set xs)" "sorted (sorted_set xs)"
  by (simp_all add: sorted_set_def)

lemma sorted_set_cong: "set xs = set ys \<Longrightarrow> sorted_set xs = sorted_set ys"
  by (intro sorted_distinct_set_unique) simp_all

lemma sorted_set_Nil_iff [simp]: "sorted_set xs = [] \<longleftrightarrow> xs = []"
  by (metis set_empty sorted_set_props(1))

end
