(* ===== verification/Py_Text.thy ===== *)
theory Py_Text
  imports Prelude
begin

text \<open>
  The string methods and the part of \<open>pathlib.PurePosixPath\<close> the controller uses: splitting
  and joining, \<open>startswith\<close>, \<open>rstrip\<close>, \<open>replace\<close>, \<open>count\<close>, \<open>isspace\<close>, and paths as a root and
  a list of components.  The last section compares two paths by components, which the mesh
  dependency graph and the scope compiler do with string prefixes.
\<close>

section \<open>Strings\<close>

definition starts_with :: "string \<Rightarrow> string \<Rightarrow> bool" where
  "starts_with s p \<longleftrightarrow> prefix p s"

definition ends_with :: "string \<Rightarrow> string \<Rightarrow> bool" where
  "ends_with s p \<longleftrightarrow> suffix p s"

lemma starts_with_simps [simp]:
  "starts_with s []"
  "starts_with [] (c # p) = False"
  "starts_with (d # s) (c # p) \<longleftrightarrow> c = d \<and> starts_with s p"
  by (auto simp: starts_with_def)

text \<open>\<open>str.isspace\<close> and \<open>str.lower\<close> of one code point below 256.\<close>

definition is_space :: "char \<Rightarrow> bool" where
  "is_space c \<longleftrightarrow>
     (let n = (of_char c :: nat)
      in (9 \<le> n \<and> n \<le> 13) \<or> (28 \<le> n \<and> n \<le> 32) \<or> n = 133 \<or> n = 160)"

definition is_alpha :: "char \<Rightarrow> bool" where
  "is_alpha c \<longleftrightarrow>
     (let n = (of_char c :: nat) in (65 \<le> n \<and> n \<le> 90) \<or> (97 \<le> n \<and> n \<le> 122))"

definition is_digit :: "char \<Rightarrow> bool" where
  "is_digit c \<longleftrightarrow> (let n = (of_char c :: nat) in 48 \<le> n \<and> n \<le> 57)"

definition lower_char :: "char \<Rightarrow> char" where
  "lower_char c =
     (let n = (of_char c :: nat)
      in if (65 \<le> n \<and> n \<le> 90) \<or> (192 \<le> n \<and> n \<le> 222 \<and> n \<noteq> 215) then char_of (n + 32) else c)"

definition lower :: "string \<Rightarrow> string" where
  "lower s = map lower_char s"

definition rstrip_chars :: "char list \<Rightarrow> string \<Rightarrow> string" where
  "rstrip_chars cs s = rev (dropWhile (\<lambda>c. c \<in> set cs) (rev s))"

definition strip :: "string \<Rightarrow> string" where
  "strip s = rev (dropWhile is_space (rev (dropWhile is_space s)))"

lemma rstrip_chars_id: "s = [] \<or> last s \<notin> set cs \<Longrightarrow> rstrip_chars cs s = s"
  by (cases s rule: rev_cases) (auto simp: rstrip_chars_def)

lemma rstrip_chars_snoc: "c \<in> set cs \<Longrightarrow> rstrip_chars cs (s @ [c]) = rstrip_chars cs s"
  by (simp add: rstrip_chars_def)

fun split_on :: "char \<Rightarrow> string \<Rightarrow> string list" where
  "split_on c [] = [[]]"
| "split_on c (x # xs) =
     (if x = c then [] # split_on c xs
      else case split_on c xs of [] \<Rightarrow> [[x]] | w # ws \<Rightarrow> (x # w) # ws)"

fun join :: "string \<Rightarrow> string list \<Rightarrow> string" where
  "join sep [] = []"
| "join sep [w] = w"
| "join sep (w # v # vs) = w @ sep @ join sep (v # vs)"

lemma split_on_not_Nil [simp]: "split_on c s \<noteq> []"
  by (induction s) (auto split: list.splits)

lemma join_Cons: "ws \<noteq> [] \<Longrightarrow> join sep (w # ws) = w @ sep @ join sep ws"
  by (cases ws) auto

lemma join_split_on [simp]: "join [c] (split_on c s) = s"
proof (induction s)
  case (Cons x xs)
  then show ?case
  proof (cases "x = c")
    case False
    obtain w ws where sp: "split_on c xs = w # ws"
      by (cases "split_on c xs") auto
    with Cons have "join [c] (w # ws) = xs" by simp
    then have "join [c] ((x # w) # ws) = x # xs" by (cases ws) auto
    with False sp show ?thesis by simp
  qed (simp add: join_Cons)
qed simp

lemma split_on_free: "c \<notin> set w \<Longrightarrow> split_on c w = [w]"
  by (induction w) auto

lemma split_on_append:
  "c \<notin> set w \<Longrightarrow> split_on c (w @ c # s) = w # split_on c s"
  by (induction w) auto

lemma split_on_join:
  "ws \<noteq> [] \<Longrightarrow> \<forall>w \<in> set ws. c \<notin> set w \<Longrightarrow> split_on c (join [c] ws) = ws"
  by (induction "[c]" ws rule: join.induct) (auto simp: split_on_free split_on_append)

lemma split_on_words: "w \<in> set (split_on c s) \<Longrightarrow> c \<notin> set w"
proof (induction s arbitrary: w)
  case (Cons x xs)
  then show ?case by (cases "split_on c xs") (auto split: if_splits)
qed simp

text \<open>
  \<open>str.replace(old, new)\<close> and \<open>str.count(old)\<close> for a non-empty \<open>old\<close>: occurrences are taken
  from the left and do not overlap.
\<close>

function str_replace :: "string \<Rightarrow> string \<Rightarrow> string \<Rightarrow> string" where
  "str_replace old new [] = []"
| "str_replace old new (x # xs) =
     (if old \<noteq> [] \<and> prefix old (x # xs)
      then new @ str_replace old new (drop (length old) (x # xs))
      else x # str_replace old new xs)"
  by pat_completeness auto
termination
  by (relation "measure (\<lambda>(old, new, s). length s)") (auto simp: Suc_le_eq)

function str_count :: "string \<Rightarrow> string \<Rightarrow> nat" where
  "str_count old [] = 0"
| "str_count old (x # xs) =
     (if old \<noteq> [] \<and> prefix old (x # xs)
      then Suc (str_count old (drop (length old) (x # xs)))
      else str_count old xs)"
  by pat_completeness auto
termination
  by (relation "measure (\<lambda>(old, s). length s)") (auto simp: Suc_le_eq)

text \<open>\<open>str.replace(old, new, 1)\<close>\<close>

fun str_replace_first :: "string \<Rightarrow> string \<Rightarrow> string \<Rightarrow> string" where
  "str_replace_first old new [] = []"
| "str_replace_first old new (x # xs) =
     (if prefix old (x # xs) then new @ drop (length old) (x # xs)
      else x # str_replace_first old new xs)"

lemma str_count_zero:
  "old \<noteq> [] \<Longrightarrow> str_count old s = 0 \<longleftrightarrow> \<not> sublist old s"
proof (induction old s rule: str_count.induct)
  case (2 old x xs)
  then show ?case by (auto simp: sublist_Cons_right split: if_splits)
qed simp

lemma str_replace_first_split:
  "old \<noteq> [] \<Longrightarrow> sublist old s \<Longrightarrow>
     \<exists>a b. s = a @ old @ b \<and> str_replace_first old new s = a @ new @ b"
proof (induction old new s rule: str_replace_first.induct)
  case (1 old new)
  then show ?case by simp
next
  case (2 old new x xs)
  show ?case
  proof (cases "prefix old (x # xs)")
    case True
    then obtain b where b: "x # xs = old @ b" by (auto simp: prefix_def)
    then have "drop (length old) (x # xs) = b" by (metis append_eq_conv_conj)
    with True b have "x # xs = [] @ old @ b \<and> str_replace_first old new (x # xs) = [] @ new @ b"
      by (metis append_Nil str_replace_first.simps(2))
    then show ?thesis by blast
  next
    case False
    with "2.prems" have "sublist old xs" by (simp add: sublist_Cons_right)
    with "2.IH" False "2.prems"(1) obtain a b where
      "xs = a @ old @ b" "str_replace_first old new xs = a @ new @ b" by blast
    with False have
      "x # xs = (x # a) @ old @ b \<and> str_replace_first old new (x # xs) = (x # a) @ new @ b"
      by simp
    then show ?thesis by blast
  qed
qed

section \<open>Pure POSIX paths\<close>

definition path_root :: "string \<Rightarrow> string" where
  "path_root p =
     (if starts_with p ''//'' \<and> \<not> starts_with p ''///'' then ''//''
      else if starts_with p ''/'' then ''/'' else [])"

definition path_tail :: "string \<Rightarrow> string list" where
  "path_tail p = filter (\<lambda>c. c \<noteq> [] \<and> c \<noteq> ''.'') (split_on (CHR ''/'') p)"

definition path_parts :: "string \<Rightarrow> string list" where
  "path_parts p = (if path_root p = [] then path_tail p else path_root p # path_tail p)"

text \<open>\<open>str(PurePosixPath(p))\<close>, \<open>.name\<close>, \<open>str(.parent)\<close> and \<open>.suffix\<close>\<close>

definition posix_str :: "string \<Rightarrow> string" where
  "posix_str p =
     (if path_root p = [] \<and> path_tail p = [] then ''.''
      else path_root p @ join ''/'' (path_tail p))"

definition path_name :: "string \<Rightarrow> string" where
  "path_name p = (if path_tail p = [] then [] else last (path_tail p))"

definition path_parent :: "string \<Rightarrow> string" where
  "path_parent p =
     (if path_tail p = [] then posix_str p
      else if path_root p = [] \<and> butlast (path_tail p) = [] then ''.''
      else path_root p @ join ''/'' (butlast (path_tail p)))"

definition path_suffix :: "string \<Rightarrow> string" where
  "path_suffix p =
     (let r = rev (path_name p); ext = takeWhile (\<lambda>c. c \<noteq> CHR ''.'') r;
          stem = drop (Suc (length ext)) r
      in if ext = [] \<or> stem = [] then [] else CHR ''.'' # rev ext)"

definition plain_component :: "string \<Rightarrow> bool" where
  "plain_component c \<longleftrightarrow> c \<noteq> [] \<and> c \<noteq> ''.'' \<and> CHR ''/'' \<notin> set c"

text \<open>A relative path with at least one component: what a case path is after validation.\<close>

definition case_relative :: "string \<Rightarrow> bool" where
  "case_relative p \<longleftrightarrow> path_root p = [] \<and> path_tail p \<noteq> []"

lemma path_tail_plain: "c \<in> set (path_tail p) \<Longrightarrow> plain_component c"
  by (auto simp: path_tail_def plain_component_def dest: split_on_words)

lemma path_tail_join:
  assumes "\<forall>c \<in> set cs. plain_component c" and "cs \<noteq> []"
  shows "path_tail (join ''/'' cs) = cs"
proof -
  have "split_on (CHR ''/'') (join ''/'' cs) = cs"
    using assms by (intro split_on_join) (auto simp: plain_component_def)
  then show ?thesis
    using assms(1) by (auto simp: path_tail_def plain_component_def filter_id_conv)
qed

lemma join_plain_first:
  assumes "\<forall>c \<in> set cs. plain_component c" and "cs \<noteq> []"
  shows "\<exists>x xs. join ''/'' cs = x # xs \<and> x \<noteq> CHR ''/''"
proof (cases cs)
  case (Cons c cs')
  with assms obtain x xs where "c = x # xs" "x \<noteq> CHR ''/''"
    by (cases c) (auto simp: plain_component_def)
  with Cons show ?thesis by (cases cs') auto
qed (use assms in simp)

lemma path_root_join:
  assumes "\<forall>c \<in> set cs. plain_component c" and "cs \<noteq> []"
  shows "path_root (join ''/'' cs) = []"
  using join_plain_first [OF assms] by (auto simp: path_root_def)

lemma join_plain_last:
  assumes "\<forall>c \<in> set cs. plain_component c" and "cs \<noteq> []"
  shows "last (join ''/'' cs) \<noteq> CHR ''/''" "join ''/'' cs \<noteq> []"
proof -
  have "join ''/'' cs \<noteq> [] \<and> last (join ''/'' cs) \<noteq> CHR ''/''"
    using assms
  proof (induction "''/''" cs rule: join.induct)
    case (2 w)
    then show ?case by (auto simp: plain_component_def) (metis last_in_set)
  next
    case (3 w v vs)
    then show ?case by auto
  qed simp
  then show "last (join ''/'' cs) \<noteq> CHR ''/''" "join ''/'' cs \<noteq> []" by auto
qed

lemma posix_str_case_relative:
  "case_relative p \<Longrightarrow> posix_str p = join ''/'' (path_tail p)"
  by (simp add: case_relative_def posix_str_def)

lemma case_relative_posix_str:
  assumes "case_relative p"
  shows "case_relative (posix_str p)" "path_tail (posix_str p) = path_tail p"
proof -
  have plain: "\<forall>c \<in> set (path_tail p). plain_component c" by (simp add: path_tail_plain)
  have ne: "path_tail p \<noteq> []" using assms by (simp add: case_relative_def)
  show tl: "path_tail (posix_str p) = path_tail p"
    using path_tail_join [OF plain ne] by (simp add: posix_str_case_relative [OF assms])
  show "case_relative (posix_str p)"
    using path_root_join [OF plain ne] ne tl
    by (simp add: case_relative_def posix_str_case_relative [OF assms])
qed

text \<open>Normalising a path is idempotent and never leaves a trailing slash.\<close>

lemma posix_str_idem: "case_relative p \<Longrightarrow> posix_str (posix_str p) = posix_str p"
  using case_relative_posix_str [of p] by (metis posix_str_case_relative)

lemma rstrip_posix_str: "case_relative p \<Longrightarrow> rstrip_chars ''/'' (posix_str p) = posix_str p"
  using join_plain_last [of "path_tail p"]
  by (intro rstrip_chars_id)
     (auto simp: posix_str_case_relative path_tail_plain case_relative_def)

section \<open>Overlapping paths\<close>

text \<open>Two component lists overlap when one is a prefix of the other.\<close>

definition components_overlap :: "string list \<Rightarrow> string list \<Rightarrow> bool" where
  "components_overlap xs ys \<longleftrightarrow> prefix xs ys \<or> prefix ys xs"

lemma components_overlap_refl [simp]: "components_overlap xs xs"
  by (simp add: components_overlap_def)

lemma components_overlap_sym: "components_overlap xs ys \<longleftrightarrow> components_overlap ys xs"
  by (auto simp: components_overlap_def)

lemma prefix_slash_first:
  assumes "CHR ''/'' \<notin> set c" and "CHR ''/'' \<notin> set d"
  shows "prefix (c @ CHR ''/'' # r) (d @ CHR ''/'' # s) \<longleftrightarrow> c = d \<and> prefix r s"
    and "\<not> prefix (c @ CHR ''/'' # r) d"
proof -
  show "\<not> prefix (c @ CHR ''/'' # r) d"
    using assms by (auto simp: prefix_def)
  show "prefix (c @ CHR ''/'' # r) (d @ CHR ''/'' # s) \<longleftrightarrow> c = d \<and> prefix r s"
    using assms
  proof (induction c arbitrary: d)
    case Nil
    then show ?case by (cases d) auto
  next
    case (Cons x c)
    then show ?case by (cases d) auto
  qed
qed

text \<open>
  The string test \<open>ys.startswith(xs + "/")\<close> on joined paths is the strict prefix relation of
  the component lists.
\<close>

lemma slash_prefix_iff:
  assumes "\<forall>c \<in> set xs. plain_component c" and "\<forall>c \<in> set ys. plain_component c"
    and "xs \<noteq> []" and "ys \<noteq> []"
  shows "prefix (join ''/'' xs @ ''/'') (join ''/'' ys) \<longleftrightarrow> strict_prefix xs ys"
  using assms
proof (induction xs arbitrary: ys)
  case (Cons x xs)
  from Cons.prems obtain y ys' where ys: "ys = y # ys'" by (cases ys) auto
  have x: "CHR ''/'' \<notin> set x" and y: "CHR ''/'' \<notin> set y"
    using Cons.prems ys by (auto simp: plain_component_def)
  show ?case
  proof (cases "xs = []")
    case True
    then show ?thesis
      using ys prefix_slash_first [OF x y, of "[]"]
      by (cases ys') (auto simp: prefix_slash_first(2) [OF x y, of "[]"])
  next
    case ne: False
    show ?thesis
    proof (cases "ys' = []")
      case True
      then show ?thesis
        using ys ne prefix_slash_first(2) [OF x y] by (simp add: join_Cons strict_prefix_def)
    next
      case False
      then show ?thesis
        using Cons.IH [of ys'] Cons.prems ys ne prefix_slash_first(1) [OF x y]
        by (simp add: join_Cons)
    qed
  qed
qed simp

lemma join_slash_inject:
  assumes "\<forall>c \<in> set xs. plain_component c" and "\<forall>c \<in> set ys. plain_component c"
    and "xs \<noteq> []" and "ys \<noteq> []"
  shows "join ''/'' xs = join ''/'' ys \<longleftrightarrow> xs = ys"
  using assms path_tail_join by metis

end
