(* ===== verification/Native_Contracts.thy ===== *)
theory Native_Contracts
  imports Py_Text
begin

text \<open>
  The registry of native OpenFOAM commands, \<^verbatim>\<open>tools/native_contracts.py\<close>, with the package data it
  loads, \<^verbatim>\<open>data/native_tool_contracts.json\<close>: what each command may do (its effect and the phases
  that may run it), the dictionary it needs, its mesh inputs and outputs and the labels that
  order it after its producers.  The \<open>-region\<close> selector of an invocation is read by
  \<open>native_command_region\<close>, which raises on an ambiguous or unsafe selector.
\<close>

section \<open>Contracts and the registry\<close>

datatype phase =
  Authoring | Repair | Runtime_Repair | Strategy_Revision | Postprocess | Runtime | Restart

datatype effect =
  Eff_Mesh | Eff_Initialization | Eff_Decomposition | Eff_Validation | Eff_Query | Eff_Write
| Eff_Destructive | Eff_Postprocess | Eff_Solve | Eff_Reconstruction | Eff_Unknown

record native_contract =
  ct_command :: string
  ct_effect :: effect
  ct_required_dictionary :: "string option"
  ct_permitted_phases :: "phase list"
  ct_controller_finalizer :: bool
  ct_scope_arguments :: "string list"
  ct_mesh_dependency_inputs :: "string list"
  ct_mesh_dependency_outputs :: "string list"
  ct_controller_auto_consumer :: bool
  ct_controller_delta_consumer :: bool
  ct_execution_order :: int
  ct_default_arguments :: "string list"
  ct_ordering_inputs :: "string list"
  ct_ordering_outputs :: "string list"

text \<open>One object of the JSON array; an absent key is \<open>None\<close>.\<close>

record contract_item =
  item_command :: string
  item_effect :: effect
  item_permitted_phases :: "phase list option"
  item_required_dictionary :: "string option"
  item_finalizer :: "bool option"
  item_scope_arguments :: "string list option"
  item_inputs :: "string list option"
  item_outputs :: "string list option"
  item_auto_consumer :: "bool option"
  item_delta_consumer :: "bool option"
  item_execution_order :: "int option"
  item_default_arguments :: "string list option"
  item_ordering_inputs :: "string list option"
  item_ordering_outputs :: "string list option"

definition contract_of_item :: "contract_item \<Rightarrow> native_contract" where
  "contract_of_item it =
     \<lparr>ct_command = item_command it,
      ct_effect = item_effect it,
      ct_required_dictionary = item_required_dictionary it,
      ct_permitted_phases = get_default [] (item_permitted_phases it),
      ct_controller_finalizer = get_default False (item_finalizer it),
      ct_scope_arguments = get_default [] (item_scope_arguments it),
      ct_mesh_dependency_inputs = get_default [] (item_inputs it),
      ct_mesh_dependency_outputs = get_default [] (item_outputs it),
      ct_controller_auto_consumer = get_default False (item_auto_consumer it),
      ct_controller_delta_consumer = get_default False (item_delta_consumer it),
      ct_execution_order = get_default 500 (item_execution_order it),
      ct_default_arguments = get_default [] (item_default_arguments it),
      ct_ordering_inputs = get_default [] (item_ordering_inputs it),
      ct_ordering_outputs = get_default [] (item_ordering_outputs it)\<rparr>"

text \<open>\<open>_load_registry\<close>: a dictionary in file order; a repeated command raises.\<close>

fun load_items ::
  "(string \<times> native_contract) list \<Rightarrow> contract_item list
     \<Rightarrow> (string \<times> native_contract) list result" where
  "load_items reg [] = Inr reg"
| "load_items reg (it # its) =
     (if item_command it \<in> fst ` set reg then Inl (Duplicate_Contract (item_command it))
      else load_items (reg @ [(item_command it, contract_of_item it)]) its)"

definition load_registry ::
  "contract_item list \<Rightarrow> (string \<times> native_contract) list result" where
  "load_registry items = load_items [] items"

definition engineering_phases :: "phase list" where
  "engineering_phases = [Authoring, Repair, Runtime_Repair, Strategy_Revision]"

definition item_of :: "string \<Rightarrow> effect \<Rightarrow> phase list \<Rightarrow> contract_item" where
  "item_of cmd eff phases =
     \<lparr>item_command = cmd, item_effect = eff, item_permitted_phases = Some phases,
      item_required_dictionary = None, item_finalizer = None, item_scope_arguments = None,
      item_inputs = None, item_outputs = None, item_auto_consumer = None,
      item_delta_consumer = None, item_execution_order = None, item_default_arguments = None,
      item_ordering_inputs = None, item_ordering_outputs = None\<rparr>"

definition native_tool_contracts_json :: "contract_item list" where
  "native_tool_contracts_json =
   [
    (item_of ''blockMesh'' Eff_Mesh engineering_phases)
      \<lparr>item_required_dictionary := Some ''system/blockMeshDict'',
       item_scope_arguments := Some [''-region'', ''{scope_name}''],
       item_inputs := Some [''{system_dir}/blockMeshDict''],
       item_outputs := Some [''{constant_dir}/polyMesh''], item_auto_consumer := Some True,
       item_execution_order := Some 100, item_default_arguments := Some [],
       item_ordering_outputs := Some [''mesh:{scope_key}:base'']\<rparr>,
    (item_of ''snappyHexMesh'' Eff_Mesh engineering_phases)
      \<lparr>item_required_dictionary := Some ''system/snappyHexMeshDict'',
       item_scope_arguments := Some [''-region'', ''{scope_name}''],
       item_inputs := Some [''{system_dir}/snappyHexMeshDict'', ''{constant_dir}/polyMesh'', ''constant/triSurface'', ''constant/geometry''],
       item_outputs := Some [''{constant_dir}/polyMesh''], item_auto_consumer := Some True,
       item_execution_order := Some 200, item_default_arguments := Some [''-overwrite''],
       item_ordering_inputs := Some [''mesh:{scope_key}:base'', ''features:global:ready''],
       item_ordering_outputs := Some [''mesh:{scope_key}:snapped'']\<rparr>,
    (item_of ''surfaceFeatureExtract'' Eff_Mesh engineering_phases)
      \<lparr>item_required_dictionary := Some ''system/surfaceFeatureExtractDict'',
       item_scope_arguments := Some [''-region'', ''{scope_name}''],
       item_inputs := Some [''system/surfaceFeatureExtractDict'', ''constant/triSurface''],
       item_outputs := Some [''constant/triSurface''], item_auto_consumer := Some False,
       item_delta_consumer := Some True, item_execution_order := Some 500,
       item_default_arguments := Some [],
       item_ordering_inputs := Some [''surface:global:transformed''],
       item_ordering_outputs := Some [''features:global:ready'']\<rparr>,
    (item_of ''surfaceFeatures'' Eff_Mesh engineering_phases)
      \<lparr>item_required_dictionary := Some ''system/surfaceFeaturesDict'',
       item_scope_arguments := Some [],
       item_inputs := Some [''system/surfaceFeaturesDict'', ''constant/triSurface''],
       item_outputs := Some [''constant/triSurface'', ''constant/extendedFeatureEdgeMesh''],
       item_auto_consumer := Some False, item_delta_consumer := Some True,
       item_execution_order := Some 500, item_default_arguments := Some [],
       item_ordering_inputs := Some [''surface:global:transformed''],
       item_ordering_outputs := Some [''features:global:ready'']\<rparr>,
    (item_of ''createBaffles'' Eff_Mesh engineering_phases)
      \<lparr>item_auto_consumer := Some False, item_execution_order := Some 500,
       item_default_arguments := Some [],
       item_ordering_inputs := Some [''mesh:{scope_key}:base'', ''mesh:{scope_key}:snapped'']\<rparr>,
    (item_of ''splitMeshRegions'' Eff_Mesh engineering_phases)
      \<lparr>item_auto_consumer := Some False, item_execution_order := Some 500,
       item_default_arguments := Some [],
       item_ordering_inputs := Some [''mesh:{scope_key}:base'', ''mesh:{scope_key}:snapped'']\<rparr>,
    (item_of ''setsToZones'' Eff_Mesh engineering_phases)
      \<lparr>item_auto_consumer := Some False, item_execution_order := Some 500,
       item_default_arguments := Some [],
       item_ordering_inputs := Some [''mesh:{scope_key}:base'', ''mesh:{scope_key}:snapped'']\<rparr>,
    (item_of ''surfaceTransformPoints'' Eff_Mesh engineering_phases)
      \<lparr>item_auto_consumer := Some False, item_execution_order := Some 500,
       item_default_arguments := Some [],
       item_ordering_outputs := Some [''surface:global:transformed'']\<rparr>,
    (item_of ''topoSet'' Eff_Mesh engineering_phases)
      \<lparr>item_required_dictionary := Some ''system/topoSetDict'',
       item_scope_arguments := Some [''-region'', ''{scope_name}''],
       item_inputs := Some [''{system_dir}/topoSetDict'', ''{constant_dir}/polyMesh''],
       item_outputs := Some [''{constant_dir}/polyMesh''], item_auto_consumer := Some False,
       item_execution_order := Some 500, item_default_arguments := Some [],
       item_ordering_inputs := Some [''mesh:{scope_key}:base'', ''mesh:{scope_key}:snapped'']\<rparr>,
    (item_of ''setFields'' Eff_Initialization engineering_phases)
      \<lparr>item_required_dictionary := Some ''system/setFieldsDict'',
       item_scope_arguments := Some [''-region'', ''{scope_name}''],
       item_auto_consumer := Some False, item_execution_order := Some 500,
       item_default_arguments := Some [],
       item_ordering_inputs := Some [''mesh:{scope_key}:base'', ''mesh:{scope_key}:snapped'']\<rparr>,
    (item_of ''createPatch'' Eff_Mesh engineering_phases)
      \<lparr>item_required_dictionary := Some ''system/createPatchDict'',
       item_scope_arguments := Some [''-region'', ''{scope_name}''],
       item_inputs := Some [''{system_dir}/createPatchDict'', ''{constant_dir}/polyMesh''],
       item_outputs := Some [''{constant_dir}/polyMesh''], item_auto_consumer := Some False,
       item_execution_order := Some 500, item_default_arguments := Some [],
       item_ordering_inputs := Some [''mesh:{scope_key}:base'', ''mesh:{scope_key}:snapped'']\<rparr>,
    (item_of ''decomposePar'' Eff_Decomposition engineering_phases)
      \<lparr>item_required_dictionary := Some ''system/decomposeParDict'',
       item_scope_arguments := Some [''-region'', ''{scope_name}''],
       item_auto_consumer := Some False, item_execution_order := Some 500,
       item_default_arguments := Some [],
       item_ordering_inputs := Some [''mesh:{scope_key}:base'', ''mesh:{scope_key}:snapped'']\<rparr>,
    (item_of ''extrudeMesh'' Eff_Mesh engineering_phases)
      \<lparr>item_required_dictionary := Some ''system/extrudeMeshDict'',
       item_scope_arguments := Some [''-region'', ''{scope_name}''],
       item_auto_consumer := Some False, item_execution_order := Some 500,
       item_default_arguments := Some [],
       item_ordering_inputs := Some [''mesh:{scope_key}:base'', ''mesh:{scope_key}:snapped'']\<rparr>,
    (item_of ''checkMesh'' Eff_Validation engineering_phases)
      \<lparr>item_finalizer := Some True,
       item_scope_arguments := Some [''-region'', ''{scope_name}''],
       item_execution_order := Some 10000, item_default_arguments := Some [],
       item_ordering_inputs := Some [''mesh:{scope_key}:base'', ''mesh:{scope_key}:snapped'']\<rparr>,
    (item_of ''surfaceCheck'' Eff_Validation engineering_phases)
      \<lparr>item_auto_consumer := Some False, item_execution_order := Some 500,
       item_default_arguments := Some []\<rparr>,
    (item_of ''foamDictionary'' Eff_Validation engineering_phases)
      \<lparr>item_auto_consumer := Some False, item_execution_order := Some 500,
       item_default_arguments := Some []\<rparr>,
    (item_of ''potentialFoam'' Eff_Initialization engineering_phases)
      \<lparr>item_auto_consumer := Some False, item_execution_order := Some 500,
       item_default_arguments := Some [],
       item_ordering_inputs := Some [''mesh:{scope_key}:base'', ''mesh:{scope_key}:snapped'']\<rparr>,
    (item_of ''renumberMesh'' Eff_Mesh engineering_phases)
      \<lparr>item_inputs := Some [''{constant_dir}/polyMesh''],
       item_outputs := Some [''{constant_dir}/polyMesh''], item_auto_consumer := Some False,
       item_execution_order := Some 500, item_default_arguments := Some [],
       item_ordering_inputs := Some [''mesh:{scope_key}:base'', ''mesh:{scope_key}:snapped'']\<rparr>,
    (item_of ''transformPoints'' Eff_Mesh engineering_phases)
      \<lparr>item_inputs := Some [''{constant_dir}/polyMesh''],
       item_outputs := Some [''{constant_dir}/polyMesh''], item_auto_consumer := Some False,
       item_execution_order := Some 500, item_default_arguments := Some [],
       item_ordering_inputs := Some [''mesh:{scope_key}:base'', ''mesh:{scope_key}:snapped'']\<rparr>,
    (item_of ''gmshToFoam'' Eff_Mesh engineering_phases)
      \<lparr>item_auto_consumer := Some False, item_execution_order := Some 500,
       item_default_arguments := Some []\<rparr>,
    (item_of ''fluentMeshToFoam'' Eff_Mesh engineering_phases)
      \<lparr>item_auto_consumer := Some False, item_execution_order := Some 500,
       item_default_arguments := Some []\<rparr>,
    (item_of ''foamToC'' Eff_Query engineering_phases)
      \<lparr>item_auto_consumer := Some False, item_execution_order := Some 500,
       item_default_arguments := Some []\<rparr>,
    (item_of ''foamListTimes'' Eff_Query engineering_phases)
      \<lparr>item_auto_consumer := Some False, item_execution_order := Some 500,
       item_default_arguments := Some []\<rparr>,
    (item_of ''mapFields'' Eff_Initialization engineering_phases)
      \<lparr>item_auto_consumer := Some False, item_execution_order := Some 500,
       item_default_arguments := Some []\<rparr>,
    (item_of ''foamCleanCase'' Eff_Destructive [])
      \<lparr>item_auto_consumer := Some False, item_execution_order := Some 500,
       item_default_arguments := Some []\<rparr>,
    (item_of ''foamCleanPolyMesh'' Eff_Destructive [])
      \<lparr>item_auto_consumer := Some False, item_execution_order := Some 500,
       item_default_arguments := Some []\<rparr>,
    (item_of ''foamPostProcess'' Eff_Postprocess [Postprocess])
      \<lparr>item_auto_consumer := Some False, item_execution_order := Some 500,
       item_default_arguments := Some []\<rparr>,
    (item_of ''foamRun'' Eff_Solve [Runtime])
      \<lparr>item_auto_consumer := Some False, item_execution_order := Some 500,
       item_default_arguments := Some []\<rparr>,
    (item_of ''foamMultiRun'' Eff_Solve [Runtime])
      \<lparr>item_auto_consumer := Some False, item_execution_order := Some 500,
       item_default_arguments := Some []\<rparr>,
    (item_of ''reconstructPar'' Eff_Reconstruction [Runtime, Restart])
      \<lparr>item_auto_consumer := Some False, item_execution_order := Some 500,
       item_default_arguments := Some []\<rparr>,
    (item_of ''reconstructParMesh'' Eff_Reconstruction [Runtime, Restart])
      \<lparr>item_auto_consumer := Some False, item_execution_order := Some 500,
       item_default_arguments := Some []\<rparr>]"


text \<open>
  \<open>_REGISTRY\<close>: importing the module fails if loading raises; \<open>registry_loads\<close> shows that the
  shipped data loads.
\<close>

definition registry :: "(string \<times> native_contract) list" where
  "registry = map (\<lambda>it. (item_command it, contract_of_item it)) native_tool_contracts_json"

definition unknown_contract :: "string \<Rightarrow> native_contract" where
  "unknown_contract cmd = contract_of_item (item_of cmd Eff_Unknown [])"

definition native_tool_contract :: "string \<Rightarrow> native_contract" where
  "native_tool_contract cmd =
     (case map_of registry cmd of Some c \<Rightarrow> c | None \<Rightarrow> unknown_contract cmd)"

definition registered_effects :: "(string \<times> effect) list" where
  "registered_effects = map (\<lambda>(name, c). (name, ct_effect c)) registry"

definition registered_contracts :: "native_contract list" where
  "registered_contracts = map native_tool_contract (sort (map fst registry))"

definition command_permitted :: "string \<Rightarrow> phase \<Rightarrow> bool" where
  "command_permitted cmd ph \<longleftrightarrow> ph \<in> set (ct_permitted_phases (native_tool_contract cmd))"

section \<open>The region selector\<close>

text \<open>\<open>_REGION_NAME.fullmatch\<close>\<close>

definition region_char :: "char \<Rightarrow> bool" where
  "region_char c \<longleftrightarrow> is_alpha c \<or> is_digit c \<or> c \<in> set ''_.-''"

definition region_name :: "string \<Rightarrow> bool" where
  "region_name s = (case s of [] \<Rightarrow> False | c # cs \<Rightarrow> is_alpha c \<and> list_all region_char cs)"

definition native_command_region :: "string list \<Rightarrow> string option result" where
  "native_command_region args =
     (let positions = filter (\<lambda>i. args ! i = ''-region'') [0..<length args]
      in if ''-allRegions'' \<in> set args \<and> positions \<noteq> [] then Inl Region_With_All_Regions
         else if length positions > 1 then Inl Region_Repeated
         else case positions of
                [] \<Rightarrow> Inr None
              | index # _ \<Rightarrow>
                  if length args \<le> index + 1 then Inl Region_Name_Missing
                  else let region = args ! (index + 1)
                       in if region_name region then Inr (Some region)
                          else Inl (Unsafe_Region_Name region))"

text \<open>\<open>args.index(flag)\<close> followed by the argument after it, when there is one.\<close>

fun argument_after :: "string \<Rightarrow> string list \<Rightarrow> string option" where
  "argument_after flag [] = None"
| "argument_after flag (a # as) =
     (if a = flag then (case as of [] \<Rightarrow> None | v # _ \<Rightarrow> Some v) else argument_after flag as)"

definition dict_override :: "string list \<Rightarrow> string option" where
  "dict_override args =
     (case argument_after ''-dict'' args of
        Some v \<Rightarrow> Some v
      | None \<Rightarrow> argument_after ''-dictFile'' args)"

definition required_dictionary :: "string \<Rightarrow> string list \<Rightarrow> string option result" where
  "required_dictionary cmd args =
     (case dict_override args of
        Some path \<Rightarrow> Inr (Some path)
      | None \<Rightarrow>
          let required = ct_required_dictionary (native_tool_contract cmd)
          in bind_result (native_command_region args) (\<lambda>region.
               case (required, region) of
                 (Some req, Some reg) \<Rightarrow>
                   (case path_parts req of
                      [p0, p1] \<Rightarrow>
                        if p0 = ''system'' then Inr (Some (''system/'' @ reg @ ''/'' @ p1))
                        else Inr required
                    | _ \<Rightarrow> Inr required)
               | _ \<Rightarrow> Inr required))"

section \<open>Lemmas\<close>

lemma load_items_distinct:
  "distinct (map fst reg @ map item_command its) \<Longrightarrow>
     load_items reg its = Inr (reg @ map (\<lambda>it. (item_command it, contract_of_item it)) its)"
  by (induction reg its rule: load_items.induct) auto

lemma commands_distinct: "distinct (map item_command native_tool_contracts_json)"
  by (simp add: native_tool_contracts_json_def item_of_def)

lemma registry_commands: "map fst registry = map item_command native_tool_contracts_json"
  by (simp add: registry_def comp_def)

lemma distinct_registry: "distinct (map fst registry)"
  by (simp add: registry_commands commands_distinct)

lemma native_tool_contract_registered:
  "(cmd, c) \<in> set registry \<Longrightarrow> native_tool_contract cmd = c"
  using distinct_registry by (simp add: native_tool_contract_def)

lemma registered_command: "(cmd, c) \<in> set registry \<Longrightarrow> ct_command c = cmd"
  by (auto simp: registry_def contract_of_item_def)

lemma set_registered_contracts: "set registered_contracts = snd ` set registry"
proof -
  have "native_tool_contract ` fst ` set registry = snd ` set registry"
    by (force simp: native_tool_contract_registered)
  then show ?thesis by (simp add: registered_contracts_def)
qed

lemma registered_contract_lookup:
  "c \<in> set registered_contracts \<Longrightarrow> native_tool_contract (ct_command c) = c"
  by (auto simp: set_registered_contracts registered_command native_tool_contract_registered)

lemma unregistered_contract:
  "cmd \<notin> fst ` set registry \<Longrightarrow> native_tool_contract cmd = unknown_contract cmd"
  by (auto simp: native_tool_contract_def map_of_eq_None_iff [symmetric] split: option.splits)

text \<open>A property of every contract the code can look up: the registered ones and the unknown one.\<close>

lemma native_tool_contract_cases:
  obtains "native_tool_contract cmd \<in> set registered_contracts"
          "ct_command (native_tool_contract cmd) = cmd"
  | "native_tool_contract cmd = unknown_contract cmd"
proof (cases "cmd \<in> fst ` set registry")
  case True
  then obtain c where "(cmd, c) \<in> set registry" by auto
  then have "native_tool_contract cmd = c" "c \<in> set registered_contracts" "ct_command c = cmd"
    by (auto simp: native_tool_contract_registered set_registered_contracts registered_command
        intro: rev_image_eqI)
  with that(1) show ?thesis by simp
qed (use that(2) unregistered_contract in blast)

lemma all_contracts:
  "(\<forall>c \<in> set registered_contracts. P c) \<longleftrightarrow>
     (\<forall>it \<in> set native_tool_contracts_json. P (contract_of_item it))"
  by (auto simp: set_registered_contracts registry_def image_image)

text \<open>The region selector: one \<open>-region\<close> flag, followed by a safe name.\<close>

lemma positions_single:
  assumes "filter (\<lambda>i. args ! i = k) [0..<length args] = [i]"
  shows "i < length args" "args ! i = k" "\<And>j. j < length args \<Longrightarrow> args ! j = k \<Longrightarrow> j = i"
proof -
  have *: "\<And>j. j \<in> set (filter (\<lambda>i. args ! i = k) [0..<length args]) \<longleftrightarrow> j = i"
    by (simp add: assms)
  then show "i < length args" "args ! i = k" "\<And>j. j < length args \<Longrightarrow> args ! j = k \<Longrightarrow> j = i"
    by auto
qed

lemma filter_upt_cong:
  "(\<And>j. j < n \<Longrightarrow> P j = Q j) \<Longrightarrow> filter P [0..<n] = filter Q [0..<n]"
  by (intro filter_cong) auto

lemma positions_Nil_iff: "filter (\<lambda>i. args ! i = k) [0..<length args] = [] \<longleftrightarrow> k \<notin> set args"
  by (auto simp: filter_empty_conv in_set_conv_nth)

lemma region_flag_not_name: "\<not> region_name ''-region''" "\<not> region_name ''-allRegions''"
  by (simp_all add: region_name_def is_alpha_def)

lemma native_command_region_None_iff:
  "native_command_region args = Inr None \<longleftrightarrow> ''-region'' \<notin> set args"
  by (auto simp: native_command_region_def Let_def positions_Nil_iff [symmetric]
      split: list.splits if_splits)

lemma native_command_region_Some:
  assumes "native_command_region args = Inr (Some r)"
  shows "\<exists>xs ys. args = xs @ ''-region'' # r # ys \<and> ''-region'' \<notin> set xs \<union> set ys"
    and "region_name r" and "''-allRegions'' \<notin> set args"
proof -
  let ?ps = "filter (\<lambda>i. args ! i = ''-region'') [0..<length args]"
  from assms obtain i where i: "?ps = [i]" and len: "i + 1 < length args"
      and r: "r = args ! (i + 1)" "region_name r" and all: "''-allRegions'' \<notin> set args"
    by (cases ?ps) (auto simp: native_command_region_def Let_def split: if_splits)
  note single = positions_single [OF i]
  have "args = take i args @ ''-region'' # r # drop (i + 2) args"
    using len single(2) r(1)
    by (metis Cons_nth_drop_Suc One_nat_def Suc_1 Suc_eq_plus1 add_Suc_right append_take_drop_id
        single(1))
  moreover have "''-region'' \<notin> set (take i args)"
  proof
    assume "''-region'' \<in> set (take i args)"
    then obtain j where "j < i" "j < length args" "args ! j = ''-region''"
      by (auto simp: in_set_conv_nth)
    with single(3) show False by fastforce
  qed
  moreover have "''-region'' \<notin> set (drop (i + 2) args)"
  proof
    assume "''-region'' \<in> set (drop (i + 2) args)"
    then obtain j where j: "j < length (drop (i + 2) args)" "drop (i + 2) args ! j = ''-region''"
      by (auto simp: in_set_conv_nth)
    then have "i + 2 + j < length args" "args ! (i + 2 + j) = ''-region''" by auto
    with single(3) show False by fastforce
  qed
  ultimately show "\<exists>xs ys. args = xs @ ''-region'' # r # ys \<and> ''-region'' \<notin> set xs \<union> set ys"
    by blast
  show "region_name r" "''-allRegions'' \<notin> set args" using r(2) all by auto
qed

lemma native_command_region_found:
  assumes "''-region'' \<notin> set xs \<union> set ys" and "region_name r"
    and "''-allRegions'' \<notin> set xs \<union> set ys"
  shows "native_command_region (xs @ ''-region'' # r # ys) = Inr (Some r)"
proof -
  let ?args = "xs @ ''-region'' # r # ys"
  have r: "r \<noteq> ''-region''" "r \<noteq> ''-allRegions''"
    using assms(2) region_flag_not_name by auto
  have "\<And>j. j < length ?args \<Longrightarrow> ?args ! j = ''-region'' \<longleftrightarrow> j = length xs"
  proof -
    fix j assume j: "j < length ?args"
    have "?args ! j \<noteq> ''-region''" if "j > length xs + 1"
    proof -
      define k where "k = j - length xs - 2"
      with that have jk: "j = length xs + (2 + k)" by simp
      with j have "?args ! j = ys ! k" "k < length ys" by (simp_all add: nth_append)
      then show ?thesis using assms(1) by (metis UnCI nth_mem)
    qed
    moreover have "?args ! j \<noteq> ''-region''" if "j < length xs"
      using that assms(1) by (metis UnCI nth_append nth_mem)
    moreover have "?args ! j \<noteq> ''-region''" if "j = length xs + 1"
      using that r by (simp add: nth_append)
    moreover have "?args ! length xs = ''-region''" by simp
    moreover have "j < length xs \<or> j = length xs \<or> j = length xs + 1 \<or> j > length xs + 1"
      by arith
    ultimately show "?args ! j = ''-region'' \<longleftrightarrow> j = length xs"
      by blast
  qed
  then have "filter (\<lambda>i. ?args ! i = ''-region'') [0..<length ?args]
      = filter (\<lambda>i. i = length xs) [0..<length ?args]"
    by (rule filter_upt_cong)
  also have "\<dots> = [length xs]"
    by (simp add: upt_add_eq_append [of 0 "length xs"] upt_conv_Cons filter_empty_conv)
  finally show ?thesis
    using assms r by (simp add: native_command_region_def Let_def nth_append)
qed

lemmas contract_data = native_tool_contracts_json_def item_of_def contract_of_item_def

lemma unknown_contract_simps [simp]:
  "ct_command (unknown_contract cmd) = cmd"
  "ct_effect (unknown_contract cmd) = Eff_Unknown"
  "ct_required_dictionary (unknown_contract cmd) = None"
  "ct_permitted_phases (unknown_contract cmd) = []"
  "ct_controller_finalizer (unknown_contract cmd) = False"
  "ct_scope_arguments (unknown_contract cmd) = []"
  "ct_default_arguments (unknown_contract cmd) = []"
  "ct_mesh_dependency_inputs (unknown_contract cmd) = []"
  "ct_mesh_dependency_outputs (unknown_contract cmd) = []"
  "ct_ordering_inputs (unknown_contract cmd) = []"
  "ct_ordering_outputs (unknown_contract cmd) = []"
  by (simp_all add: unknown_contract_def contract_of_item_def item_of_def)

lemma contract_induct:
  assumes "\<And>it. it \<in> set native_tool_contracts_json \<Longrightarrow> P (contract_of_item it)"
    and "\<And>c. P (unknown_contract c)"
  shows "P (native_tool_contract cmd)"
proof (cases rule: native_tool_contract_cases [of cmd])
  case 1
  with all_contracts [of P] assms(1) show ?thesis by blast
qed (use assms(2) in simp)

section \<open>Properties of the registry\<close>

text \<open>
  Loading the shipped registry data raises no duplicate-contract error and
  gives the registry that every lookup uses, with one contract per command.
\<close>

theorem registry_loads:
  "load_registry native_tool_contracts_json = Inr registry \<and> distinct (map fst registry)"
  using load_items_distinct [of "[]" native_tool_contracts_json] commands_distinct
  by (simp add: load_registry_def registry_def [symmetric] distinct_registry)

text \<open>
  A command the registry permits in an engineering phase
  (authoring, repair, runtime repair or strategy revision) never solves, reconstructs, deletes,
  post-processes or has an unknown effect: every unregistered command is refused in every phase.
\<close>

theorem engineering_phase_effects:
  assumes "command_permitted cmd ph" and "ph \<in> set engineering_phases"
  shows "cmd \<in> fst ` set registry \<and>
    ct_effect (native_tool_contract cmd) \<in>
      {Eff_Mesh, Eff_Initialization, Eff_Decomposition, Eff_Validation, Eff_Query}"
proof -
  let ?P = "\<lambda>c. \<forall>p \<in> set engineering_phases. p \<in> set (ct_permitted_phases c) \<longrightarrow>
      ct_effect c \<in> {Eff_Mesh, Eff_Initialization, Eff_Decomposition, Eff_Validation, Eff_Query}"
  have "\<forall>it \<in> set native_tool_contracts_json. ?P (contract_of_item it)"
    by (simp add: contract_data engineering_phases_def)
  then have "?P (native_tool_contract cmd)"
    by (intro contract_induct [where P = ?P]) auto
  moreover have "cmd \<in> fst ` set registry"
    using assms(1) unregistered_contract [of cmd]
    by (cases "cmd \<in> fst ` set registry") (simp_all add: command_permitted_def)
  ultimately show ?thesis using assms by (auto simp: command_permitted_def)
qed

theorem engineering_phase_effects_witness:
  "ct_effect (native_tool_contract ''snappyHexMesh'') \<in>
     {Eff_Mesh, Eff_Initialization, Eff_Decomposition, Eff_Validation, Eff_Query}"
proof -
  have "command_permitted ''snappyHexMesh'' Repair" by code_simp
  moreover have "Repair \<in> set engineering_phases" by (simp add: engineering_phases_def)
  ultimately show ?thesis using engineering_phase_effects by blast
qed

text \<open>
  The region selector accepts exactly the invocations with one
  \<open>-region\<close> flag that a safe region name follows and no \<open>-allRegions\<close>; the name is the argument
  after the flag.
\<close>

theorem native_command_region_spec:
  "native_command_region args = Inr (Some r) \<longleftrightarrow>
     (\<exists>xs ys. args = xs @ ''-region'' # r # ys \<and> region_name r \<and>
        ''-region'' \<notin> set xs \<union> set ys \<and> ''-allRegions'' \<notin> set xs \<union> set ys)"
proof
  assume *: "native_command_region args = Inr (Some r)"
  from native_command_region_Some [OF *] show "\<exists>xs ys. args = xs @ ''-region'' # r # ys \<and>
      region_name r \<and> ''-region'' \<notin> set xs \<union> set ys \<and> ''-allRegions'' \<notin> set xs \<union> set ys"
    by fastforce
next
  assume "\<exists>xs ys. args = xs @ ''-region'' # r # ys \<and> region_name r \<and>
      ''-region'' \<notin> set xs \<union> set ys \<and> ''-allRegions'' \<notin> set xs \<union> set ys"
  then show "native_command_region args = Inr (Some r)"
    by (auto intro: native_command_region_found)
qed

end
