(* ===== verification/Execution_Scopes.thy ===== *)
theory Execution_Scopes
  imports Native_Contracts "HOL-Library.Product_Lexorder"
begin

text \<open>
  Execution scopes, \<^verbatim>\<open>contracts/execution_scopes.py\<close> with the schema classes it normalises
  (\<^verbatim>\<open>ExecutionScope\<close>, \<^verbatim>\<open>OpenFOAMExecutionSpec\<close>, \<^verbatim>\<open>NativeOpenFOAMCommand\<close> and the part of
  \<^verbatim>\<open>EngineeringPlan\<close> that decides the scopes, \<^verbatim>\<open>schemas/engineering.py\<close>).  A scope is the root case
  (\<open>None\<close>) or a named region; its key, its directories and the arguments that select it are
  rendered from its name, and the mesh consumers and the final mesh checks of a plan are
  compiled uniformly over its scopes.
\<close>

section \<open>Scopes, executions and plans\<close>

record execution_scope =
  scope_name :: "string option"
  scope_solver_module :: "string option"
  scope_solver_provider_id :: "string option"

record region_solver_assignment =
  rsa_region :: string
  rsa_solver_module :: string
  rsa_provider_id :: string

record execution_spec =
  ex_driver :: string
  ex_driver_provider_id :: string
  ex_scopes :: "execution_scope list"
  ex_solver_module :: "string option"
  ex_solver_provider_id :: "string option"
  ex_regions :: "region_solver_assignment list"
  ex_arguments :: "string list"

record region_case_layout =
  layout_region :: string
  layout_solver_module :: "string option"
  layout_required_fields :: "string list"

record engineering_plan =
  plan_solver :: string
  plan_solver_provider_id :: string
  plan_execution :: "execution_spec option"
  plan_region_layouts :: "region_case_layout list"
  plan_required_case_files :: "string list"

datatype role =
  Role_Preprocess | Role_Mesh | Role_Mesh_Validation | Role_Initialization | Role_Utility

record native_command =
  nc_command :: string
  nc_arguments :: "string list"
  nc_role :: role
  nc_rationale :: string

definition mk_command :: "string \<Rightarrow> string list \<Rightarrow> role \<Rightarrow> native_command" where
  "mk_command cmd args r =
     \<lparr>nc_command = cmd, nc_arguments = args, nc_role = r, nc_rationale = []\<rparr>"

lemma mk_command_simps [simp]:
  "nc_command (mk_command cmd args r) = cmd" "nc_arguments (mk_command cmd args r) = args"
  "nc_role (mk_command cmd args r) = r"
  by (simp_all add: mk_command_def)

section \<open>Keys and directories\<close>

definition named_scope :: "string option \<Rightarrow> execution_scope" where
  "named_scope n =
     \<lparr>scope_name = n, scope_solver_module = None, scope_solver_provider_id = None\<rparr>"

definition scope_key_of_name :: "string option \<Rightarrow> string" where
  "scope_key_of_name n = (case n of None \<Rightarrow> ''root'' | Some name \<Rightarrow> ''region:'' @ name)"

definition scope_key :: "execution_scope \<Rightarrow> string" where
  "scope_key sc = scope_key_of_name (scope_name sc)"

text \<open>
  \<open>ExecutionScope(name=...)\<close> bounds the name by 120 characters; the longer name is refused by
  the schema with a validation error, which is a \<open>ValueError\<close> too.
\<close>

definition scope_from_key :: "string \<Rightarrow> execution_scope result" where
  "scope_from_key key =
     (if key = ''root'' then Inr (named_scope None)
      else if starts_with key ''region:'' then
        let name = drop (length ''region:'') key
        in if \<not> region_name name then Inl (Invalid_Scope_Key key)
           else if length name > 120 then Inl (Unsafe_Region_Name name)
           else Inr (named_scope (Some name))
      else Inl (Unknown_Scope_Key key))"

record scope_paths =
  sp_key :: string
  sp_name :: "string option"
  sp_field_dir :: string
  sp_constant_dir :: string
  sp_system_dir :: string

definition scope_paths :: "execution_scope \<Rightarrow> scope_paths" where
  "scope_paths sc =
     (case scope_name sc of
        None \<Rightarrow> \<lparr>sp_key = scope_key sc, sp_name = None, sp_field_dir = ''0'',
                 sp_constant_dir = ''constant'', sp_system_dir = ''system''\<rparr>
      | Some n \<Rightarrow> \<lparr>sp_key = scope_key sc, sp_name = Some n, sp_field_dir = ''0/'' @ n,
                  sp_constant_dir = ''constant/'' @ n, sp_system_dir = ''system/'' @ n\<rparr>)"

section \<open>The scopes of a plan or an execution\<close>

text \<open>
  \<open>OpenFOAMExecutionSpec\<close>: the wire format without scopes is migrated before validation, and
  validation rewrites the legacy mirrors from the scopes.
\<close>

definition migrate_legacy_topology :: "execution_spec \<Rightarrow> execution_spec" where
  "migrate_legacy_topology ex =
     (if ex_scopes ex \<noteq> [] then ex
      else if ex_regions ex \<noteq> [] then
        ex\<lparr>ex_scopes := map (\<lambda>r. \<lparr>scope_name = Some (rsa_region r),
             scope_solver_module = Some (rsa_solver_module r),
             scope_solver_provider_id = Some (rsa_provider_id r)\<rparr>) (ex_regions ex)\<rparr>
      else ex\<lparr>ex_scopes := [\<lparr>scope_name = None, scope_solver_module = ex_solver_module ex,
             scope_solver_provider_id = ex_solver_provider_id ex\<rparr>]\<rparr>)"

definition present :: "string option \<Rightarrow> bool" where
  "present v \<longleftrightarrow> (case v of None \<Rightarrow> False | Some s \<Rightarrow> s \<noteq> [])"

datatype execution_error = Duplicate_Scopes | Bad_Execution_Argument string

definition bad_argument :: "string \<Rightarrow> bool" where
  "bad_argument arg \<longleftrightarrow>
     arg = [] \<or> length arg > 1000 \<or>
     CHR 0x00 \<in> set arg \<or> CHR 0x0A \<in> set arg \<or> CHR 0x0D \<in> set arg"

definition root_only :: "execution_scope list \<Rightarrow> bool" where
  "root_only scs \<longleftrightarrow> (case scs of [sc] \<Rightarrow> scope_name sc = None | _ \<Rightarrow> False)"

definition solver_assigned :: "execution_scope \<Rightarrow> bool" where
  "solver_assigned sc \<longleftrightarrow>
     scope_name sc \<noteq> None \<and> present (scope_solver_module sc) \<and>
     present (scope_solver_provider_id sc)"

definition mirror_legacy_fields :: "execution_spec \<Rightarrow> execution_spec" where
  "mirror_legacy_fields ex =
     (let scs = ex_scopes ex
      in if root_only scs then
           ex\<lparr>ex_solver_module := scope_solver_module (hd scs),
              ex_solver_provider_id := scope_solver_provider_id (hd scs), ex_regions := []\<rparr>
         else if list_all solver_assigned scs then
           ex\<lparr>ex_solver_module := None, ex_solver_provider_id := None,
              ex_regions := map (\<lambda>sc. \<lparr>rsa_region = the (scope_name sc),
                rsa_solver_module = the (scope_solver_module sc),
                rsa_provider_id = the (scope_solver_provider_id sc)\<rparr>) scs\<rparr>
         else ex\<lparr>ex_solver_module := None, ex_solver_provider_id := None, ex_regions := []\<rparr>)"

definition validate_execution_topology :: "execution_spec \<Rightarrow> execution_error + execution_spec" where
  "validate_execution_topology ex =
     (if \<not> distinct (map scope_key (ex_scopes ex)) then Inl Duplicate_Scopes
      else case filter bad_argument (ex_arguments ex) of
             arg # _ \<Rightarrow> Inl (Bad_Execution_Argument arg)
           | [] \<Rightarrow> Inr (mirror_legacy_fields ex))"

datatype scope_source = Of_Plan engineering_plan | Of_Execution execution_spec

definition scopes_of_execution :: "execution_spec \<Rightarrow> execution_scope list" where
  "scopes_of_execution ex =
     (if ex_scopes ex \<noteq> [] then ex_scopes ex
      else if ex_regions ex \<noteq> [] then
        map (\<lambda>r. \<lparr>scope_name = Some (rsa_region r),
          scope_solver_module = Some (rsa_solver_module r),
          scope_solver_provider_id = Some (rsa_provider_id r)\<rparr>) (ex_regions ex)
      else if present (ex_solver_module ex) \<or> present (ex_solver_provider_id ex) then
        [\<lparr>scope_name = None, scope_solver_module = ex_solver_module ex,
          scope_solver_provider_id = ex_solver_provider_id ex\<rparr>]
      else [named_scope None])"

definition scopes_of_layouts :: "engineering_plan \<Rightarrow> execution_scope list" where
  "scopes_of_layouts p =
     (if plan_region_layouts p \<noteq> [] then
        map (\<lambda>l. \<lparr>scope_name = (if layout_region l = [] then None else Some (layout_region l)),
          scope_solver_module = layout_solver_module l,
          scope_solver_provider_id = None\<rparr>) (plan_region_layouts p)
      else [\<lparr>scope_name = None, scope_solver_module = Some (plan_solver p),
             scope_solver_provider_id = Some (plan_solver_provider_id p)\<rparr>])"

definition execution_scopes :: "scope_source \<Rightarrow> execution_scope list" where
  "execution_scopes src =
     (case src of
        Of_Execution ex \<Rightarrow> scopes_of_execution ex
      | Of_Plan p \<Rightarrow>
          (case plan_execution p of
             Some ex \<Rightarrow> scopes_of_execution ex
           | None \<Rightarrow> scopes_of_layouts p))"

definition scope_by_key :: "scope_source \<Rightarrow> (string \<times> execution_scope) list result" where
  "scope_by_key src =
     (let scopes = execution_scopes src
      in if distinct (map scope_key scopes) then Inr (map (\<lambda>sc. (scope_key sc, sc)) scopes)
         else Inl Duplicate_Scope_Identities)"

text \<open>\<open>[scope for scope in scopes if scope.name == region]\<close> with exactly one element\<close>

definition only_scope :: "string option \<Rightarrow> execution_scope list \<Rightarrow> execution_scope option" where
  "only_scope region scopes =
     (case filter (\<lambda>sc. scope_name sc = region) scopes of [sc] \<Rightarrow> Some sc | _ \<Rightarrow> None)"

definition scope_for_native_arguments ::
  "scope_source \<Rightarrow> string list \<Rightarrow> execution_scope result" where
  "scope_for_native_arguments src args =
     bind_result (native_command_region args) (\<lambda>region.
       case only_scope region (execution_scopes src) of
         None \<Rightarrow> Inl (Unbound_Scope region)
       | Some sc \<Rightarrow> Inr sc)"

section \<open>Arguments and templates\<close>

definition scope_arguments_for :: "string \<Rightarrow> execution_scope \<Rightarrow> string list result" where
  "scope_arguments_for cmd sc =
     (case scope_name sc of
        None \<Rightarrow> Inr []
      | Some n \<Rightarrow>
          let template = ct_scope_arguments (native_tool_contract cmd)
          in if template = [] then Inl (No_Named_Scope_Contract cmd)
             else Inr (map (str_replace ''{scope_name}'' n) template))"

definition contract_arguments :: "string \<Rightarrow> execution_scope \<Rightarrow> string list result" where
  "contract_arguments cmd sc =
     bind_result (scope_arguments_for cmd sc) (\<lambda>args.
       Inr (args @ ct_default_arguments (native_tool_contract cmd)))"

definition render_scope_template :: "string \<Rightarrow> execution_scope \<Rightarrow> string" where
  "render_scope_template template sc =
     (let p = scope_paths sc;
          r1 = str_replace ''{scope_key}'' (sp_key p) template;
          r2 = str_replace ''{scope_name}'' (get_default [] (scope_name sc)) r1;
          r3 = str_replace ''{field_dir}'' (sp_field_dir p) r2;
          r4 = str_replace ''{constant_dir}'' (sp_constant_dir p) r3;
          r5 = str_replace ''{system_dir}'' (sp_system_dir p) r4
      in posix_str r5)"

definition path_overlap :: "string \<Rightarrow> string \<Rightarrow> bool" where
  "path_overlap left right \<longleftrightarrow>
     (let l = rstrip_chars ''/'' (posix_str left); r = rstrip_chars ''/'' (posix_str right)
      in l = r \<or> starts_with l (r @ ''/'') \<or> starts_with r (l @ ''/''))"

section \<open>Compiled mesh consumers and final checks\<close>

definition by_execution_order :: "native_contract list \<Rightarrow> native_contract list" where
  "by_execution_order cs = sort_key (\<lambda>c. (ct_execution_order c, ct_command c)) cs"

definition auto_consumer_contracts :: "native_contract list" where
  "auto_consumer_contracts =
     by_execution_order (filter ct_controller_auto_consumer registered_contracts)"

definition auto_mesh_consumer ::
  "string list \<Rightarrow> execution_scope \<Rightarrow> native_contract
     \<Rightarrow> (execution_scope \<times> native_command) list result" where
  "auto_mesh_consumer paths sc c =
     bind_result (contract_arguments (ct_command c) sc) (\<lambda>args.
     bind_result (required_dictionary (ct_command c) args) (\<lambda>required_path.
       case required_path of
         None \<Rightarrow> Inr []
       | Some path \<Rightarrow>
           if path = [] \<or> path \<notin> set paths then Inr []
           else Inr [(sc, mk_command (ct_command c) args Role_Mesh)]))"

definition auto_mesh_consumers ::
  "scope_source \<Rightarrow> string list \<Rightarrow> (execution_scope \<times> native_command) list result" where
  "auto_mesh_consumers src paths =
     bind_result
       (map_result (\<lambda>(sc, c). auto_mesh_consumer paths sc c)
          (List.product (execution_scopes src) auto_consumer_contracts))
       (\<lambda>found. Inr (concat found))"

definition finalizer_contracts :: "native_contract list" where
  "finalizer_contracts = by_execution_order (filter ct_controller_finalizer registered_contracts)"

definition final_mesh_validation_commands ::
  "scope_source \<Rightarrow> string list option \<Rightarrow> native_command list result" where
  "final_mesh_validation_commands src only_scope_keys =
     map_result
       (\<lambda>(sc, c). bind_result (contract_arguments (ct_command c) sc)
          (\<lambda>args. Inr (mk_command (ct_command c) args Role_Mesh_Validation)))
       (List.product
          (filter (\<lambda>sc. case only_scope_keys of None \<Rightarrow> True | Some ks \<Rightarrow> scope_key sc \<in> set ks)
             (execution_scopes src))
          finalizer_contracts)"

section \<open>Lemmas\<close>

lemma scope_key_of_name_inject [simp]: "scope_key_of_name m = scope_key_of_name n \<longleftrightarrow> m = n"
  by (auto simp: scope_key_of_name_def split: option.splits)

lemma scope_key_inject: "scope_key a = scope_key b \<longleftrightarrow> scope_name a = scope_name b"
  by (simp add: scope_key_def)

lemma scope_key_simps [simp]:
  "scope_name sc = None \<Longrightarrow> scope_key sc = ''root''"
  "scope_name sc = Some n \<Longrightarrow> scope_key sc = ''region:'' @ n"
  by (simp_all add: scope_key_def scope_key_of_name_def)

lemma named_scope_simps [simp]: "scope_name (named_scope n) = n"
  by (simp add: named_scope_def)

text \<open>What the schema guarantees of a scope's name.\<close>

definition valid_scope :: "execution_scope \<Rightarrow> bool" where
  "valid_scope sc \<longleftrightarrow>
     (case scope_name sc of None \<Rightarrow> True | Some n \<Rightarrow> region_name n \<and> length n \<le> 120)"

lemma region_name_plain: "region_name n \<Longrightarrow> plain_component n"
  by (auto simp: region_name_def plain_component_def is_alpha_def is_digit_def region_char_def
      list_all_iff split: list.splits)

lemma region_name_no_brace: "region_name n \<Longrightarrow> CHR ''{'' \<notin> set n"
  by (auto simp: region_name_def is_alpha_def is_digit_def region_char_def list_all_iff
      split: list.splits)

lemma str_replace_absent: "c \<notin> set s \<Longrightarrow> str_replace (c # old) new s = s"
  by (induction "c # old" new s rule: str_replace.induct) auto

lemma only_scope_Some:
  "only_scope region scopes = Some sc \<Longrightarrow> sc \<in> set scopes \<and> scope_name sc = region"
  by (auto simp: only_scope_def filter_eq_Cons_iff split: list.splits)

lemma only_scope_unique:
  assumes "distinct (map scope_key scopes)" and "sc \<in> set scopes"
  shows "only_scope (scope_name sc) scopes = Some sc"
proof -
  have "filter (\<lambda>x. scope_name x = scope_name sc) scopes = [sc]"
    using assms
  proof (induction scopes)
    case (Cons x xs)
    then show ?case
      by (auto simp: scope_key_inject filter_empty_conv) (metis image_eqI scope_key_inject)+
  qed simp
  then show ?thesis by (simp add: only_scope_def)
qed

section \<open>What the registry's argument templates render\<close>

lemma scope_arguments_shape:
  "ct_scope_arguments (native_tool_contract cmd) = [] \<or>
   ct_scope_arguments (native_tool_contract cmd) = [''-region'', ''{scope_name}'']"
  by (rule contract_induct [where P = "\<lambda>c. ct_scope_arguments c = [] \<or>
        ct_scope_arguments c = [''-region'', ''{scope_name}'']"])
    (auto simp: contract_data)

lemma default_arguments_shape:
  "ct_default_arguments (native_tool_contract cmd) = [] \<or>
   ct_default_arguments (native_tool_contract cmd) = [''-overwrite'']"
  by (rule contract_induct [where P = "\<lambda>c. ct_default_arguments c = [] \<or>
        ct_default_arguments c = [''-overwrite'']"])
    (auto simp: contract_data)

lemma replace_scope_name_token: "str_replace ''{scope_name}'' n ''{scope_name}'' = n"
  by (cases n) simp_all

lemma scope_arguments_for_named:
  assumes "scope_name sc = Some n" and "scope_arguments_for cmd sc = Inr args"
  shows "args = [''-region'', n]"
  using assms scope_arguments_shape [of cmd]
  by (auto simp: scope_arguments_for_def replace_scope_name_token Let_def split: if_splits)

lemma contract_arguments_shape:
  assumes "contract_arguments cmd sc = Inr args"
  shows "\<exists>extra. set extra \<subseteq> {''-overwrite''} \<and>
    args = (case scope_name sc of None \<Rightarrow> [] | Some n \<Rightarrow> [''-region'', n]) @ extra"
proof -
  obtain sargs where sargs: "scope_arguments_for cmd sc = Inr sargs"
      "args = sargs @ ct_default_arguments (native_tool_contract cmd)"
    using assms by (auto simp: contract_arguments_def)
  have "sargs = (case scope_name sc of None \<Rightarrow> [] | Some n \<Rightarrow> [''-region'', n])"
    using sargs(1) scope_arguments_for_named [of sc _ cmd sargs]
    by (cases "scope_name sc") (auto simp: scope_arguments_for_def)
  with sargs(2) default_arguments_shape [of cmd] show ?thesis by auto
qed

lemma contract_arguments_region:
  assumes "valid_scope sc" and "contract_arguments cmd sc = Inr args"
  shows "native_command_region args = Inr (scope_name sc)"
    and "dict_override args = None"
proof -
  obtain extra where ex: "set extra \<subseteq> {''-overwrite''}"
      "args = (case scope_name sc of None \<Rightarrow> [] | Some n \<Rightarrow> [''-region'', n]) @ extra"
    using contract_arguments_shape [OF assms(2)] by blast
  have no_flag: "argument_after f xs = None" if "f \<notin> set xs" for f and xs :: "string list"
    using that by (induction xs) auto
  have name: "region_name n \<Longrightarrow> n \<noteq> CHR ''-'' # w" for n w
    by (auto simp: region_name_def is_alpha_def)
  show "native_command_region args = Inr (scope_name sc)"
  proof (cases "scope_name sc")
    case None
    then show ?thesis
      using ex by (auto simp: native_command_region_None_iff)
  next
    case (Some n)
    have "native_command_region ([] @ ''-region'' # n # extra) = Inr (Some n)"
      using assms(1) Some ex(1) by (intro native_command_region_found) (auto simp: valid_scope_def)
    with Some ex show ?thesis by simp
  qed
  have "''-dict'' \<notin> set args" "''-dictFile'' \<notin> set args"
    using ex assms(1) name by (auto simp: valid_scope_def split: option.splits)
  then show "dict_override args = None"
    by (simp add: dict_override_def no_flag)
qed

text \<open>Commands with a scope contract render arguments for every declared scope.\<close>

lemma contract_arguments_total:
  assumes "scope_name sc = None \<or> ct_scope_arguments (native_tool_contract cmd) \<noteq> []"
  shows "contract_arguments cmd sc = Inr
    ((case scope_name sc of None \<Rightarrow> [] | Some n \<Rightarrow> [''-region'', n]) @
      ct_default_arguments (native_tool_contract cmd))"
  using assms scope_arguments_shape [of cmd]
  by (auto simp: contract_arguments_def scope_arguments_for_def replace_scope_name_token Let_def
      split: option.splits)

section \<open>The compiled consumers of the shipped registry\<close>

lemma auto_consumer_contracts_eq:
  "auto_consumer_contracts =
     [native_tool_contract ''blockMesh'', native_tool_contract ''snappyHexMesh'']"
  by code_simp

lemma finalizer_contracts_eq: "finalizer_contracts = [native_tool_contract ''checkMesh'']"
  by code_simp

lemma block_mesh_contract:
  "ct_command (native_tool_contract ''blockMesh'') = ''blockMesh''"
  "ct_scope_arguments (native_tool_contract ''blockMesh'') = [''-region'', ''{scope_name}'']"
  "ct_default_arguments (native_tool_contract ''blockMesh'') = []"
  "ct_required_dictionary (native_tool_contract ''blockMesh'') = Some ''system/blockMeshDict''"
  by code_simp+

lemma snappy_contract:
  "ct_command (native_tool_contract ''snappyHexMesh'') = ''snappyHexMesh''"
  "ct_scope_arguments (native_tool_contract ''snappyHexMesh'') = [''-region'', ''{scope_name}'']"
  "ct_default_arguments (native_tool_contract ''snappyHexMesh'') = [''-overwrite'']"
  "ct_required_dictionary (native_tool_contract ''snappyHexMesh'') =
     Some ''system/snappyHexMeshDict''"
  by code_simp+

lemma check_mesh_contract:
  "ct_command (native_tool_contract ''checkMesh'') = ''checkMesh''"
  "ct_scope_arguments (native_tool_contract ''checkMesh'') = [''-region'', ''{scope_name}'']"
  "ct_default_arguments (native_tool_contract ''checkMesh'') = []"
  "ct_controller_finalizer (native_tool_contract ''checkMesh'')"
  by code_simp+

lemmas mesh_contract_simps = block_mesh_contract snappy_contract check_mesh_contract

text \<open>The arguments that select a scope, and its dictionary directory.\<close>

definition region_arguments :: "execution_scope \<Rightarrow> string list" where
  "region_arguments sc = (case scope_name sc of None \<Rightarrow> [] | Some n \<Rightarrow> [''-region'', n])"

definition system_dictionary :: "string \<Rightarrow> execution_scope \<Rightarrow> string" where
  "system_dictionary file sc = sp_system_dir (scope_paths sc) @ ''/'' @ file"

lemma path_parts_system: "plain_component f \<Longrightarrow> path_parts (''system/'' @ f) = [''system'', f]"
  using path_tail_join [of "[''system'', f]"] path_root_join [of "[''system'', f]"]
  by (simp add: path_parts_def plain_component_def)

lemma required_dictionary_scope:
  assumes "valid_scope sc" and "contract_arguments cmd sc = Inr args"
    and "ct_required_dictionary (native_tool_contract cmd) = Some (''system/'' @ f)"
    and "plain_component f"
  shows "required_dictionary cmd args = Inr (Some (system_dictionary f sc))"
  using contract_arguments_region [OF assms(1,2)] assms(3) path_parts_system [OF assms(4)]
  by (auto simp: required_dictionary_def system_dictionary_def scope_paths_def Let_def
      split: option.splits)

lemma auto_mesh_consumer_scope:
  assumes "valid_scope sc" and "ct_command c = cmd" and "c = native_tool_contract cmd"
    and "ct_scope_arguments c = [''-region'', ''{scope_name}'']"
    and "ct_required_dictionary c = Some (''system/'' @ f)" and "plain_component f"
  shows "auto_mesh_consumer paths sc c = Inr
    (if system_dictionary f sc \<in> set paths
     then [(sc, mk_command cmd (region_arguments sc @ ct_default_arguments c) Role_Mesh)] else [])"
proof -
  have args: "contract_arguments cmd sc = Inr (region_arguments sc @ ct_default_arguments c)"
    using contract_arguments_total [of sc cmd] assms by (simp add: region_arguments_def)
  have "system_dictionary f sc \<noteq> []" by (simp add: system_dictionary_def)
  then show ?thesis
    using args required_dictionary_scope [OF assms(1) args] assms
    by (simp add: auto_mesh_consumer_def)
qed

definition scope_consumers ::
  "string list \<Rightarrow> execution_scope \<Rightarrow> (execution_scope \<times> native_command) list" where
  "scope_consumers paths sc =
     (if system_dictionary ''blockMeshDict'' sc \<in> set paths
      then [(sc, mk_command ''blockMesh'' (region_arguments sc) Role_Mesh)] else []) @
     (if system_dictionary ''snappyHexMeshDict'' sc \<in> set paths
      then [(sc, mk_command ''snappyHexMesh'' (region_arguments sc @ [''-overwrite'']) Role_Mesh)]
      else [])"

lemma auto_mesh_consumers_each:
  "valid_scope sc \<Longrightarrow>
     auto_mesh_consumer paths sc (native_tool_contract ''blockMesh'') = Inr
       (if system_dictionary ''blockMeshDict'' sc \<in> set paths
        then [(sc, mk_command ''blockMesh'' (region_arguments sc) Role_Mesh)] else [])"
  "valid_scope sc \<Longrightarrow>
     auto_mesh_consumer paths sc (native_tool_contract ''snappyHexMesh'') = Inr
       (if system_dictionary ''snappyHexMeshDict'' sc \<in> set paths
        then [(sc, mk_command ''snappyHexMesh'' (region_arguments sc @ [''-overwrite'']) Role_Mesh)]
        else [])"
  using auto_mesh_consumer_scope [of sc _ "''blockMesh''" "''blockMeshDict''" paths]
    auto_mesh_consumer_scope [of sc _ "''snappyHexMesh''" "''snappyHexMeshDict''" paths]
  by (simp_all add: mesh_contract_simps plain_component_def)

lemma auto_mesh_consumers_eq:
  assumes "\<forall>sc \<in> set (execution_scopes src). valid_scope sc"
  shows "auto_mesh_consumers src paths =
    Inr (concat (map (scope_consumers paths) (execution_scopes src)))"
proof -
  have "bind_result (map_result (\<lambda>(sc, c). auto_mesh_consumer paths sc c)
          (List.product scs auto_consumer_contracts)) (\<lambda>found. Inr (concat found)) =
        Inr (concat (map (scope_consumers paths) scs))"
    if "\<forall>sc \<in> set scs. valid_scope sc" for scs
    using that
  proof (induction scs)
    case (Cons sc scs)
    then obtain ys where "map_result (\<lambda>(sc, c). auto_mesh_consumer paths sc c)
          (List.product scs auto_consumer_contracts) = Inr ys"
        "concat ys = concat (map (scope_consumers paths) scs)"
      by auto
    moreover have "valid_scope sc" using Cons.prems by simp
    ultimately show ?case
      by (simp add: auto_consumer_contracts_eq auto_mesh_consumers_each
          scope_consumers_def [of paths sc])
  qed simp
  with assms show ?thesis by (simp add: auto_mesh_consumers_def)
qed

definition selected_scopes :: "scope_source \<Rightarrow> string list option \<Rightarrow> execution_scope list" where
  "selected_scopes src ks =
     filter (\<lambda>sc. case ks of None \<Rightarrow> True | Some xs \<Rightarrow> scope_key sc \<in> set xs) (execution_scopes src)"

lemma final_mesh_validation_commands_eq:
  "final_mesh_validation_commands src ks =
     Inr (map (\<lambda>sc. mk_command ''checkMesh'' (region_arguments sc) Role_Mesh_Validation)
           (selected_scopes src ks))"
proof -
  have "contract_arguments ''checkMesh'' sc = Inr (region_arguments sc)" for sc
    using contract_arguments_total [of sc "''checkMesh''"]
    by (simp add: mesh_contract_simps region_arguments_def)
  then have "map_result (\<lambda>(sc, c). bind_result (contract_arguments (ct_command c) sc)
          (\<lambda>args. Inr (mk_command (ct_command c) args Role_Mesh_Validation)))
        (List.product scs [native_tool_contract ''checkMesh'']) =
      Inr (map (\<lambda>sc. mk_command ''checkMesh'' (region_arguments sc) Role_Mesh_Validation) scs)" for scs
    by (induction scs) (simp_all add: mesh_contract_simps)
  then show ?thesis
    by (simp add: final_mesh_validation_commands_def selected_scopes_def finalizer_contracts_eq)
qed

section \<open>Overlapping paths as an interface\<close>

text \<open>
  What invalidation by path needs of an overlap test: it is reflexive and symmetric, and it
  does not miss a path below an invalidated one.  \<open>below p q\<close> says that \<open>p\<close> names \<open>q\<close> or
  something inside it.
\<close>

locale path_invalidation =
  fixes overlap :: "'p \<Rightarrow> 'p \<Rightarrow> bool"
    and below :: "'p \<Rightarrow> 'p \<Rightarrow> bool"
    and ok :: "'p \<Rightarrow> bool"
  assumes overlap_refl: "ok p \<Longrightarrow> overlap p p"
    and overlap_sym: "ok p \<Longrightarrow> ok q \<Longrightarrow> overlap p q \<longleftrightarrow> overlap q p"
    and overlap_below: "ok p \<Longrightarrow> ok q \<Longrightarrow> below p q \<Longrightarrow> overlap p q"
begin

text \<open>A change set touches a dependency set when two of their paths overlap.\<close>

lemma touches_member: "\<forall>d \<in> D. ok d \<Longrightarrow> p \<in> C \<Longrightarrow> p \<in> D \<Longrightarrow> \<exists>c \<in> C. \<exists>d \<in> D. overlap c d"
  using overlap_refl by blast

lemma touches_below:
  "\<forall>d \<in> D. ok d \<Longrightarrow> \<forall>c \<in> C. ok c \<Longrightarrow> c \<in> C \<Longrightarrow> d \<in> D \<Longrightarrow> below c d \<or> below d c \<Longrightarrow>
     \<exists>c \<in> C. \<exists>d \<in> D. overlap c d"
  using overlap_below overlap_sym by meson

lemma touches_sym:
  "\<forall>d \<in> D. ok d \<Longrightarrow> \<forall>c \<in> C. ok c \<Longrightarrow>
     (\<exists>c \<in> C. \<exists>d \<in> D. overlap c d) \<longleftrightarrow> (\<exists>d \<in> D. \<exists>c \<in> C. overlap d c)"
  using overlap_sym by blast

end

definition path_below :: "string \<Rightarrow> string \<Rightarrow> bool" where
  "path_below p q \<longleftrightarrow> prefix (path_tail q) (path_tail p)"

lemma starts_with_slash_iff:
  assumes "case_relative l" and "case_relative r"
  shows "starts_with (posix_str l) (posix_str r @ ''/'') \<longleftrightarrow>
    strict_prefix (path_tail r) (path_tail l)"
proof -
  have "path_tail l \<noteq> []" "path_tail r \<noteq> []" using assms by (simp_all add: case_relative_def)
  then show ?thesis
    using slash_prefix_iff [of "path_tail r" "path_tail l"] path_tail_plain
    by (simp add: starts_with_def posix_str_case_relative assms)
qed

lemma posix_str_eq_iff:
  assumes "case_relative l" and "case_relative r"
  shows "posix_str l = posix_str r \<longleftrightarrow> path_tail l = path_tail r"
  by (metis assms case_relative_posix_str(2) posix_str_case_relative)

lemma path_overlap_iff:
  assumes "case_relative l" and "case_relative r"
  shows "path_overlap l r \<longleftrightarrow> components_overlap (path_tail l) (path_tail r)"
  using starts_with_slash_iff [OF assms] starts_with_slash_iff [OF assms(2,1)]
  by (auto simp: path_overlap_def Let_def rstrip_posix_str assms posix_str_eq_iff
      components_overlap_def strict_prefix_def)

interpretation scope_paths: path_invalidation path_overlap path_below case_relative
  by unfold_locales
     (auto simp: path_overlap_iff path_below_def components_overlap_def)

section \<open>Properties\<close>

text \<open>
  Persisted scope keys identify scopes: reading a key succeeds exactly
  when it is the key of a scope with a valid name (the root or a region name of at most 120
  characters), and gives that scope.
\<close>

theorem scope_key_roundtrip:
  "scope_from_key key = Inr sc \<longleftrightarrow>
     valid_scope sc \<and> sc = named_scope (scope_name sc) \<and> scope_key sc = key"
proof
  assume "scope_from_key key = Inr sc"
  then show "valid_scope sc \<and> sc = named_scope (scope_name sc) \<and> scope_key sc = key"
    by (auto simp: scope_from_key_def valid_scope_def starts_with_def prefix_def Let_def
        split: if_splits)
next
  assume *: "valid_scope sc \<and> sc = named_scope (scope_name sc) \<and> scope_key sc = key"
  then have "key = scope_key_of_name (scope_name sc)" by (simp add: scope_key_def)
  with * show "scope_from_key key = Inr sc"
    by (cases "scope_name sc")
       (simp_all add: scope_from_key_def valid_scope_def scope_key_of_name_def starts_with_def)
qed

text \<open>
  On relative case paths the overlap test of the scope compiler, which
  compares normalised strings, holds exactly when one path's components are a prefix of the
  other's: \<open>constant/poly\<close> does not overlap \<open>constant/polyMesh\<close>.
\<close>

theorem path_overlap_spec:
  assumes "case_relative l" and "case_relative r"
  shows "path_overlap l r \<longleftrightarrow> components_overlap (path_tail l) (path_tail r)"
  using assms by (rule path_overlap_iff)

theorem path_overlap_spec_witness:
  "path_overlap ''constant/polyMesh/points'' ''constant//polyMesh/'' \<and>
   \<not> path_overlap ''constant/poly'' ''constant/polyMesh''"
proof -
  have rel: "case_relative ''constant/polyMesh/points''" "case_relative ''constant//polyMesh/''"
    "case_relative ''constant/poly''" "case_relative ''constant/polyMesh''"
    by code_simp+
  have "components_overlap (path_tail ''constant/polyMesh/points'') (path_tail ''constant//polyMesh/'')"
    "\<not> components_overlap (path_tail ''constant/poly'') (path_tail ''constant/polyMesh'')"
    by code_simp+
  then show ?thesis
    using path_overlap_spec [OF rel(1,2)] path_overlap_spec [OF rel(3,4)] by simp
qed

text \<open>
  C20: for every command of the registry (and any other), the arguments
  the controller renders to run it in a declared scope are read back as that scope: a rendered
  invocation can always be bound to exactly the scope it was compiled for.
\<close>

theorem scope_arguments_roundtrip:
  assumes "sc \<in> set (execution_scopes src)"
    and "distinct (map scope_key (execution_scopes src))" and "valid_scope sc"
    and "contract_arguments cmd sc = Inr args"
  shows "scope_for_native_arguments src args = Inr sc"
  using only_scope_unique [OF assms(2,1)] contract_arguments_region [OF assms(3,4)]
  by (simp add: scope_for_native_arguments_def)

text \<open>Two regions, air and solid, as the witnesses' plan.\<close>

definition region_scope :: "string \<Rightarrow> execution_scope" where
  "region_scope n = \<lparr>scope_name = Some n, scope_solver_module = Some ''fluid'',
     scope_solver_provider_id = Some ''foundation-13:fluid''\<rparr>"

definition two_region_execution :: execution_spec where
  "two_region_execution =
     \<lparr>ex_driver = ''foamMultiRun'', ex_driver_provider_id = ''foundation-13'',
      ex_scopes = [region_scope ''air'', region_scope ''solid''], ex_solver_module = None,
      ex_solver_provider_id = None, ex_regions = [], ex_arguments = []\<rparr>"

lemma two_region_scopes:
  "execution_scopes (Of_Execution two_region_execution) =
     [region_scope ''air'', region_scope ''solid'']"
  by (simp add: execution_scopes_def scopes_of_execution_def two_region_execution_def)

lemma two_region_valid:
  "\<forall>sc \<in> set (execution_scopes (Of_Execution two_region_execution)). valid_scope sc"
  "distinct (map scope_key (execution_scopes (Of_Execution two_region_execution)))"
  by (simp_all add: two_region_scopes valid_scope_def region_scope_def region_name_def
      region_char_def is_alpha_def is_digit_def)

theorem scope_arguments_roundtrip_witness:
  "scope_for_native_arguments (Of_Execution two_region_execution)
     [''-region'', ''solid'', ''-overwrite''] = Inr (region_scope ''solid'')"
proof -
  have "contract_arguments ''snappyHexMesh'' (region_scope ''solid'') =
      Inr [''-region'', ''solid'', ''-overwrite'']"
    using contract_arguments_total [of "region_scope ''solid''" "''snappyHexMesh''"]
    by (simp add: mesh_contract_simps region_scope_def)
  then show ?thesis
    using scope_arguments_roundtrip two_region_valid by (simp add: two_region_scopes)
qed

text \<open>
  Compiling the mesh consumers of a plan with valid scopes never
  raises and gives, scope by scope in plan order, \<open>blockMesh\<close> when the scope's own
  \<open>blockMeshDict\<close> is authored and then \<open>snappyHexMesh -overwrite\<close> when its own
  \<open>snappyHexMeshDict\<close> is; nothing else is ever inferred.
\<close>

theorem mesh_consumers_compiled:
  assumes "\<forall>sc \<in> set (execution_scopes src). valid_scope sc"
  shows "auto_mesh_consumers src paths = Inr (concat (map (\<lambda>sc.
      (if system_dictionary ''blockMeshDict'' sc \<in> set paths
       then [(sc, mk_command ''blockMesh'' (region_arguments sc) Role_Mesh)] else []) @
      (if system_dictionary ''snappyHexMeshDict'' sc \<in> set paths
       then [(sc, mk_command ''snappyHexMesh'' (region_arguments sc @ [''-overwrite'']) Role_Mesh)]
       else [])) (execution_scopes src)))"
  using auto_mesh_consumers_eq [OF assms, of paths] by (simp add: scope_consumers_def [abs_def])

theorem mesh_consumers_compiled_witness:
  "auto_mesh_consumers (Of_Execution two_region_execution)
     [''system/solid/blockMeshDict'', ''0/air/T''] =
   Inr [(region_scope ''solid'', mk_command ''blockMesh'' [''-region'', ''solid''] Role_Mesh)]"
  using mesh_consumers_compiled [OF two_region_valid(1), of "[''system/solid/blockMeshDict'', ''0/air/T'']"]
  by (simp add: two_region_scopes system_dictionary_def scope_paths_def region_scope_def
      region_arguments_def)

text \<open>
  The final mesh validation of any plan never raises and is one
  \<open>checkMesh\<close> for each selected scope, in plan order, with the arguments that select it.
\<close>

theorem final_checks_compiled:
  "final_mesh_validation_commands src ks =
     Inr (map (\<lambda>sc. mk_command ''checkMesh'' (region_arguments sc) Role_Mesh_Validation)
           (filter (\<lambda>sc. case ks of None \<Rightarrow> True | Some xs \<Rightarrow> scope_key sc \<in> set xs)
             (execution_scopes src)))"
  by (simp add: final_mesh_validation_commands_eq selected_scopes_def)

lemma region_of_solver_assigned:
  "solver_assigned sc \<Longrightarrow>
     \<lparr>scope_name = Some (the (scope_name sc)),
      scope_solver_module = Some (the (scope_solver_module sc)),
      scope_solver_provider_id = Some (the (scope_solver_provider_id sc))\<rparr> = sc"
  by (cases sc) (auto simp: solver_assigned_def present_def split: option.splits)

text \<open>
  The legacy mirror fields lose nothing when they are filled: a
  validated execution that is the root scope alone, or whose scopes are all named with solvers,
  and that is persisted without its scopes, is migrated back to the same scopes.
\<close>

theorem legacy_topology_roundtrip:
  assumes "validate_execution_topology ex = Inr ex'" and "ex_scopes ex \<noteq> []"
    and "root_only (ex_scopes ex) \<or> list_all solver_assigned (ex_scopes ex)"
  shows "ex_scopes (migrate_legacy_topology (ex'\<lparr>ex_scopes := []\<rparr>)) = ex_scopes ex"
proof -
  have ex': "ex' = mirror_legacy_fields ex"
    using assms(1) by (auto simp: validate_execution_topology_def split: if_splits list.splits)
  show ?thesis
  proof (cases "root_only (ex_scopes ex)")
    case True
    then obtain sc where "ex_scopes ex = [sc]" "scope_name sc = None"
      by (auto simp: root_only_def split: list.splits)
    then show ?thesis
      using True by (simp add: ex' mirror_legacy_fields_def migrate_legacy_topology_def)
  next
    case False
    with assms(3) have all: "list_all solver_assigned (ex_scopes ex)" by simp
    then have "map (\<lambda>sc. \<lparr>scope_name = Some (the (scope_name sc)),
        scope_solver_module = Some (the (scope_solver_module sc)),
        scope_solver_provider_id = Some (the (scope_solver_provider_id sc))\<rparr>) (ex_scopes ex) =
      ex_scopes ex"
      by (simp add: list_all_iff map_idI region_of_solver_assigned)
    with False all assms(2) show ?thesis
      by (simp add: ex' mirror_legacy_fields_def migrate_legacy_topology_def comp_def)
  qed
qed

theorem legacy_topology_roundtrip_witness:
  "ex_scopes (migrate_legacy_topology
     ((mirror_legacy_fields two_region_execution)\<lparr>ex_scopes := []\<rparr>)) =
   [region_scope ''air'', region_scope ''solid'']"
proof -
  have "validate_execution_topology two_region_execution =
      Inr (mirror_legacy_fields two_region_execution)"
    by (simp add: validate_execution_topology_def two_region_execution_def scope_key_def
        scope_key_of_name_def region_scope_def)
  moreover have "list_all solver_assigned (ex_scopes two_region_execution)"
    by (simp add: two_region_execution_def region_scope_def solver_assigned_def present_def)
  moreover have "ex_scopes two_region_execution = [region_scope ''air'', region_scope ''solid'']"
    by (simp add: two_region_execution_def)
  ultimately show ?thesis
    using legacy_topology_roundtrip [of two_region_execution] by simp
qed

end
