(* ===== verification/Dependency_Order.thy ===== *)
theory Dependency_Order
  imports Execution_Scopes
begin

text \<open>
  The ordering of native commands, \<open>_render_ordering_tokens\<close> and \<open>_stable_dependency_order\<close> of
  \<^verbatim>\<open>engineering/case_build_graph.py\<close>: Kahn's algorithm on the producer and consumer labels of the
  registry, taking the command proposed first among those that are ready.

  The algorithm is proved correct once, in the locale \<open>dependency_graph\<close> over an abstract edge
  relation, and interpreted on the label edges of a list of invocations.
\<close>

section \<open>Failures of the case build graph\<close>

datatype graph_failure =
    Manifest_Empty
  | Consumers_Not_Compiled value_error
  | Invalid_Native_Invocation string value_error
  | Scope_Not_Bound string value_error
  | Dependency_Cycle "string list"
  | Manifest_Incomplete "string list"
  | Validation_Not_Compiled value_error

section \<open>Rendering the labels\<close>

definition needs_scope :: "string list \<Rightarrow> bool" where
  "needs_scope templates \<longleftrightarrow>
     list_ex (\<lambda>t. sublist ''{scope_key}'' t \<or> sublist ''{scope_name}'' t) templates"

definition render_label :: "execution_scope option \<Rightarrow> string \<Rightarrow> string" where
  "render_label sc template =
     (case sc of
        None \<Rightarrow> template
      | Some s \<Rightarrow>
          str_replace ''{scope_name}'' (get_default [] (scope_name s))
            (str_replace ''{scope_key}'' (scope_key s) template))"

definition render_ordering_tokens ::
  "scope_source \<Rightarrow> native_command \<Rightarrow> string list \<Rightarrow> string list result" where
  "render_ordering_tokens src call templates =
     (if templates = [] then Inr []
      else if needs_scope templates then
        bind_result (scope_for_native_arguments src (nc_arguments call))
          (\<lambda>sc. Inr (map (render_label (Some sc)) templates))
      else Inr (map (render_label None) templates))"

text \<open>
  The labels of one invocation, inputs and outputs together; a label that cannot be bound to a
  scope is reported and leaves both empty.
\<close>

definition invocation_labels ::
  "scope_source \<Rightarrow> native_command \<Rightarrow> value_error + (string list \<times> string list)" where
  "invocation_labels src call =
     (let c = native_tool_contract (nc_command call)
      in bind_result (render_ordering_tokens src call (ct_ordering_inputs c)) (\<lambda>ins.
         bind_result (render_ordering_tokens src call (ct_ordering_outputs c)) (\<lambda>outs.
           Inr (ins, outs))))"

section \<open>Kahn's algorithm with the smallest ready index\<close>

text \<open>\<open>for child in sorted(outgoing[index]): ...\<close>\<close>

fun release :: "nat list \<Rightarrow> int list \<Rightarrow> nat list \<Rightarrow> int list \<times> nat list" where
  "release [] deg ready = (deg, ready)"
| "release (c # cs) deg ready =
     (let deg' = deg[c := deg ! c - 1]
      in release cs deg' (if deg' ! c = 0 then ready @ [c] else ready))"

definition outgoing :: "(nat \<Rightarrow> nat \<Rightarrow> bool) \<Rightarrow> nat \<Rightarrow> nat \<Rightarrow> nat list" where
  "outgoing edge n p = filter (edge p) [0..<n]"

lemma release_eq:
  assumes "distinct cs" and "set cs \<subseteq> {..<length deg}"
  shows "release cs deg ready =
    (map (\<lambda>c. if c \<in> set cs then deg ! c - 1 else deg ! c) [0..<length deg],
     ready @ filter (\<lambda>c. deg ! c = 1) cs)"
  using assms
proof (induction cs deg ready rule: release.induct)
  case (1 deg ready)
  then show ?case by (simp add: map_nth)
next
  case (2 c cs deg ready)
  let ?deg = "deg[c := deg ! c - 1]"
  from "2.prems" have c: "c < length deg" "c \<notin> set cs" by auto
  have "map (\<lambda>x. if x \<in> set cs then ?deg ! x - 1 else ?deg ! x) [0..<length ?deg] =
      map (\<lambda>x. if x \<in> set (c # cs) then deg ! x - 1 else deg ! x) [0..<length deg]"
    using c by (auto simp: nth_list_update)
  moreover have "filter (\<lambda>x. ?deg ! x = 1) cs = filter (\<lambda>x. deg ! x = 1) cs"
    using c by (intro filter_cong refl) (auto simp: nth_list_update)
  ultimately show ?case
    using "2.IH" [OF refl] "2.prems" c by (simp add: Let_def)
qed

lemma release_shrinks:
  assumes "distinct cs" and "set cs \<subseteq> {..<length deg}" and "release cs deg ready = (deg', ready')"
  shows "length (filter (\<lambda>d. 0 < d) deg') + length ready' \<le>
    length (filter (\<lambda>d. 0 < d) deg) + length ready"
  using assms
proof (induction cs arbitrary: deg ready)
  case (Cons c cs)
  let ?deg = "deg[c := deg ! c - 1]" and ?ready = "if deg ! c = 1 then ready @ [c] else ready"
  from Cons.prems have c: "c < length deg" by simp
  have "length (filter (\<lambda>d. 0 < d) ?deg) + length ?ready \<le>
      length (filter (\<lambda>d. 0 < d) deg) + length ready"
  proof -
    have deg: "deg = take c deg @ deg ! c # drop (Suc c) deg"
      using c by (simp add: id_take_nth_drop)
    have upd: "?deg = take c deg @ (deg ! c - 1) # drop (Suc c) deg"
      using c by (simp add: upd_conv_take_nth_drop)
    show ?thesis
      by (subst (2) deg, subst upd) auto
  qed
  moreover have "length (filter (\<lambda>d. 0 < d) deg') + length ready' \<le>
      length (filter (\<lambda>d. 0 < d) ?deg) + length ?ready"
    using Cons.IH [of ?deg ?ready] Cons.prems c by (simp add: Let_def)
  ultimately show ?case by simp
qed simp

text \<open>
  \<open>while ready:\<close> each round removes one ready index, and one is added only when its in-degree
  drops from 1 to 0.
\<close>

function kahn ::
  "(nat \<Rightarrow> nat \<Rightarrow> bool) \<Rightarrow> int list \<Rightarrow> nat list \<Rightarrow> nat list \<Rightarrow> nat list \<times> int list" where
  "kahn edge deg ready ordered =
     (if ready = [] then (ordered, deg)
      else let index = Min (set ready);
               (deg', ready') = release (outgoing edge (length deg) index) deg (remove1 index ready)
           in kahn edge deg' ready' (ordered @ [index]))"
  by pat_completeness auto
termination
proof (relation "measure (\<lambda>(edge, deg, ready, ordered).
    length (filter (\<lambda>d. 0 < d) deg) + length ready)", goal_cases)
  case (2 edge deg ready ordered index x deg' ready')
  have "index \<in> set ready" using 2(1,2) Min_in [of "set ready"] by simp
  then have "length (remove1 index ready) < length ready"
    by (metis One_nat_def diff_less length_pos_if_in_set length_remove1 zero_less_one)
  moreover have "length (filter (\<lambda>d. 0 < d) deg') + length ready' \<le>
      length (filter (\<lambda>d. 0 < d) deg) + length (remove1 index ready)"
    using 2(3,4) by (intro release_shrinks) (auto simp: outgoing_def)
  ultimately show ?case by simp
qed simp

declare kahn.simps [simp del]

definition indegree :: "(nat \<Rightarrow> nat \<Rightarrow> bool) \<Rightarrow> nat \<Rightarrow> nat \<Rightarrow> int" where
  "indegree edge n c = int (length (filter (\<lambda>p. edge p c) [0..<n]))"

definition kahn_order :: "(nat \<Rightarrow> nat \<Rightarrow> bool) \<Rightarrow> nat \<Rightarrow> nat list \<times> int list" where
  "kahn_order edge n =
     (let deg = map (indegree edge n) [0..<n]
      in kahn edge deg (filter (\<lambda>c. deg ! c = 0) [0..<n]) [])"

section \<open>Correctness of the algorithm\<close>

text \<open>
  \<open>greedy edge xs\<close>: every element of \<open>xs\<close> comes after all its producers, and it passes a smaller
  index only when that index still waits for a producer.
\<close>

definition greedy :: "(nat \<Rightarrow> nat \<Rightarrow> bool) \<Rightarrow> nat list \<Rightarrow> bool" where
  "greedy edge xs \<longleftrightarrow>
     (\<forall>i < length xs.
        (\<forall>p. edge p (xs ! i) \<longrightarrow> p \<in> set (take i xs)) \<and>
        (\<forall>j < xs ! i. j \<notin> set (take i xs) \<longrightarrow> (\<exists>p. edge p j \<and> p \<notin> set (take i xs))))"

definition pending :: "(nat \<Rightarrow> nat \<Rightarrow> bool) \<Rightarrow> nat list \<Rightarrow> nat \<Rightarrow> nat set" where
  "pending edge done c = {p. edge p c \<and> p \<notin> set done}"

definition kahn_inv ::
  "(nat \<Rightarrow> nat \<Rightarrow> bool) \<Rightarrow> nat \<Rightarrow> int list \<Rightarrow> nat list \<Rightarrow> nat list \<Rightarrow> bool" where
  "kahn_inv edge n deg ready ordered \<longleftrightarrow>
     length deg = n \<and> distinct (ordered @ ready) \<and> set ordered \<union> set ready \<subseteq> {..<n} \<and>
     (\<forall>c < n. deg ! c = int (card (pending edge ordered c))) \<and>
     (\<forall>c < n. deg ! c = 0 \<longleftrightarrow> c \<in> set ordered \<union> set ready) \<and>
     greedy edge ordered"

lemma greedy_Nil [simp]: "greedy edge []"
  by (simp add: greedy_def)

lemma greedy_snoc:
  "greedy edge (xs @ [x]) \<longleftrightarrow> greedy edge xs \<and> (\<forall>p. edge p x \<longrightarrow> p \<in> set xs) \<and>
     (\<forall>j < x. j \<notin> set xs \<longrightarrow> (\<exists>p. edge p j \<and> p \<notin> set xs))"
  by (auto simp: greedy_def nth_append less_Suc_eq all_conj_distrib)

locale dependency_graph =
  fixes edge :: "nat \<Rightarrow> nat \<Rightarrow> bool" and n :: nat
  assumes edge_range: "edge p c \<Longrightarrow> p < n \<and> c < n"
    and edge_irrefl: "\<not> edge p p"
begin

lemma finite_pending [simp]: "finite (pending edge done c)"
  by (rule finite_subset [of _ "{..<n}"]) (auto simp: pending_def dest: edge_range)

lemma pending_snoc:
  "pending edge (done @ [i]) c = (if edge i c then pending edge done c - {i} else pending edge done c)"
  by (auto simp: pending_def)

lemma kahn_step:
  assumes inv: "kahn_inv edge n deg ready ordered" and ne: "ready \<noteq> []"
    and i: "i = Min (set ready)"
    and rel: "release (outgoing edge (length deg) i) deg (remove1 i ready) = (deg', ready')"
  shows "kahn_inv edge n deg' ready' (ordered @ [i])"
proof -
  from inv have len: "length deg = n" and dist: "distinct (ordered @ ready)"
    and sub: "set ordered \<union> set ready \<subseteq> {..<n}"
    and deg: "\<And>c. c < n \<Longrightarrow> deg ! c = int (card (pending edge ordered c))"
    and zero: "\<And>c. c < n \<Longrightarrow> deg ! c = 0 \<longleftrightarrow> c \<in> set ordered \<union> set ready"
    and gr: "greedy edge ordered"
    by (auto simp: kahn_inv_def)
  have i_in: "i \<in> set ready" and i_le: "\<And>j. j \<in> set ready \<Longrightarrow> i \<le> j"
    using i ne by (auto intro: Min_in)
  then have i_n: "i < n" "i \<notin> set ordered" using sub dist by auto
  let ?cs = "outgoing edge n i"
  have cs: "distinct ?cs" "set ?cs = {c. edge i c}"
    using edge_range by (auto simp: outgoing_def)
  have deg': "deg' = map (\<lambda>c. if edge i c then deg ! c - 1 else deg ! c) [0..<n]"
    and ready': "ready' = remove1 i ready @ filter (\<lambda>c. deg ! c = 1) ?cs"
    using rel release_eq [OF cs(1), of deg "remove1 i ready"] edge_range
    by (auto simp: len cs(2) subset_eq)
  have pend_i: "i \<in> pending edge ordered c" if "edge i c" for c
    using that i_n by (simp add: pending_def)
  have deg1: "deg ! c \<ge> 1" if "edge i c" for c
  proof -
    have "card (pending edge ordered c) \<noteq> 0" using pend_i [OF that] by (auto simp: card_eq_0_iff)
    with deg [of c] edge_range [OF that] show ?thesis by linarith
  qed
  have not_ready: "c \<notin> set ordered \<union> set ready" if "edge i c" for c
    using zero [of c] deg1 [OF that] edge_range [OF that] by auto
  have deg'_eq: "deg' ! c = int (card (pending edge (ordered @ [i]) c))" if "c < n" for c
  proof (cases "edge i c")
    case True
    have "card (pending edge ordered c - {i}) = card (pending edge ordered c) - 1"
      using pend_i [OF True] by (simp add: card_Diff_singleton)
    then show ?thesis
      using True that deg [OF that] deg1 [OF True] by (simp add: deg' pending_snoc)
  qed (use that deg in \<open>simp add: deg' pending_snoc\<close>)
  have ready_set: "set ready' = set ready - {i} \<union> {c. edge i c \<and> deg ! c = 1}"
    using dist cs(2) by (auto simp: ready')
  have zero': "deg' ! c = 0 \<longleftrightarrow> c \<in> set (ordered @ [i]) \<union> set ready'" if "c < n" for c
  proof (cases "edge i c")
    case True
    then have "c \<noteq> i" using edge_irrefl by auto
    with True that not_ready [OF True] show ?thesis by (auto simp: deg' ready_set)
  next
    case False
    with that zero [OF that] i_in show ?thesis by (auto simp: deg' ready_set)
  qed
  have "distinct ((ordered @ [i]) @ ready')"
    using dist cs not_ready i_in i_n by (auto simp: ready' edge_irrefl)
  moreover have "set (ordered @ [i]) \<union> set ready' \<subseteq> {..<n}"
    using sub i_n edge_range by (auto simp: ready_set)
  moreover have "greedy edge (ordered @ [i])"
  proof -
    have "pending edge ordered i = {}"
      using deg [OF i_n(1)] zero [OF i_n(1)] i_in by simp
    moreover have "\<exists>p. edge p j \<and> p \<notin> set ordered" if "j < i" "j \<notin> set ordered" for j
    proof -
      have "j \<notin> set ready" using i_le that(1) by fastforce
      then have "pending edge ordered j \<noteq> {}"
        using zero [of j] deg [of j] that i_n by auto
      then show ?thesis by (auto simp: pending_def)
    qed
    ultimately show ?thesis using gr by (auto simp: greedy_snoc pending_def)
  qed
  ultimately show ?thesis
    using deg'_eq zero' by (simp add: kahn_inv_def deg')
qed

lemma kahn_result:
  "e = edge \<Longrightarrow> kahn_inv edge n deg ready ordered \<Longrightarrow> kahn e deg ready ordered = (ord, deg') \<Longrightarrow>
     kahn_inv edge n deg' [] ord"
proof (induction e deg ready ordered rule: kahn.induct)
  case (1 e deg ready ordered)
  show ?case
  proof (cases "ready = []")
    case True
    with 1 show ?thesis by (simp add: kahn.simps [of _ _ "[]"])
  next
    case False
    let ?i = "Min (set ready)"
    obtain deg1 ready1 where rel:
      "release (outgoing e (length deg) ?i) deg (remove1 ?i ready) = (deg1, ready1)"
      by fastforce
    have "kahn e deg1 ready1 (ordered @ [?i]) = (ord, deg')"
      using "1.prems"(3) False rel by (simp add: kahn.simps [of e deg ready] Let_def)
    moreover have "kahn_inv edge n deg1 ready1 (ordered @ [?i])"
      using kahn_step [OF "1.prems"(2) False refl] rel "1.prems"(1) by simp
    ultimately show ?thesis
      using "1.IH" [OF False refl rel [symmetric] refl] "1.prems"(1) by simp
  qed
qed

lemma kahn_inv_start:
  "kahn_inv edge n (map (indegree edge n) [0..<n])
     (filter (\<lambda>c. map (indegree edge n) [0..<n] ! c = 0) [0..<n]) []"
proof -
  have "indegree edge n c = int (card (pending edge [] c))" for c
  proof -
    have "pending edge [] c = set (filter (\<lambda>p. edge p c) [0..<n])"
      using edge_range by (auto simp: pending_def)
    then have "card (pending edge [] c) = length (filter (\<lambda>p. edge p c) [0..<n])"
      by (metis distinct_card distinct_filter distinct_upt)
    then show ?thesis by (simp add: indegree_def)
  qed
  then show ?thesis by (auto simp: kahn_inv_def)
qed

text \<open>
  The computed order: distinct indices, each after its producers, stable; and what is left out
  waits for a producer that is left out too.
\<close>

lemma kahn_order_spec:
  assumes "kahn_order edge n = (ord, deg)"
  shows "greedy edge ord" "distinct ord" "set ord \<subseteq> {..<n}"
    and "\<And>c. c < n \<Longrightarrow> c \<notin> set ord \<Longrightarrow> 0 < deg ! c"
    and "\<And>c. c \<in> set ord \<Longrightarrow> deg ! c = 0"
    and "\<And>c. c < n \<Longrightarrow> c \<notin> set ord \<Longrightarrow> \<exists>p < n. edge p c \<and> p \<notin> set ord"
    and "length deg = n"
proof -
  have inv: "kahn_inv edge n deg [] ord"
    using assms kahn_result [OF refl kahn_inv_start] by (simp add: kahn_order_def Let_def)
  then show "greedy edge ord" "distinct ord" "set ord \<subseteq> {..<n}" "length deg = n"
    "\<And>c. c \<in> set ord \<Longrightarrow> deg ! c = 0"
    by (auto simp: kahn_inv_def)
  fix c assume c: "c < n" "c \<notin> set ord"
  with inv have "card (pending edge ord c) \<noteq> 0" and deg: "deg ! c = int (card (pending edge ord c))"
    by (auto simp: kahn_inv_def)
  then show "0 < deg ! c" by linarith
  from \<open>card (pending edge ord c) \<noteq> 0\<close> have "pending edge ord c \<noteq> {}" by auto
  then show "\<exists>p < n. edge p c \<and> p \<notin> set ord"
    using edge_range by (auto simp: pending_def)
qed

text \<open>Every index is ordered exactly when the edges have a rank, that is, no cycle.\<close>

lemma kahn_order_ranked:
  assumes "kahn_order edge n = (ord, deg)" and rank: "\<And>p c. edge p c \<Longrightarrow> rank p < (rank c :: nat)"
  shows "set ord = {..<n}"
proof -
  have "c \<in> set ord" if "c < n" for c
    using that
  proof (induction "rank c" arbitrary: c rule: less_induct)
    case less
    then show ?case
      using kahn_order_spec(6) [OF assms(1), of c] rank by blast
  qed
  then show ?thesis using kahn_order_spec(3) [OF assms(1)] by auto
qed

lemma kahn_order_complete_rank:
  assumes "kahn_order edge n = (ord, deg)" and "set ord = {..<n}"
  shows "\<exists>rank :: nat \<Rightarrow> nat. \<forall>p c. edge p c \<longrightarrow> rank p < rank c"
proof (intro exI allI impI)
  fix p c assume e: "edge p c"
  then have "c \<in> set ord" using assms(2) edge_range by blast
  then obtain k where k: "k < length ord" "ord ! k = c" by (auto simp: in_set_conv_nth)
  with e kahn_order_spec(1) [OF assms(1)] have "p \<in> set (take k ord)"
    by (auto simp: greedy_def)
  then obtain j where j: "j < k" "ord ! j = p" by (auto simp: in_set_conv_nth)
  let ?rank = "\<lambda>x. LEAST m. m < length ord \<and> ord ! m = x"
  have uniq: "?rank (ord ! m) = m" if "m < length ord" for m
    using that kahn_order_spec(2) [OF assms(1)]
    by (intro Least_equality) (auto simp: nth_eq_iff_index_eq)
  from uniq [of j] uniq [of k] j k show "?rank p < ?rank c" by simp
qed

text \<open>An order that already respects the edges is kept.\<close>

lemma greedy_sorted:
  assumes "greedy edge xs" and "distinct xs" and "set xs \<subseteq> {..<n}"
    and fwd: "\<And>p c. edge p c \<Longrightarrow> p < c"
  shows "xs = [0..<length xs]"
  using assms(1-3)
proof (induction xs rule: rev_induct)
  case (snoc x xs)
  then have IH: "xs = [0..<length xs]" and g: "greedy edge (xs @ [x])" by (auto simp: greedy_snoc)
  have "\<not> length xs < x"
  proof
    assume "length xs < x"
    moreover have "length xs \<notin> set xs" by (subst IH) simp
    ultimately obtain p where "edge p (length xs)" "p \<notin> set xs"
      using g by (auto simp: greedy_snoc)
    then have "p < length xs" "p \<notin> set [0..<length xs]" using fwd IH by auto
    then show False by simp
  qed
  moreover have "x \<notin> {0..<length xs}" using snoc.prems(2) IH by (metis distinct_append
      disjoint_insert(1) list.set(2) set_upt)
  ultimately have "x = length xs" by simp
  with IH show ?case by simp
qed simp

lemma kahn_order_identity:
  assumes "kahn_order edge n = (ord, deg)" and "\<And>p c. edge p c \<Longrightarrow> p < c"
  shows "ord = [0..<n]"
proof -
  have set: "set ord = {..<n}"
    using kahn_order_ranked [OF assms(1), of id] assms(2) by simp
  then have "length ord = n"
    using kahn_order_spec(2) [OF assms(1)] by (metis card_lessThan distinct_card)
  then show ?thesis
    using greedy_sorted [OF kahn_order_spec(1-3) [OF assms(1)] assms(2)] by simp
qed

end

section \<open>Ordering the native commands\<close>

definition call_labels :: "scope_source \<Rightarrow> native_command \<Rightarrow> string list \<times> string list" where
  "call_labels src call = (case invocation_labels src call of Inl _ \<Rightarrow> ([], []) | Inr l \<Rightarrow> l)"

definition binding_failures :: "scope_source \<Rightarrow> native_command list \<Rightarrow> graph_failure list" where
  "binding_failures src calls =
     concat (map (\<lambda>call. case invocation_labels src call of
                          Inl e \<Rightarrow> [Scope_Not_Bound (nc_command call) e]
                        | Inr _ \<Rightarrow> []) calls)"

definition label_edge :: "(string list \<times> string list) list \<Rightarrow> nat \<Rightarrow> nat \<Rightarrow> bool" where
  "label_edge labels p c \<longleftrightarrow>
     p < length labels \<and> c < length labels \<and> p \<noteq> c \<and>
     list_ex (\<lambda>t. t \<in> set (fst (labels ! c))) (snd (labels ! p))"

definition stable_dependency_order ::
  "scope_source \<Rightarrow> native_command list \<Rightarrow> native_command list \<times> graph_failure list" where
  "stable_dependency_order src calls =
     (let count = length calls
      in if count < 2 then (calls, [])
         else let failures = binding_failures src calls
              in if failures \<noteq> [] then (calls, failures)
                 else let (ord, deg) = kahn_order (label_edge (map (call_labels src) calls)) count
                      in if length ord \<noteq> count then
                           (calls, [Dependency_Cycle (map (\<lambda>i. nc_command (calls ! i))
                                     (filter (\<lambda>i. 0 < deg ! i) [0..<count]))])
                         else (map (\<lambda>i. calls ! i) ord, []))"

interpretation native_order: dependency_graph "label_edge labels" "length labels" for labels
  by unfold_locales (auto simp: label_edge_def)

abbreviation native_edge :: "scope_source \<Rightarrow> native_command list \<Rightarrow> nat \<Rightarrow> nat \<Rightarrow> bool" where
  "native_edge src calls \<equiv> label_edge (map (call_labels src) calls)"

lemma native_kahn_cases:
  obtains (few) "length calls < 2" "stable_dependency_order src calls = (calls, [])"
  | (unbound) "2 \<le> length calls" "binding_failures src calls \<noteq> []"
      "stable_dependency_order src calls = (calls, binding_failures src calls)"
  | (cycle) ord deg where "kahn_order (native_edge src calls) (length calls) = (ord, deg)"
      "length ord \<noteq> length calls"
      "\<exists>cs. stable_dependency_order src calls = (calls, [Dependency_Cycle cs])"
  | (ordered) ord deg where "kahn_order (native_edge src calls) (length calls) = (ord, deg)"
      "length ord = length calls"
      "stable_dependency_order src calls = (map (\<lambda>i. calls ! i) ord, [])"
proof (cases "length calls < 2")
  case True
  then show ?thesis by (intro few) (simp_all add: stable_dependency_order_def)
next
  case two: False
  obtain ord deg where k: "kahn_order (native_edge src calls) (length calls) = (ord, deg)"
    by fastforce
  show ?thesis
  proof (cases "binding_failures src calls = []")
    case False
    with two show ?thesis by (intro unbound) (simp_all add: stable_dependency_order_def)
  next
    case True
    with two k show ?thesis
      by (cases "length ord = length calls")
         (auto intro: cycle [OF k] ordered [OF k] simp: stable_dependency_order_def)
  qed
qed

lemma native_order_full:
  assumes "kahn_order (native_edge src calls) (length calls) = (ord, deg)"
  shows "length ord = length calls \<longleftrightarrow> set ord = {..<length calls}"
  using native_order.kahn_order_spec(2,3) [of "map (call_labels src) calls" ord deg] assms
  by (metis card_lessThan card_subset_eq distinct_card finite_lessThan length_map)

section \<open>The labels of the shipped registry have no cycle\<close>

text \<open>
  A label's stage: a surface transform or a base mesh, then ready features, then a snapped mesh.
  A command runs at a stage above every label it waits for and at the stage of the labels it
  gives.
\<close>

definition label_stage :: "string \<Rightarrow> nat" where
  "label_stage t =
     (if t = ''features:global:ready'' then 1
      else if t = ''surface:global:transformed'' then 0
      else if last t = CHR ''e'' then 0 else 2)"

definition command_stage :: "string \<Rightarrow> nat" where
  "command_stage cmd =
     (if cmd = ''surfaceTransformPoints'' \<or> cmd = ''blockMesh'' then 0
      else if cmd = ''surfaceFeatures'' \<or> cmd = ''surfaceFeatureExtract'' then 1
      else if cmd = ''snappyHexMesh'' then 2 else 3)"

definition known_labels :: "string list" where
  "known_labels = [''mesh:{scope_key}:base'', ''mesh:{scope_key}:snapped'',
     ''features:global:ready'', ''surface:global:transformed'']"

definition stage_ok :: "native_contract \<Rightarrow> bool" where
  "stage_ok c \<longleftrightarrow>
     list_all (\<lambda>t. t \<in> set known_labels \<and> label_stage t < command_stage (ct_command c))
       (ct_ordering_inputs c) \<and>
     list_all (\<lambda>t. t \<in> set known_labels \<and> label_stage t = command_stage (ct_command c))
       (ct_ordering_outputs c)"

lemma registry_stage_ok:
  "list_all (\<lambda>it. stage_ok (contract_of_item it)) native_tool_contracts_json"
  by code_simp

lemma registry_stages:
  "(\<forall>t \<in> set (ct_ordering_inputs (native_tool_contract cmd)).
      t \<in> set known_labels \<and> label_stage t < command_stage cmd) \<and>
   (\<forall>t \<in> set (ct_ordering_outputs (native_tool_contract cmd)).
      t \<in> set known_labels \<and> label_stage t = command_stage cmd)"
proof -
  have "stage_ok (native_tool_contract cmd)"
    using registry_stage_ok
    by (intro contract_induct [where P = stage_ok]) (auto simp: list_all_iff stage_ok_def)
  moreover have "ct_command (native_tool_contract cmd) = cmd"
    by (rule native_tool_contract_cases [of cmd]) simp_all
  ultimately show ?thesis by (simp add: stage_ok_def list_all_iff)
qed

lemma replace_key_label:
  "str_replace ''{scope_key}'' k ''mesh:{scope_key}:base'' = ''mesh:'' @ k @ '':base''"
  "str_replace ''{scope_key}'' k ''mesh:{scope_key}:snapped'' = ''mesh:'' @ k @ '':snapped''"
  "str_replace ''{scope_key}'' k ''features:global:ready'' = ''features:global:ready''"
  "str_replace ''{scope_key}'' k ''surface:global:transformed'' = ''surface:global:transformed''"
  by simp_all

lemma render_label_eq:
  assumes "\<forall>n. scope_name s = Some n \<longrightarrow> region_name n"
  shows "render_label (Some s) ''mesh:{scope_key}:base'' = ''mesh:'' @ scope_key s @ '':base''"
    "render_label (Some s) ''mesh:{scope_key}:snapped'' = ''mesh:'' @ scope_key s @ '':snapped''"
    "render_label (Some s) ''features:global:ready'' = ''features:global:ready''"
    "render_label (Some s) ''surface:global:transformed'' = ''surface:global:transformed''"
proof -
  have no: "CHR ''{'' \<notin> set (scope_key s)"
    using assms region_name_no_brace by (cases "scope_name s") auto
  have "str_replace ''{scope_name}'' n (''mesh:'' @ scope_key s @ '':base'') =
      ''mesh:'' @ scope_key s @ '':base''"
    "str_replace ''{scope_name}'' n (''mesh:'' @ scope_key s @ '':snapped'') =
      ''mesh:'' @ scope_key s @ '':snapped''"
    "str_replace ''{scope_name}'' n ''features:global:ready'' = ''features:global:ready''"
    "str_replace ''{scope_name}'' n ''surface:global:transformed'' = ''surface:global:transformed''"
    for n
    by (rule str_replace_absent; use no in simp)+
  note absent = this
  show "render_label (Some s) ''mesh:{scope_key}:base'' = ''mesh:'' @ scope_key s @ '':base''"
    "render_label (Some s) ''mesh:{scope_key}:snapped'' = ''mesh:'' @ scope_key s @ '':snapped''"
    "render_label (Some s) ''features:global:ready'' = ''features:global:ready''"
    "render_label (Some s) ''surface:global:transformed'' = ''surface:global:transformed''"
    by (simp_all only: render_label_def option.case replace_key_label absent)
qed

lemma label_stage_mesh:
  "label_stage (''mesh:'' @ k @ '':base'') = 0" "label_stage (''mesh:'' @ k @ '':snapped'') = 2"
  by (simp_all add: label_stage_def)

lemma label_stage_known:
  "label_stage ''mesh:{scope_key}:base'' = 0" "label_stage ''mesh:{scope_key}:snapped'' = 2"
  by (simp_all add: label_stage_def)

lemma known_label_cases:
  "t \<in> set known_labels \<Longrightarrow>
     t = ''mesh:{scope_key}:base'' \<or> t = ''mesh:{scope_key}:snapped'' \<or>
     t = ''features:global:ready'' \<or> t = ''surface:global:transformed''"
  by (simp only: known_labels_def list.set insert_iff empty_iff simp_thms)

lemma render_label_stage:
  assumes "t \<in> set known_labels" and "\<forall>s n. sc = Some s \<longrightarrow> scope_name s = Some n \<longrightarrow> region_name n"
  shows "label_stage (render_label sc t) = label_stage t"
proof (cases sc)
  case (Some s)
  then have "\<forall>n. scope_name s = Some n \<longrightarrow> region_name n" using assms(2) by blast
  note eq = render_label_eq [OF this]
  from known_label_cases [OF assms(1)] show ?thesis
  proof (elim disjE)
    assume t: "t = ''mesh:{scope_key}:base''"
    show ?thesis unfolding Some t eq(1) label_stage_mesh(1) label_stage_known(1) ..
  next
    assume t: "t = ''mesh:{scope_key}:snapped''"
    show ?thesis unfolding Some t eq(2) label_stage_mesh(2) label_stage_known(2) ..
  next
    assume t: "t = ''features:global:ready''"
    show ?thesis unfolding Some t eq(3) ..
  next
    assume t: "t = ''surface:global:transformed''"
    show ?thesis unfolding Some t eq(4) ..
  qed
qed (simp add: render_label_def)

lemma bound_scope_name:
  assumes "scope_for_native_arguments src args = Inr sc" and "scope_name sc = Some n"
  shows "region_name n"
proof -
  obtain region where r: "native_command_region args = Inr region"
      "only_scope region (execution_scopes src) = Some sc"
    using assms(1) by (auto simp: scope_for_native_arguments_def split: option.splits)
  with assms(2) have "region = Some n" by (auto dest: only_scope_Some)
  with r(1) show ?thesis by (auto dest: native_command_region_Some(2))
qed

lemma rendered_tokens:
  assumes "render_ordering_tokens src call ts = Inr toks"
  shows "\<exists>sc. toks = map (render_label sc) ts \<and>
    (\<forall>s n. sc = Some s \<longrightarrow> scope_name s = Some n \<longrightarrow> region_name n)"
proof (cases "ts = []")
  case True
  then show ?thesis using assms by (auto simp: render_ordering_tokens_def)
next
  case False
  then show ?thesis
    using assms bound_scope_name
    by (cases "needs_scope ts") (fastforce simp: render_ordering_tokens_def)+
qed

lemma rendered_tokens_stage:
  assumes "render_ordering_tokens src call ts = Inr toks" and "set ts \<subseteq> set known_labels"
    and "u \<in> set toks"
  shows "\<exists>t \<in> set ts. label_stage u = label_stage t"
proof -
  obtain sc where sc: "toks = map (render_label sc) ts"
      "\<forall>s n. sc = Some s \<longrightarrow> scope_name s = Some n \<longrightarrow> region_name n"
    using rendered_tokens [OF assms(1)] by blast
  with assms(3) obtain t where "t \<in> set ts" "u = render_label sc t" by auto
  with sc(2) assms(2) show ?thesis using render_label_stage [of t sc] by blast
qed

lemma call_labels_stage:
  "u \<in> set (fst (call_labels src call)) \<Longrightarrow> label_stage u < command_stage (nc_command call)"
  "u \<in> set (snd (call_labels src call)) \<Longrightarrow> label_stage u = command_stage (nc_command call)"
proof -
  let ?c = "native_tool_contract (nc_command call)"
  have known: "set (ct_ordering_inputs ?c) \<subseteq> set known_labels"
      "set (ct_ordering_outputs ?c) \<subseteq> set known_labels"
    using registry_stages [of "nc_command call"] by auto
  have labels: "u \<in> set (fst (call_labels src call)) \<Longrightarrow>
        \<exists>toks. render_ordering_tokens src call (ct_ordering_inputs ?c) = Inr toks \<and> u \<in> set toks"
      "u \<in> set (snd (call_labels src call)) \<Longrightarrow>
        \<exists>toks. render_ordering_tokens src call (ct_ordering_outputs ?c) = Inr toks \<and> u \<in> set toks"
    by (auto simp: call_labels_def invocation_labels_def Let_def split: sum.splits)
  show "u \<in> set (fst (call_labels src call)) \<Longrightarrow> label_stage u < command_stage (nc_command call)"
    using labels(1) rendered_tokens_stage [OF _ known(1)] registry_stages by metis
  show "u \<in> set (snd (call_labels src call)) \<Longrightarrow> label_stage u = command_stage (nc_command call)"
    using labels(2) rendered_tokens_stage [OF _ known(2)] registry_stages by metis
qed

lemma native_edge_stage:
  assumes "native_edge src calls p c"
  shows "command_stage (nc_command (calls ! p)) < command_stage (nc_command (calls ! c))"
proof -
  from assms obtain u where pc: "p < length calls" "c < length calls"
      and u: "u \<in> set (snd (call_labels src (calls ! p)))" "u \<in> set (fst (call_labels src (calls ! c)))"
    by (auto simp: label_edge_def list_ex_iff)
  then show ?thesis
    using call_labels_stage(1) [OF u(2)] call_labels_stage(2) [OF u(1)] by simp
qed

section \<open>Properties\<close>

lemma native_kahn_complete:
  assumes "kahn_order (native_edge src calls) (length calls) = (ord, deg)"
  shows "length ord = length calls"
proof -
  have "set ord = {..<length calls}"
    using native_order.kahn_order_ranked
        [of "map (call_labels src) calls" ord deg "\<lambda>i. command_stage (nc_command (calls ! i))"]
      assms native_edge_stage [of src calls] by simp
  with native_order_full [OF assms] show ?thesis by simp
qed

lemma no_edge_below_two: "length calls < 2 \<Longrightarrow> \<not> native_edge src calls p c"
  by (auto simp: label_edge_def)

lemma stable_order_witnessed:
  assumes "snd (stable_dependency_order src calls) = []"
  obtains ord where "distinct ord" "set ord = {..<length calls}" "greedy (native_edge src calls) ord"
    "fst (stable_dependency_order src calls) = map (\<lambda>i. calls ! i) ord"
proof (cases rule: native_kahn_cases [of calls src])
  case few
  have "greedy (native_edge src calls) [0..<length calls]"
    using no_edge_below_two [OF few(1)] few(1)
    by (cases "length calls = 0") (auto simp: greedy_def less_Suc_eq numeral_2_eq_2)
  with few show ?thesis
    by (intro that [of "[0..<length calls]"]) (auto simp: map_nth)
next
  case (ordered ord deg)
  then show ?thesis
    using native_order.kahn_order_spec(1,2) [of "map (call_labels src) calls" ord deg]
      native_order_full [OF ordered(1)]
    by (intro that [of ord]) auto
qed (use assms in auto)

text \<open>
  C2: when ordering reports no failure, the ordered pipeline is the
  proposed one permuted: every command comes after all the commands whose labels it waits for,
  and a command overtakes an earlier proposed one only while that one still waits for a producer
  that has not run. Independent commands keep the proposed order.
\<close>

theorem stable_dependency_order_spec:
  assumes "snd (stable_dependency_order src calls) = []"
  shows "\<exists>ord. distinct ord \<and> set ord = {..<length calls} \<and>
    fst (stable_dependency_order src calls) = map (\<lambda>i. calls ! i) ord \<and>
    (\<forall>i < length ord.
      (\<forall>p. native_edge src calls p (ord ! i) \<longrightarrow> p \<in> set (take i ord)) \<and>
      (\<forall>j < ord ! i. j \<notin> set (take i ord) \<longrightarrow>
        (\<exists>p. native_edge src calls p j \<and> p \<notin> set (take i ord))))"
  using stable_order_witnessed [OF assms] unfolding greedy_def by metis

text \<open>
  C18: with the shipped registry the dependency graph of native commands
  never has a cycle: ordering fails exactly for the commands whose labels cannot be bound to one
  declared scope, and only for pipelines of at least two commands.
\<close>

theorem ordering_failures_spec:
  "snd (stable_dependency_order src calls) =
     (if length calls < 2 then [] else binding_failures src calls)"
proof (cases rule: native_kahn_cases [of calls src])
  case (cycle ord deg)
  with native_kahn_complete [OF cycle(1)] show ?thesis by simp
next
  case (ordered ord deg)
  then show ?thesis
    by (auto simp: stable_dependency_order_def Let_def split: if_splits)
qed auto

text \<open>
  A pipeline whose producers already come before their consumers is
  left as it was proposed.
\<close>

theorem ordered_pipeline_kept:
  assumes "\<forall>p c. native_edge src calls p c \<longrightarrow> p < c"
  shows "fst (stable_dependency_order src calls) = calls"
proof (cases rule: native_kahn_cases [of calls src])
  case (ordered ord deg)
  then have "ord = [0..<length calls]"
    using native_order.kahn_order_identity [of "map (call_labels src) calls" ord deg] assms by simp
  with ordered(3) show ?thesis by (simp add: map_nth)
qed auto

definition root_plan :: "string list \<Rightarrow> engineering_plan" where
  "root_plan required =
     \<lparr>plan_solver = ''incompressibleFluid'', plan_solver_provider_id = ''foundation-13'',
      plan_execution = None, plan_region_layouts = [], plan_required_case_files = required\<rparr>"

definition snappy_first :: "native_command list" where
  "snappy_first =
     [mk_command ''snappyHexMesh'' [''-overwrite''] Role_Mesh, mk_command ''topoSet'' [] Role_Mesh,
      mk_command ''surfaceFeatures'' [] Role_Mesh, mk_command ''blockMesh'' [] Role_Mesh]"

lemma snappy_first_ordered:
  "stable_dependency_order (Of_Plan (root_plan [])) snappy_first =
     ([mk_command ''surfaceFeatures'' [] Role_Mesh, mk_command ''blockMesh'' [] Role_Mesh,
       mk_command ''snappyHexMesh'' [''-overwrite''] Role_Mesh,
       mk_command ''topoSet'' [] Role_Mesh], [])"
  by code_simp

theorem stable_dependency_order_spec_witness:
  "\<exists>ord. distinct ord \<and> set ord = {..<4} \<and>
     [mk_command ''surfaceFeatures'' [] Role_Mesh, mk_command ''blockMesh'' [] Role_Mesh,
       mk_command ''snappyHexMesh'' [''-overwrite''] Role_Mesh,
       mk_command ''topoSet'' [] Role_Mesh] = map (\<lambda>i. snappy_first ! i) ord"
proof -
  have ok: "snd (stable_dependency_order (Of_Plan (root_plan [])) snappy_first) = []"
    by (simp add: snappy_first_ordered)
  have "length snappy_first = 4" by (simp add: snappy_first_def)
  with stable_dependency_order_spec [OF ok] show ?thesis
    unfolding snappy_first_ordered fst_conv by metis
qed

definition base_then_snapped :: "native_command list" where
  "base_then_snapped =
     [mk_command ''blockMesh'' [] Role_Mesh, mk_command ''topoSet'' [] Role_Mesh]"

theorem ordered_pipeline_kept_witness:
  "fst (stable_dependency_order (Of_Plan (root_plan [])) base_then_snapped) = base_then_snapped"
proof -
  have "\<not> native_edge (Of_Plan (root_plan [])) base_then_snapped 1 0" by code_simp
  moreover have "length base_then_snapped = 2" by (simp add: base_then_snapped_def)
  ultimately have "\<forall>p c. native_edge (Of_Plan (root_plan [])) base_then_snapped p c \<longrightarrow> p < c"
    by (auto simp: label_edge_def less_2_cases_iff)
  then show ?thesis by (rule ordered_pipeline_kept)
qed

end
