(* ===== verification/Dictionary_Policy.thy ===== *)
theory Dictionary_Policy
  imports Py_Text
begin

text \<open>
  Token-aware safety checks of OpenFOAM dictionaries, \<open>tokens\<close> and \<open>library_entries\<close> of
  \<^verbatim>\<open>tools/dictionary_policy.py\<close>.  The token pattern is the ordered alternation of the source's
  regular expression, matched by hand at each position; a position no alternative matches (white
  space) is skipped, as \<open>finditer\<close> does.
\<close>

section \<open>Tokens\<close>

definition structural_chars :: string where
  "structural_chars = ''{}();/''"

text \<open>
  The rest of a quoted string after its opening quote: \<open>(?:\\.|[^q\\])*q\<close>, where the dot does not
  match a line feed.  The result is the number of characters up to and including the closing
  quote.
\<close>

fun quoted_length :: "char \<Rightarrow> string \<Rightarrow> nat option" where
  "quoted_length q [] = None"
| "quoted_length q (c # cs) =
     (if c = q then Some 1
      else if c = CHR 0x5C then
        (case cs of
           [] \<Rightarrow> None
         | d # ds \<Rightarrow> if d = CHR 0x0A then None else map_option (\<lambda>k. k + 2) (quoted_length q ds))
      else map_option Suc (quoted_length q cs))"

text \<open>The rest of a block comment after its opening: the shortest text that ends in \<open>*/\<close>.\<close>

fun block_comment_length :: "string \<Rightarrow> nat option" where
  "block_comment_length (c # d # cs) =
     (if c = CHR ''*'' \<and> d = CHR ''/'' then Some 2
      else map_option Suc (block_comment_length (d # cs)))"
| "block_comment_length _ = None"

definition plain_char :: "char \<Rightarrow> bool" where
  "plain_char c \<longleftrightarrow> \<not> is_space c \<and> c \<notin> set structural_chars"

text \<open>The length of the token at the start of a text; 0 when no alternative matches there.\<close>

definition token_length :: "string \<Rightarrow> nat" where
  "token_length s =
     (case s of
        [] \<Rightarrow> 0
      | c # cs \<Rightarrow>
          if starts_with s ''//'' then length (takeWhile (\<lambda>x. x \<noteq> CHR 0x0A) s)
          else if starts_with s ''/*'' \<and> block_comment_length (tl cs) \<noteq> None
          then 2 + the (block_comment_length (tl cs))
          else if c = CHR 0x22 \<and> quoted_length c cs \<noteq> None then 1 + the (quoted_length c cs)
          else if c = CHR 0x27 \<and> quoted_length c cs \<noteq> None then 1 + the (quoted_length c cs)
          else if plain_char c then length (takeWhile plain_char s)
          else if c \<in> set structural_chars then 1
          else 0)"

function raw_tokens :: "string \<Rightarrow> string list" where
  "raw_tokens s =
     (if s = [] then []
      else if token_length s = 0 then raw_tokens (tl s)
      else take (token_length s) s # raw_tokens (drop (token_length s) s))"
  by pat_completeness auto
termination
  by (relation "measure length") (auto simp: length_greater_0_conv)

declare raw_tokens.simps [simp del]

definition is_comment :: "string \<Rightarrow> bool" where
  "is_comment t \<longleftrightarrow> starts_with t ''//'' \<or> starts_with t ''/*''"

definition tokens :: "string \<Rightarrow> string list" where
  "tokens text = filter (\<lambda>t. \<not> is_comment t) (raw_tokens text)"

section \<open>Dynamic library entries\<close>

datatype policy_error =
  Libs_Not_A_List | Forbidden_Library string | Malformed_Libs

definition strip_quotes :: "string \<Rightarrow> string" where
  "strip_quotes s =
     rev (dropWhile (\<lambda>c. c = CHR 0x22 \<or> c = CHR 0x27)
       (rev (dropWhile (\<lambda>c. c = CHR 0x22 \<or> c = CHR 0x27) s)))"

text \<open>\<open>lib[A-Za-z][A-Za-z0-9_]*\.so\<close>\<close>

definition library_name :: "string \<Rightarrow> bool" where
  "library_name s \<longleftrightarrow>
     starts_with s ''lib'' \<and> ends_with s ''.so'' \<and>
     (let stem = take (length s - 6) (drop 3 s)
      in 6 \<le> length s \<and> stem \<noteq> [] \<and> is_alpha (hd stem) \<and>
         list_all (\<lambda>c. is_alpha c \<or> is_digit c \<or> c = CHR ''_'') stem)"

text \<open>The names up to the closing parenthesis, and the tokens from it on.\<close>

fun library_names :: "string list \<Rightarrow> policy_error + (string list \<times> string list)" where
  "library_names [] = Inr ([], [])"
| "library_names (t # ts) =
     (if t = '')'' then Inr ([], t # ts)
      else let name = strip_quotes t
           in if \<not> library_name name then Inl (Forbidden_Library name)
              else bind_result (library_names ts) (\<lambda>(names, rest). Inr (name # names, rest)))"

definition libs_entry :: "string list \<Rightarrow> policy_error + (string list \<times> string list)" where
  "libs_entry ts =
     (case ts of
        [] \<Rightarrow> Inl Libs_Not_A_List
      | t # ts' \<Rightarrow>
          if t \<noteq> ''('' then Inl Libs_Not_A_List
          else bind_result (library_names ts') (\<lambda>(names, rest).
            case rest of
              close # semi # rest' \<Rightarrow>
                if close = '')'' \<and> semi = '';'' then Inr (names, rest') else Inl Malformed_Libs
            | _ \<Rightarrow> Inl Malformed_Libs))"

lemma library_names_rest:
  "library_names ts = Inr (names, rest) \<Longrightarrow> length rest \<le> length ts"
proof (induction ts arbitrary: names rest)
  case (Cons t ts)
  then show ?case
    by (cases "library_names ts") (auto simp: Let_def split: if_splits)
qed simp

lemma libs_entry_rest:
  "libs_entry ts = Inr (names, rest) \<Longrightarrow> length rest < length ts"
  by (cases "library_names (tl ts)")
    (auto simp: libs_entry_def split: list.splits if_splits dest!: library_names_rest)

text \<open>
  The scan of \<open>library_entries\<close>: \<open>expect_key\<close> holds at the start of an entry, \<open>parens\<close> is the depth of
  open parentheses.
\<close>

function library_scan :: "bool \<Rightarrow> nat \<Rightarrow> string list \<Rightarrow> policy_error + string list" where
  "library_scan expect_key parens [] = Inr []"
| "library_scan expect_key parens (t # ts) =
     (if t \<in> {''{'', ''}'', '';''} \<and> parens = 0 then library_scan True parens ts
      else if t = ''('' then library_scan expect_key (parens + 1) ts
      else if t = '')'' then library_scan expect_key (parens - 1) ts
      else if expect_key \<and> parens = 0 then
        (if strip_quotes t = ''libs'' then
           (case libs_entry ts of
              Inl e \<Rightarrow> Inl e
            | Inr (names, rest) \<Rightarrow>
                bind_result (library_scan True parens rest) (\<lambda>more. Inr (names @ more)))
         else library_scan False parens ts)
      else library_scan expect_key parens ts)"
  by pat_completeness auto
termination
  by (relation "measure (\<lambda>(e, p, ts). length ts)") (auto dest: libs_entry_rest)

definition library_entries :: "string \<Rightarrow> policy_error + string list" where
  "library_entries text = library_scan True 0 (tokens text)"

section \<open>Lemmas\<close>

lemma library_names_safe:
  "library_names ts = Inr (names, rest) \<Longrightarrow> list_all library_name names"
proof (induction ts arbitrary: names rest)
  case (Cons t ts)
  then show ?case
    by (cases "library_names ts") (auto simp: Let_def split: if_splits)
qed simp

lemma libs_entry_safe:
  "libs_entry ts = Inr (names, rest) \<Longrightarrow> list_all library_name names"
  by (cases "library_names (tl ts)")
    (auto simp: libs_entry_def split: list.splits if_splits dest: library_names_safe)

lemma library_scan_safe:
  "library_scan e p ts = Inr names \<Longrightarrow> list_all library_name names"
proof (induction e p ts arbitrary: names rule: library_scan.induct)
  case (1 e p)
  then show ?case by simp
next
  case (2 e p t ts)
  from "2.prems" have scan:
    "(if t \<in> {''{'', ''}'', '';''} \<and> p = 0 then library_scan True p ts
      else if t = ''('' then library_scan e (p + 1) ts
      else if t = '')'' then library_scan e (p - 1) ts
      else if e \<and> p = 0 then
        (if strip_quotes t = ''libs'' then
           (case libs_entry ts of
              Inl e \<Rightarrow> Inl e
            | Inr (names, rest) \<Rightarrow>
                bind_result (library_scan True p rest) (\<lambda>more. Inr (names @ more)))
         else library_scan False p ts)
      else library_scan e p ts) = Inr names"
    by (simp only: library_scan.simps)
  then show ?case
    using 2 libs_entry_safe [of ts]
    by (auto simp del: library_scan.simps split: if_splits sum.splits)
qed

text \<open>Tokens are non-empty pieces of the text, in order.\<close>

lemma raw_tokens_pieces:
  "t \<in> set (raw_tokens s) \<Longrightarrow> t \<noteq> [] \<and> sublist t s"
proof (induction s rule: raw_tokens.induct)
  case (1 s)
  have tl: "sublist x (tl s) \<Longrightarrow> sublist x s" for x :: string
    by (cases s) (auto simp: sublist_Cons_right)
  have dr: "sublist x (drop n s) \<Longrightarrow> sublist x s" for x :: string and n
    by (rule sublist_order.order.trans [OF _ sublist_drop])
  have "raw_tokens s = (if s = [] then []
      else if token_length s = 0 then raw_tokens (tl s)
      else take (token_length s) s # raw_tokens (drop (token_length s) s))"
    by (rule raw_tokens.simps)
  with 1 show ?case
    by (auto split: if_splits intro: tl dr)
qed

lemma library_name_shape:
  assumes "library_name s"
  shows "\<exists>stem. s = ''lib'' @ stem @ ''.so'' \<and> stem \<noteq> [] \<and> is_alpha (hd stem) \<and>
    list_all (\<lambda>c. is_alpha c \<or> is_digit c \<or> c = CHR ''_'') stem"
proof -
  obtain a where a: "s = ''lib'' @ a"
    using assms unfolding library_name_def starts_with_def prefix_def by blast
  obtain b where b: "s = b @ ''.so''"
    using assms unfolding library_name_def ends_with_def suffix_def by blast
  have "6 \<le> length s" using assms by (simp add: library_name_def Let_def)
  then have "3 \<le> length a" using a by simp
  moreover have "drop (length a - 3) a = ''.so''"
  proof -
    obtain k where k: "length a = Suc (Suc (Suc k))"
      using \<open>3 \<le> length a\<close> by (metis le_Suc_ex add_Suc add_0 numeral_3_eq_3)
    have "drop (length s - 3) s = ''.so''" using b by simp
    then have "drop (Suc (Suc (Suc k))) (''lib'' @ a) = ''.so''" using a k by simp
    then show ?thesis using k by simp
  qed
  ultimately have "s = ''lib'' @ take (length a - 3) a @ ''.so''"
    using a by (metis append_take_drop_id)
  moreover have "take (length s - 6) (drop 3 s) = take (length a - 3) a"
    using a by (simp add: numeral_3_eq_3)
  ultimately show ?thesis
    using assms unfolding library_name_def Let_def
    by (intro exI [of _ "take (length a - 3) a"]) (simp del: hd_take take_eq_Nil)
qed

lemma library_name_no_path:
  assumes "library_name s"
  shows "CHR ''/'' \<notin> set s"
proof
  assume c: "CHR ''/'' \<in> set s"
  obtain stem where "s = ''lib'' @ stem @ ''.so''"
    and stem: "list_all (\<lambda>c. is_alpha c \<or> is_digit c \<or> c = CHR ''_'') stem"
    using library_name_shape [OF assms] by blast
  with c have "CHR ''/'' \<in> set stem" by simp
  with stem have "is_alpha (CHR ''/'') \<or> is_digit (CHR ''/'')"
    by (simp add: list_all_iff) blast
  then show False by (simp add: is_alpha_def is_digit_def)
qed

text \<open>
  Whatever text a dictionary holds, \<open>library_entries\<close> either rejects it or
  returns only bare names \<open>lib<stem>.so\<close> whose stem consists of ASCII letters, digits and
  underscores and starts with a letter: no entry has a path separator, so none loads a library
  from a chosen directory.
\<close>

lemma library_entries_safe:
  "case library_entries text of
     Inl _ \<Rightarrow> True
   | Inr names \<Rightarrow> list_all (\<lambda>n. CHR ''/'' \<notin> set n \<and> (\<exists>stem. n = ''lib'' @ stem @ ''.so'' \<and>
       stem \<noteq> [] \<and> is_alpha (hd stem) \<and>
       list_all (\<lambda>c. is_alpha c \<or> is_digit c \<or> c = CHR ''_'') stem)) names"
proof (cases "library_scan True 0 (tokens text)")
  case (Inr names)
  then have "\<forall>n \<in> set names. library_name n"
    using library_scan_safe by (fastforce simp: list_all_iff)
  then show ?thesis
    unfolding library_entries_def Inr sum.case list_all_iff
    using library_name_no_path library_name_shape unfolding list_all_iff by blast
qed (simp add: library_entries_def)

end
