(* ===== verification/Workspace.thy ===== *)
theory Workspace
  imports Dictionary_Policy "HOL-Library.AList"
begin

text \<open>
  The sandboxed case workspace, \<open>CaseWorkspace\<close> of \<^verbatim>\<open>tools/workspace.py\<close>.

  The case directory is an explicit store: files are an association list from the components of a
  path (relative to \<open>case/\<close>) to their bytes, directories and symbolic links are lists of component
  lists.  Where a link leads is not part of the store; what is written through one is kept in a list.  A text is encoded as UTF-8; the texts of the model are those over code points below 256,
  and a file whose bytes are not the encoding of such a text does not decode.

  An operation that changes the store maps a workspace to its result and the workspace it leaves,
  also when it raises.  SHA-256 is an argument \<open>sha\<close> of the operations that use it.
\<close>

section \<open>State\<close>

record workspace =
  ws_files :: "(string list \<times> string) list"
  ws_dirs :: "string list list"
  ws_links :: "string list list"
  ws_link_writes :: "(string list \<times> string) list"
  ws_authored :: "string list"
  ws_assets :: "string list"
  ws_max_file_bytes :: int
  ws_max_total_bytes :: int
  ws_max_execution_bytes :: int
  ws_max_execution_files :: int
  ws_allowed_libraries :: "string list"

datatype workspace_error =
    Backslash_In_Path
  | Unsafe_Case_Path string
  | Symlink_Component string
  | No_Such_Case_File string
  | Nul_In_Content
  | File_Too_Large string
  | Immutable_Asset
  | Unsafe_Directives string "string list"
  | Bad_Libraries string policy_error
  | Libraries_Not_Allowed string "string list"
  | Total_Size_Exceeded
  | Total_Size_Would_Exceed
  | Preflight_Failed "workspace_error list"
  | Asset_Not_Deletable
  | Not_Agent_Authored string
  | Empty_Patch_Fragment
  | Patch_Target_Truncated string
  | Patch_Match_Count string nat
  | Not_Utf8 string
  | Os_Error
  | Linked_Execution_Input "string list"
  | Too_Many_Inputs nat
  | Execution_Inputs_Too_Large
  | Empty_Workspace
  | Invalid_Content "workspace_error list"
  | Plan_Changed
  | Input_Set_Changed
  | Input_Changed string
  | Input_Origin_Changed string
  | Manifest_Changed
  | Seal_Path_Too_Long string
  | Not_Postprocess_Config
  | Unsafe_Result_Path string
  | Outside_Result_Roots string
  | No_Such_Result_File string

type_synonym 'a ws_result = "workspace_error + 'a"

text \<open>\<open>__init__\<close>: a new workspace over an empty case directory, with the default limits.\<close>

definition new_workspace :: workspace where
  "new_workspace =
     \<lparr>ws_files = [], ws_dirs = [], ws_links = [], ws_link_writes = [], ws_authored = [], ws_assets = [],
      ws_max_file_bytes = 1000000, ws_max_total_bytes = 8000000,
      ws_max_execution_bytes = 2000000000, ws_max_execution_files = 50000,
      ws_allowed_libraries =
        [''libfvMotionSolvers.so'', ''librigidBodyMeshMotion.so'', ''libforces.so'',
         ''libfieldFunctionObjects.so'']\<rparr>"

section \<open>Text encoding\<close>

definition utf8_char :: "char \<Rightarrow> string" where
  "utf8_char c =
     (let n = (of_char c :: nat)
      in if n < 128 then [c] else [char_of (192 + n div 64), char_of (128 + n mod 64)])"

definition utf8_encode :: "string \<Rightarrow> string" where
  "utf8_encode s = concat (map utf8_char s)"

fun utf8_decode :: "string \<Rightarrow> string option" where
  "utf8_decode [] = Some []"
| "utf8_decode (c # cs) =
     (let n = (of_char c :: nat)
      in if n < 128 then map_option ((#) c) (utf8_decode cs)
         else case cs of
           [] \<Rightarrow> None
         | d # ds \<Rightarrow>
             let k = (of_char d :: nat)
             in if (n = 194 \<or> n = 195) \<and> 128 \<le> k \<and> k < 192
                then map_option ((#) (char_of ((n - 192) * 64 + (k - 128)))) (utf8_decode ds)
                else None)"

text \<open>
  Reading a file in text mode translates \<open>CR LF\<close> and \<open>CR\<close> to \<open>LF\<close>; writing one (on POSIX) does not
  translate.
\<close>

fun translate_newlines :: "bool \<Rightarrow> string \<Rightarrow> string" where
  "translate_newlines after_cr [] = []"
| "translate_newlines after_cr (c # cs) =
     (if c = CHR 0x0D then CHR 0x0A # translate_newlines True cs
      else if c = CHR 0x0A \<and> after_cr then translate_newlines False cs
      else c # translate_newlines False cs)"

definition universal_newlines :: "string \<Rightarrow> string" where
  "universal_newlines s = translate_newlines False s"

lemma universal_newlines_id: "CHR 0x0D \<notin> set s \<Longrightarrow> universal_newlines s = s"
proof -
  have "CHR 0x0D \<notin> set s \<Longrightarrow> translate_newlines False s = s" by (induction s) auto
  then show "CHR 0x0D \<notin> set s \<Longrightarrow> universal_newlines s = s" by (simp add: universal_newlines_def)
qed

lemma length_universal_newlines: "length (universal_newlines s) \<le> length s"
proof -
  have "length (translate_newlines b s) \<le> length s" for b
    by (induction s arbitrary: b) (auto intro: le_SucI)
  then show ?thesis by (simp add: universal_newlines_def)
qed

section \<open>Paths\<close>

definition strip_char :: "char \<Rightarrow> string \<Rightarrow> string" where
  "strip_char c s = rev (dropWhile (\<lambda>x. x = c) (rev (dropWhile (\<lambda>x. x = c) s)))"

definition normalized :: "string \<Rightarrow> string ws_result" where
  "normalized p =
     (if CHR 0x5C \<in> set p then Inl Backslash_In_Path else Inr (strip_char (CHR ''/'') p))"

definition writable_top_level :: "string list" where
  "writable_top_level = [''0'', ''constant'', ''system'', ''postprocessConfig'']"

definition execution_input_top_level :: "string list" where
  "execution_input_top_level = [''0'', ''constant'', ''system'']"

text \<open>\<open>^[A-Za-z0-9_.-]+$\<close>\<close>

definition safe_part :: "string \<Rightarrow> bool" where
  "safe_part s \<longleftrightarrow>
     s \<noteq> [] \<and> list_all (\<lambda>c. is_alpha c \<or> is_digit c \<or> c \<in> set ''_.-'') s"

definition case_part :: "string \<Rightarrow> bool" where
  "case_part s \<longleftrightarrow> s \<noteq> ''.'' \<and> s \<noteq> ''..'' \<and> safe_part s"

definition validate_relative :: "string \<Rightarrow> string list ws_result" where
  "validate_relative p =
     bind_result (normalized p) (\<lambda>n.
       let parts = path_parts n
       in if parts = [] \<or> path_root n \<noteq> [] \<or> hd parts \<notin> set writable_top_level \<or>
             \<not> list_all case_part parts
          then Inl (Unsafe_Case_Path p) else Inr parts)"

definition linked :: "workspace \<Rightarrow> string list \<Rightarrow> bool" where
  "linked w parts \<longleftrightarrow> list_ex (\<lambda>l. prefix l parts) (ws_links w)"

definition is_file :: "workspace \<Rightarrow> string list \<Rightarrow> bool" where
  "is_file w parts \<longleftrightarrow> map_of (ws_files w) parts \<noteq> None"

text \<open>
  Without symbolic links and \<open>..\<close> components a path below \<open>case/\<close> resolves to itself, so the
  sandbox-escape branch of the source is unreachable after the two checks before it.
\<close>

definition resolve_case_path :: "workspace \<Rightarrow> string \<Rightarrow> bool \<Rightarrow> string list ws_result" where
  "resolve_case_path w p must_exist =
     bind_result (validate_relative p) (\<lambda>parts.
       if linked w parts then Inl (Symlink_Component p)
       else if must_exist \<and> \<not> is_file w parts then Inl (No_Such_Case_File p)
       else Inr parts)"

section \<open>Content policy\<close>

definition forbidden_content :: "string list" where
  "forbidden_content =
     [''#codestream'', ''#calc'', ''#include'', ''#includeetc'', ''dynamiccode'',
      ''codedfixedvalue'', ''codemixed'', ''codedfunctionobject'', ''codedsource'', ''systemcall'',
      ''functionentry::'', ''codeinclude'', ''codeoptions'', ''codelibs'']"

text \<open>\<open>str.casefold\<close>; the micro sign folds to a code point above 255, which no rule looks at.\<close>

definition casefold :: "string \<Rightarrow> string" where
  "casefold s =
     concat (map (\<lambda>c. if c = CHR 0xDF then ''ss'' else [lower_char c]) s)"

definition ascii_word :: "char \<Rightarrow> bool" where
  "ascii_word c \<longleftrightarrow> is_alpha c \<or> is_digit c \<or> c = CHR ''_''"

text \<open>The regular expression class \<open>\w\<close> on code points below 256.\<close>

definition regex_word :: "char \<Rightarrow> bool" where
  "regex_word c \<longleftrightarrow>
     ascii_word c \<or>
     (let n = (of_char c :: nat)
      in n \<in> {170, 178, 179, 181, 185, 186, 188, 189, 190} \<or>
         192 \<le> n \<and> n \<noteq> 215 \<and> n \<noteq> 247)"

text \<open>
  A search of the two patterns \<open>(?<![A-Za-z0-9_])system\s*\(\<close> and
  \<open>(?<![A-Za-z0-9_])coded[A-Za-z0-9_]*\b\<close>; \<open>after\<close> holds when the character before is of the class.
\<close>

definition system_call_here :: "string \<Rightarrow> bool" where
  "system_call_here s \<longleftrightarrow>
     starts_with s ''system'' \<and> starts_with (dropWhile is_space (drop 6 s)) ''(''"

definition coded_here :: "string \<Rightarrow> bool" where
  "coded_here s \<longleftrightarrow>
     starts_with s ''coded'' \<and>
     (case dropWhile ascii_word s of [] \<Rightarrow> True | c # _ \<Rightarrow> \<not> regex_word c)"

fun search_after :: "(string \<Rightarrow> bool) \<Rightarrow> bool \<Rightarrow> string \<Rightarrow> bool" where
  "search_after here after [] = False"
| "search_after here after (c # cs) =
     (\<not> after \<and> here (c # cs) \<or> search_after here (ascii_word c) cs)"

definition forbidden_directives :: "string \<Rightarrow> string list" where
  "forbidden_directives content =
     (let lowered = casefold content
      in filter (\<lambda>t. sublist t lowered) forbidden_content @
         (if search_after system_call_here False lowered then [''system(...)''] else []) @
         (if search_after coded_here False lowered then [''coded* runtime code''] else []))"

definition validate_content :: "workspace \<Rightarrow> string \<Rightarrow> string \<Rightarrow> unit ws_result" where
  "validate_content w content p =
     (let forbidden = forbidden_directives content
      in if forbidden \<noteq> [] then Inl (Unsafe_Directives p (sorted_set forbidden))
         else case library_entries content of
           Inl e \<Rightarrow> Inl (Bad_Libraries p e)
         | Inr libraries \<Rightarrow>
             let unknown = filter (\<lambda>l. l \<notin> set (ws_allowed_libraries w)) libraries
             in if unknown \<noteq> [] then Inl (Libraries_Not_Allowed p (sorted_set unknown))
                else Inr ())"

section \<open>Preflight\<close>

definition validate_candidate_text ::
  "(string \<Rightarrow> string) \<Rightarrow> workspace \<Rightarrow> string \<Rightarrow> string \<Rightarrow> string ws_result" where
  "validate_candidate_text sha w p content =
     (if CHR 0x00 \<in> set content then Inl Nul_In_Content
      else if int (length (utf8_encode content)) > ws_max_file_bytes w then Inl (File_Too_Large p)
      else bind_result (resolve_case_path w p False) (\<lambda>_.
        bind_result (normalized p) (\<lambda>n.
          if n \<in> set (ws_assets w) then Inl Immutable_Asset
          else bind_result (validate_content w content p) (\<lambda>_.
            Inr (sha (utf8_encode content))))))"

text \<open>The size of a file; it is read only where the path resolves to one.\<close>

definition file_size :: "workspace \<Rightarrow> string list \<Rightarrow> nat" where
  "file_size w parts = (case map_of (ws_files w) parts of None \<Rightarrow> 0 | Some b \<Rightarrow> length b)"

definition list_authored :: "workspace \<Rightarrow> string list ws_result" where
  "list_authored w =
     bind_result
       (map_result (\<lambda>p. bind_result (resolve_case_path w p False) (\<lambda>q. Inr (p, q))) (ws_authored w))
       (\<lambda>ps. Inr (sorted_set (map fst (filter (\<lambda>(p, q). is_file w q) ps))))"

definition authored_size :: "workspace \<Rightarrow> string \<Rightarrow> nat ws_result" where
  "authored_size w p = bind_result (resolve_case_path w p True) (\<lambda>q. Inr (file_size w q))"

definition assert_total_size :: "workspace \<Rightarrow> unit ws_result" where
  "assert_total_size w =
     bind_result (list_authored w) (\<lambda>ps.
       bind_result (map_result (authored_size w) ps) (\<lambda>sizes.
         if int (sum_list sizes) > ws_max_total_bytes w then Inl Total_Size_Exceeded else Inr ()))"

text \<open>
  \<open>validate_candidate_bundle\<close>: the failures found, or what it raises itself.  The first loop keeps
  the checked candidates in a dictionary from normalized path to size, where a later duplicate
  overwrites the size.
\<close>

definition candidate_check ::
  "(string \<Rightarrow> string) \<Rightarrow> workspace \<Rightarrow> string \<times> string \<Rightarrow> (string \<times> nat) ws_result" where
  "candidate_check sha w file =
     bind_result (normalized (fst file)) (\<lambda>n.
       bind_result (validate_candidate_text sha w n (snd file)) (\<lambda>_.
         Inr (n, length (utf8_encode (snd file)))))"

definition failures_of :: "('e + 'a) list \<Rightarrow> 'e list" where
  "failures_of rs = concat (map (\<lambda>r. case r of Inl e \<Rightarrow> [e] | Inr _ \<Rightarrow> []) rs)"

definition successes_of :: "('e + 'a) list \<Rightarrow> 'a list" where
  "successes_of rs = concat (map (\<lambda>r. case r of Inl _ \<Rightarrow> [] | Inr x \<Rightarrow> [x]) rs)"

definition validate_candidate_bundle ::
  "(string \<Rightarrow> string) \<Rightarrow> workspace \<Rightarrow> (string \<times> string) list \<Rightarrow> string list \<Rightarrow>
     workspace_error list ws_result" where
  "validate_candidate_bundle sha w files drops =
     (let checks = map (candidate_check sha w) files
      in if failures_of checks \<noteq> [] then Inr (failures_of checks)
         else
           let candidates = foldl (\<lambda>m (p, n). AList.update p n m) [] (successes_of checks)
           in bind_result (map_result normalized drops) (\<lambda>dropped.
             bind_result (list_authored w) (\<lambda>authored.
               let others = filter (\<lambda>p. p \<notin> fst ` set candidates \<and> p \<notin> set dropped) authored
               in bind_result (map_result (authored_size w) others) (\<lambda>sizes.
                 Inr (if int (sum_list sizes + sum_list (map snd candidates)) > ws_max_total_bytes w
                      then [Total_Size_Would_Exceed] else [])))))"

section \<open>Writing and deleting\<close>

definition ancestors :: "string list \<Rightarrow> string list list" where
  "ancestors parts = map (\<lambda>k. take k parts) [1..<length parts]"

definition put_file :: "workspace \<Rightarrow> string list \<Rightarrow> string \<Rightarrow> workspace" where
  "put_file w parts bytes =
     w\<lparr>ws_files := AList.update parts bytes (ws_files w),
       ws_dirs := ws_dirs w @ filter (\<lambda>d. d \<notin> set (ws_dirs w)) (ancestors parts)\<rparr>"

definition remove_file :: "workspace \<Rightarrow> string list \<Rightarrow> workspace" where
  "remove_file w parts = w\<lparr>ws_files := AList.delete parts (ws_files w)\<rparr>"

text \<open>Below a regular file there is nothing; a directory is no regular file.\<close>

definition below_file :: "workspace \<Rightarrow> string list \<Rightarrow> bool" where
  "below_file w parts \<longleftrightarrow> list_ex (is_file w) (ancestors parts)"

text \<open>
  Creating the parent directories and replacing the file: it fails below a regular file (then no
  directory is created) and on a directory (then every parent exists already).
\<close>

definition store_bytes ::
  "workspace \<Rightarrow> string list \<Rightarrow> string \<Rightarrow> unit ws_result \<times> workspace" where
  "store_bytes w parts bytes =
     (if below_file w parts \<or> parts \<in> set (ws_dirs w) then (Inl Os_Error, w)
      else (Inr (), put_file w parts bytes))"

definition add_authored :: "workspace \<Rightarrow> string \<Rightarrow> workspace" where
  "add_authored w p = w\<lparr>ws_authored := List.insert p (ws_authored w)\<rparr>"

definition discard_authored :: "workspace \<Rightarrow> string \<Rightarrow> workspace" where
  "discard_authored w p = w\<lparr>ws_authored := filter (\<lambda>q. q \<noteq> p) (ws_authored w)\<rparr>"

definition write_text ::
  "(string \<Rightarrow> string) \<Rightarrow> workspace \<Rightarrow> string \<Rightarrow> string \<Rightarrow> string ws_result \<times> workspace" where
  "write_text sha w p content =
     (case bind_result (validate_candidate_text sha w p content) (\<lambda>digest.
          bind_result (resolve_case_path w p False) (\<lambda>parts.
            bind_result (normalized p) (\<lambda>n. Inr (digest, parts, n)))) of
        Inl e \<Rightarrow> (Inl e, w)
      | Inr (digest, parts, n) \<Rightarrow>
          (case store_bytes w parts (utf8_encode content) of
             (Inl e, w') \<Rightarrow> (Inl e, w')
           | (Inr _, w') \<Rightarrow>
               let w'' = add_authored w' n
               in (bind_result (assert_total_size w'') (\<lambda>_. Inr digest), w'')))"

text \<open>
  \<open>read_text\<close>: bytes that are no UTF-8 text of the model's alphabet are decoded by \<open>lossy\<close>, the
  standard library's replacing decoder.
\<close>

definition truncation_mark :: string where
  "truncation_mark = CHR 0x0A # ''... [truncated]''"

definition read_text ::
  "(string \<Rightarrow> string) \<Rightarrow> workspace \<Rightarrow> string \<Rightarrow> int \<Rightarrow> string ws_result" where
  "read_text lossy w p max_chars =
     bind_result (resolve_case_path w p True) (\<lambda>parts.
       let bytes = get_default [] (map_of (ws_files w) parts);
           data = universal_newlines (get_default (lossy bytes) (utf8_decode bytes))
       in Inr (if int (length data) > max_chars 
             then take (nat (if max_chars < 0 then int (length data) + max_chars else max_chars)) data @
               truncation_mark
             else data))"

definition patch_text_once ::
  "(string \<Rightarrow> string) \<Rightarrow> (string \<Rightarrow> string) \<Rightarrow> workspace \<Rightarrow> string \<Rightarrow> string \<Rightarrow> string \<Rightarrow>
     string ws_result \<times> workspace" where
  "patch_text_once sha lossy w p old new =
     (if old = [] then (Inl Empty_Patch_Fragment, w)
      else case read_text lossy w p (ws_max_file_bytes w + 1) of
        Inl e \<Rightarrow> (Inl e, w)
      | Inr current \<Rightarrow>
          if ends_with current truncation_mark then (Inl (Patch_Target_Truncated p), w)
          else if str_count old current \<noteq> 1
          then (Inl (Patch_Match_Count p (str_count old current)), w)
          else write_text sha w p (str_replace_first old new current))"

definition case_file_digest :: "(string \<Rightarrow> string) \<Rightarrow> workspace \<Rightarrow> string \<Rightarrow> string ws_result" where
  "case_file_digest sha w p =
     bind_result (resolve_case_path w p True) (\<lambda>parts.
       Inr (sha (get_default [] (map_of (ws_files w) parts))))"

definition occupied :: "workspace \<Rightarrow> string list \<Rightarrow> bool" where
  "occupied w d \<longleftrightarrow>
     list_ex (\<lambda>q. strict_prefix d q) (map fst (ws_files w) @ ws_dirs w @ ws_links w)"

text \<open>The emptied parent directories are removed from the innermost outwards.\<close>

fun prune_parents :: "string list list \<Rightarrow> workspace \<Rightarrow> workspace" where
  "prune_parents [] w = w"
| "prune_parents (d # ds) w =
     (if d \<in> set (ws_dirs w) \<and> \<not> occupied w d
      then prune_parents ds (w\<lparr>ws_dirs := filter (\<lambda>e. e \<noteq> d) (ws_dirs w)\<rparr>)
      else w)"

definition delete :: "workspace \<Rightarrow> string \<Rightarrow> unit ws_result \<times> workspace" where
  "delete w p =
     (case bind_result (normalized p) (\<lambda>n.
          bind_result (resolve_case_path w n True) (\<lambda>parts. Inr (n, parts))) of
        Inl e \<Rightarrow> (Inl e, w)
      | Inr (n, parts) \<Rightarrow>
          if n \<in> set (ws_assets w) then (Inl Asset_Not_Deletable, w)
          else (Inr (),
            prune_parents (rev (ancestors parts)) (discard_authored (remove_file w parts) n)))"

section \<open>The text transaction\<close>

text \<open>
  The mutations of a transaction run in order: the writes, then the drops.  \<open>fault = Some k\<close> makes
  the operating system fail at mutation \<open>k\<close> (and \<open>k\<close> equal to the number of mutations at the
  final size check); \<open>order\<close> is the order in which the rollback loop visits the snapshots, which
  the source leaves to the iteration order of a set.
\<close>

definition commit_put ::
  "(string \<Rightarrow> string) \<Rightarrow> string \<times> string \<Rightarrow> workspace \<Rightarrow>
     (string \<times> string) option ws_result \<times> workspace" where
  "commit_put sha change w =
     (case bind_result (resolve_case_path w (fst change) False) (\<lambda>parts.
          bind_result (normalized (fst change)) (\<lambda>n. Inr (parts, n))) of
        Inl e \<Rightarrow> (Inl e, w)
      | Inr (parts, n) \<Rightarrow>
          (case store_bytes w parts (utf8_encode (snd change)) of
             (Inl e, w') \<Rightarrow> (Inl e, w')
           | (Inr _, w') \<Rightarrow>
               (Inr (Some (n, sha (utf8_encode (snd change)))), add_authored w' n)))"

definition commit_drop ::
  "string \<Rightarrow> workspace \<Rightarrow> (string \<times> string) option ws_result \<times> workspace" where
  "commit_drop p w =
     (case resolve_case_path w p True of
        Inl e \<Rightarrow> (Inl e, w)
      | Inr parts \<Rightarrow> (Inr None, discard_authored (remove_file w parts) p))"

fun run_steps ::
  "nat option \<Rightarrow> (workspace \<Rightarrow> 'a ws_result \<times> workspace) list \<Rightarrow> workspace \<Rightarrow>
     'a list ws_result \<times> workspace" where
  "run_steps fault [] w = (if fault = Some 0 then Inl Os_Error else Inr [], w)"
| "run_steps fault (s # ss) w =
     (if fault = Some 0 then (Inl Os_Error, w)
      else case s w of
        (Inl e, w') \<Rightarrow> (Inl e, w')
      | (Inr x, w') \<Rightarrow>
          (case run_steps (map_option (\<lambda>k. k - 1) fault) ss w' of
             (Inl e, w'') \<Rightarrow> (Inl e, w'')
           | (Inr xs, w'') \<Rightarrow> (Inr (x # xs), w'')))"

definition check_drop :: "workspace \<Rightarrow> string \<Rightarrow> unit ws_result" where
  "check_drop w p =
     (if p \<in> set (ws_assets w) then Inl Asset_Not_Deletable
      else if p \<notin> set (ws_authored w) then Inl (Not_Agent_Authored p)
      else bind_result (resolve_case_path w p True) (\<lambda>_. Inr ()))"

definition snapshot :: "workspace \<Rightarrow> string \<Rightarrow> (string \<times> string option) ws_result" where
  "snapshot w p =
     bind_result (resolve_case_path w p False) (\<lambda>parts. Inr (p, map_of (ws_files w) parts))"

text \<open>
  The rollback writes a file under a fixed name beside it, \<open>.NAME.rollback.tmp\<close>, and renames it.  Nothing
  reserves that name: \<open>write_bytes\<close> replaces a file of that name and follows a symbolic link of that
  name, and \<open>os.replace\<close> renames whatever has the name, a link included.
\<close>

definition rollback_path :: "string list \<Rightarrow> string list" where
  "rollback_path parts = butlast parts @ [''.'' @ last parts @ ''.rollback.tmp'']"

definition write_bytes ::
  "workspace \<Rightarrow> string list \<Rightarrow> string \<Rightarrow> unit ws_result \<times> workspace" where
  "write_bytes w parts bytes =
     (if below_file w parts \<or> parts \<in> set (ws_dirs w) then (Inl Os_Error, w)
      else if parts \<in> set (ws_links w)
      then (Inr (), w\<lparr>ws_link_writes := ws_link_writes w @ [(parts, bytes)]\<rparr>)
      else (Inr (), put_file w parts bytes))"

definition replace_path ::
  "workspace \<Rightarrow> string list \<Rightarrow> string list \<Rightarrow> unit ws_result \<times> workspace" where
  "replace_path w source destination =
     (if destination \<in> set (ws_dirs w) then (Inl Os_Error, w)
      else if source \<in> set (ws_links w)
      then (Inr (), (remove_file w destination)\<lparr>ws_links :=
        destination # filter (\<lambda>l. l \<noteq> source) (ws_links w)\<rparr>)
      else case map_of (ws_files w) source of
        None \<Rightarrow> (Inl Os_Error, w)
      | Some bytes \<Rightarrow> (Inr (), put_file (remove_file w source) destination bytes))"

text \<open>One round of the rollback loop; \<open>unlink\<close> ignores a missing file and nothing else.\<close>

definition restore :: "string \<times> string option \<Rightarrow> workspace \<Rightarrow> unit ws_result \<times> workspace" where
  "restore snap w =
     (case resolve_case_path w (fst snap) False of
        Inl e \<Rightarrow> (Inl e, w)
      | Inr parts \<Rightarrow>
          (case snd snap of
             None \<Rightarrow>
               if below_file w parts \<or> parts \<in> set (ws_dirs w) then (Inl Os_Error, w)
               else (Inr (), remove_file w parts)
           | Some bytes \<Rightarrow>
               (case write_bytes w (rollback_path parts) bytes of
                  (Inl e, w') \<Rightarrow> (Inl e, w')
                | (Inr _, w') \<Rightarrow> replace_path w' (rollback_path parts) parts)))"

definition rollback ::
  "string list \<Rightarrow> (string \<times> string option) list \<Rightarrow> workspace \<Rightarrow> unit ws_result \<times> workspace" where
  "rollback authored_before snaps w =
     (case run_steps None (map restore snaps) (w\<lparr>ws_authored := authored_before\<rparr>) of
        (Inl e, w') \<Rightarrow> (Inl e, w')
      | (Inr _, w') \<Rightarrow> (Inr (), w'))"

definition digests_of :: "(string \<times> string) option list \<Rightarrow> (string \<times> string) list" where
  "digests_of rs =
     foldl (\<lambda>m r. case r of None \<Rightarrow> m | Some (p, d) \<Rightarrow> AList.update p d m) [] rs"

definition transaction_plan ::
  "(string \<Rightarrow> string) \<Rightarrow> workspace \<Rightarrow> (string \<times> string) list \<Rightarrow> string list \<Rightarrow> string list \<Rightarrow>
     (string list \<times> (string \<times> string option) list) ws_result" where
  "transaction_plan sha w changes drop_paths order =
     bind_result (validate_candidate_bundle sha w changes drop_paths) (\<lambda>failures.
       if failures \<noteq> [] then Inl (Preflight_Failed failures)
       else bind_result (map_result normalized drop_paths) (\<lambda>ds.
         let drops = dict_fromkeys ds
         in bind_result (map_result (check_drop w) drops) (\<lambda>_.
           bind_result (map_result (snapshot w) order) (\<lambda>snaps. Inr (drops, snaps)))))"

definition commit_text_transaction ::
  "(string \<Rightarrow> string) \<Rightarrow> nat option \<Rightarrow> string list \<Rightarrow> workspace \<Rightarrow> (string \<times> string) list \<Rightarrow>
     string list \<Rightarrow> (string \<times> string) list ws_result \<times> workspace" where
  "commit_text_transaction sha fault order w changes drop_paths =
     (case transaction_plan sha w changes drop_paths order of
        Inl e \<Rightarrow> (Inl e, w)
      | Inr (drops, snaps) \<Rightarrow>
          (case run_steps fault (map (commit_put sha) changes @ map commit_drop drops) w of
             (Inr rs, w') \<Rightarrow>
               (case assert_total_size w' of
                  Inr _ \<Rightarrow> (Inr (digests_of rs), w')
                | Inl e \<Rightarrow>
                    (case rollback (ws_authored w) snaps w' of
                       (Inl e', w'') \<Rightarrow> (Inl e', w'')
                     | (Inr _, w'') \<Rightarrow> (Inl e, w'')))
           | (Inl e, w') \<Rightarrow>
               (case rollback (ws_authored w) snaps w' of
                  (Inl e', w'') \<Rightarrow> (Inl e', w'')
                | (Inr _, w'') \<Rightarrow> (Inl e, w''))))"

text \<open>The set whose elements \<open>order\<close> enumerates.\<close>

definition touched :: "(string \<times> string) list \<Rightarrow> string list \<Rightarrow> string set" where
  "touched changes drop_paths =
     fst ` set changes \<union> {n. \<exists>p \<in> set drop_paths. normalized p = Inr n}"

section \<open>Encoding and path lemmas\<close>

lemma utf8_round_trip [simp]: "utf8_decode (utf8_encode s) = Some s"
proof (induction s)
  case (Cons c s)
  have split: "utf8_encode (c # s) = utf8_char c @ utf8_encode s" by (simp add: utf8_encode_def)
  let ?n = "of_char c :: nat"
  have lt: "?n < 256" using nat_of_char_less_256 by simp
  show ?case
  proof (cases "?n < 128")
    case True
    then show ?thesis using Cons by (simp add: split utf8_char_def Let_def)
  next
    case False
    define a b where "a = 192 + ?n div 64" and "b = 128 + ?n mod 64"
    obtain n where n: "?n = n" by blast
    have "n div 64 = 2 \<or> n div 64 = 3" using False lt unfolding n by linarith
    then have ab: "a = 194 \<or> a = 195" "128 \<le> b" "b < 192" "(a - 192) * 64 + (b - 128) = ?n"
      unfolding a_def b_def n using div_mult_mod_eq [of n 64] by (linarith, linarith, linarith, simp)
    then have "a mod 256 = a" "b mod 256 = b" by auto
    with ab have "utf8_decode (char_of a # char_of b # utf8_encode s) = Some (c # s)"
      using Cons by (auto simp: Let_def of_char_of)
    then show ?thesis using False by (simp add: split utf8_char_def Let_def a_def b_def)
  qed
qed (simp add: utf8_encode_def)

lemma resolve_links_cong:
  "ws_links w = ws_links w' \<Longrightarrow> resolve_case_path w p False = resolve_case_path w' p False"
  by (simp add: resolve_case_path_def linked_def cong: if_cong)

lemma resolve_target:
  "resolve_case_path w p me = Inr parts \<Longrightarrow> validate_relative p = Inr parts"
  by (auto simp: resolve_case_path_def split: if_splits)

lemma resolve_Inr_must_exist:
  "resolve_case_path w p True = Inr parts \<longleftrightarrow>
     resolve_case_path w p False = Inr parts \<and> is_file w parts"
  by (auto simp: resolve_case_path_def split: if_splits)

text \<open>
  A resolved path stays below one of the writable roots: every component is a plain safe name.
\<close>

lemma validate_relative_safe:
  "validate_relative p = Inr parts \<Longrightarrow>
     parts \<noteq> [] \<and> hd parts \<in> set writable_top_level \<and> list_all case_part parts"
  by (auto simp: validate_relative_def Let_def split: if_splits)

section \<open>The file store\<close>

definition disk :: "workspace \<Rightarrow> string list \<Rightarrow> string option" where
  "disk w = map_of (ws_files w)"

lemma is_file_disk: "is_file w q \<longleftrightarrow> disk w q \<noteq> None"
  by (simp add: is_file_def disk_def)

lemma disk_put: "disk (put_file w q b) = (disk w)(q \<mapsto> b)"
  by (simp add: disk_def put_file_def update_conv')

lemma disk_remove: "disk (remove_file w q) = (disk w)(q := None)"
  by (simp add: disk_def remove_file_def delete_conv')

text \<open>
  An undo log over a store: putting back every recorded entry restores the recorded view,
  whatever was stored in between under the recorded keys.
\<close>

locale file_store =
  fixes view :: "'s \<Rightarrow> 'k \<Rightarrow> 'v option"
    and put :: "'s \<Rightarrow> 'k \<Rightarrow> 'v \<Rightarrow> 's"
    and remove :: "'s \<Rightarrow> 'k \<Rightarrow> 's"
  assumes view_put: "view (put s k v) = (view s)(k \<mapsto> v)"
    and view_remove: "view (remove s k) = (view s)(k := None)"
begin

definition undo :: "'k \<times> 'v option \<Rightarrow> 's \<Rightarrow> 's" where
  "undo entry s =
     (case snd entry of None \<Rightarrow> remove s (fst entry) | Some v \<Rightarrow> put s (fst entry) v)"

lemma view_undo: "view (undo entry s) = (view s)(fst entry := snd entry)"
  by (simp add: undo_def view_put view_remove split: option.split)

lemma undo_log_restores:
  assumes "\<And>k. k \<notin> fst ` set log \<Longrightarrow> view s k = m k"
    and "\<And>k v. (k, v) \<in> set log \<Longrightarrow> v = m k"
  shows "view (fold undo log s) = m"
  using assms
proof (induction log arbitrary: s)
  case Nil
  then show ?case by auto
next
  case (Cons e log)
  have "view (undo e s) k = m k" if "k \<notin> fst ` set log" for k
    using that Cons.prems by (cases e) (auto simp: view_undo)
  then show ?case using Cons by (auto intro!: Cons.IH)
qed

lemma undo_log_frame:
  "k \<notin> fst ` set log \<Longrightarrow> view (fold undo log s) k = view s k"
  by (induction log arbitrary: s) (auto simp: view_undo)

end

interpretation case_store: file_store disk put_file remove_file
  by unfold_locales (rule disk_put, rule disk_remove)

section \<open>Frames of the operations\<close>

definition same_settings :: "workspace \<Rightarrow> workspace \<Rightarrow> bool" where
  "same_settings w w' \<longleftrightarrow>
     ws_links w' = ws_links w \<and> ws_link_writes w' = ws_link_writes w \<and> ws_assets w' = ws_assets w \<and>
     ws_max_file_bytes w' = ws_max_file_bytes w \<and> ws_max_total_bytes w' = ws_max_total_bytes w \<and>
     ws_max_execution_bytes w' = ws_max_execution_bytes w \<and>
     ws_max_execution_files w' = ws_max_execution_files w \<and>
     ws_allowed_libraries w' = ws_allowed_libraries w"

lemma same_settings_refl [simp]: "same_settings w w"
  by (simp add: same_settings_def)

lemma same_settings_updates [simp]:
  "same_settings w (put_file w' q b) \<longleftrightarrow> same_settings w w'"
  "same_settings w (remove_file w' q) \<longleftrightarrow> same_settings w w'"
  "same_settings w (add_authored w' p) \<longleftrightarrow> same_settings w w'"
  "same_settings w (discard_authored w' p) \<longleftrightarrow> same_settings w w'"
  "same_settings w (w'\<lparr>ws_authored := a\<rparr>) \<longleftrightarrow> same_settings w w'"
  by (simp_all add: same_settings_def put_file_def remove_file_def add_authored_def
      discard_authored_def)

lemma disk_authored [simp]:
  "disk (add_authored w p) = disk w" "disk (discard_authored w p) = disk w"
  "disk (w\<lparr>ws_authored := a\<rparr>) = disk w"
  by (simp_all add: disk_def add_authored_def discard_authored_def)

lemma dirs_simps [simp]:
  "ws_dirs (add_authored w p) = ws_dirs w" "ws_dirs (discard_authored w p) = ws_dirs w"
  "ws_dirs (remove_file w q) = ws_dirs w"
  "set (ws_dirs (put_file w q b)) = set (ws_dirs w) \<union> set (ancestors q)"
  by (auto simp: add_authored_def discard_authored_def remove_file_def put_file_def)

lemma authored_simps [simp]:
  "set (ws_authored (add_authored w p)) = insert p (set (ws_authored w))"
  "set (ws_authored (discard_authored w p)) = set (ws_authored w) - {p}"
  "ws_authored (remove_file w q) = ws_authored w"
  "ws_authored (put_file w q b) = ws_authored w"
  by (auto simp: add_authored_def discard_authored_def remove_file_def put_file_def)

lemma set_ancestors: "a \<in> set (ancestors q) \<longleftrightarrow> a \<noteq> [] \<and> strict_prefix a q"
proof
  assume "a \<in> set (ancestors q)"
  then obtain k where k: "1 \<le> k" "k < length q" "a = take k q" by (auto simp: ancestors_def)
  then have "length a = k" by simp
  with k show "a \<noteq> [] \<and> strict_prefix a q"
    by (auto simp: strict_prefix_def take_is_prefix)
next
  assume a: "a \<noteq> [] \<and> strict_prefix a q"
  then have "a = take (length a) q" "length a < length q"
    by (auto simp: strict_prefix_def prefix_def)
  moreover have "1 \<le> length a" using a by (cases a) auto
  ultimately show "a \<in> set (ancestors q)"
    unfolding ancestors_def by (auto intro!: image_eqI [of _ _ "length a"])
qed

section \<open>Atomicity of the transaction\<close>

definition target :: "string \<Rightarrow> string list" where
  "target p = (case validate_relative p of Inl _ \<Rightarrow> [] | Inr parts \<Rightarrow> parts)"

lemma resolve_eq_target: "resolve_case_path w p me = Inr parts \<Longrightarrow> parts = target p"
  by (auto simp: target_def dest: resolve_target)

text \<open>
  Targets that are files or can be created as such: none is a directory or lies below a regular
  file, and none lies below another target.  The name the rollback uses beside a target is free: it is no
  file, directory or link of the case, and no target has it or lies below it.
\<close>

definition placeable :: "workspace \<Rightarrow> string list set \<Rightarrow> bool" where
  "placeable w T \<longleftrightarrow>
     (\<forall>q \<in> T. q \<notin> set (ws_dirs w) \<and> \<not> below_file w q \<and> (\<forall>r \<in> T. \<not> strict_prefix q r))"

definition rollback_names_free :: "workspace \<Rightarrow> string list set \<Rightarrow> bool" where
  "rollback_names_free w T \<longleftrightarrow>
     (\<forall>q \<in> T. \<not> is_file w (rollback_path q) \<and> rollback_path q \<notin> set (ws_dirs w) \<and>
        rollback_path q \<notin> set (ws_links w) \<and> (\<forall>r \<in> T. \<not> prefix (rollback_path q) r))"

definition txn_inv :: "workspace \<Rightarrow> string list set \<Rightarrow> workspace \<Rightarrow> bool" where
  "txn_inv w T w' \<longleftrightarrow>
     same_settings w w' \<and> (\<forall>q. q \<notin> T \<longrightarrow> disk w' q = disk w q) \<and>
     set (ws_dirs w') \<subseteq> set (ws_dirs w) \<union> {d. \<exists>q \<in> T. strict_prefix d q}"

lemma txn_inv_refl: "txn_inv w T w"
  by (simp add: txn_inv_def)

lemma txn_inv_resolve:
  "txn_inv w T w' \<Longrightarrow> resolve_case_path w' p False = resolve_case_path w p False"
  by (intro resolve_links_cong) (simp add: txn_inv_def same_settings_def)

lemma txn_inv_placeable:
  assumes "txn_inv w T w'" "placeable w T" "q \<in> T"
  shows "q \<notin> set (ws_dirs w')" "\<not> below_file w' q"
proof -
  show "q \<notin> set (ws_dirs w')"
    using assms by (auto simp: txn_inv_def placeable_def)
  show "\<not> below_file w' q"
  proof
    assume "below_file w' q"
    then obtain a where a: "a \<noteq> []" "strict_prefix a q" "disk w' a \<noteq> None"
      by (auto simp: below_file_def list_ex_iff set_ancestors is_file_disk)
    show False
    proof (cases "a \<in> T")
      case True
      then show False using a assms by (auto simp: placeable_def)
    next
      case False
      then have "disk w a \<noteq> None" using a assms by (auto simp: txn_inv_def)
      then have "below_file w q"
        using a by (auto simp: below_file_def list_ex_iff set_ancestors is_file_disk)
      then show False using assms by (auto simp: placeable_def)
    qed
  qed
qed

lemma txn_inv_put:
  "txn_inv w T w' \<Longrightarrow> q \<in> T \<Longrightarrow> txn_inv w T (put_file w' q b)"
  by (auto simp: txn_inv_def disk_put set_ancestors)

lemma txn_inv_remove:
  "txn_inv w T w' \<Longrightarrow> q \<in> T \<Longrightarrow> txn_inv w T (remove_file w' q)"
  by (auto simp: txn_inv_def disk_remove)

lemma txn_inv_authored [simp]:
  "txn_inv w T (add_authored w' p) \<longleftrightarrow> txn_inv w T w'"
  "txn_inv w T (discard_authored w' p) \<longleftrightarrow> txn_inv w T w'"
  "txn_inv w T (w'\<lparr>ws_authored := a\<rparr>) \<longleftrightarrow> txn_inv w T w'"
  by (simp_all add: txn_inv_def)

lemma run_steps_invariant:
  assumes "\<And>s w. s \<in> set ss \<Longrightarrow> I w \<Longrightarrow> I (snd (s w))" and "I w"
  shows "I (snd (run_steps fault ss w))"
  using assms
proof (induction ss arbitrary: fault w)
  case (Cons s ss)
  have "I (snd (s w))" using Cons.prems by simp
  with Cons.IH [of "snd (s w)"] Cons.prems show ?case
    by (auto split: prod.split sum.split) (metis snd_conv)+
qed simp

lemma commit_put_inv:
  assumes "txn_inv w T w'" "target (fst change) \<in> T"
  shows "txn_inv w T (snd (commit_put sha change w'))"
  using assms
  by (auto simp: commit_put_def store_bytes_def bind_result_def split: sum.split
      dest!: resolve_eq_target intro: txn_inv_put)

lemma commit_drop_inv:
  assumes "txn_inv w T w'" "target p \<in> T"
  shows "txn_inv w T (snd (commit_drop p w'))"
  using assms
  by (auto simp: commit_drop_def split: sum.split dest!: resolve_eq_target intro: txn_inv_remove)

lemma ancestors_rollback_path: "q \<noteq> [] \<Longrightarrow> ancestors (rollback_path q) = ancestors q"
  by (cases q rule: rev_cases) (auto simp: ancestors_def rollback_path_def intro!: map_cong)

lemma delete_update_fresh: "k \<notin> fst ` set m \<Longrightarrow> AList.delete k (AList.update k v m) = m"
  by (induction m) auto

lemma remove_put_fresh: "\<not> is_file w t \<Longrightarrow> ancestors t = ancestors q \<Longrightarrow>
  put_file (remove_file (put_file w t b) t) q b = put_file w q b"
  by (simp add: put_file_def remove_file_def is_file_def map_of_eq_None_iff delete_update_fresh)

lemma restore_store:
  assumes "q \<noteq> []" "q \<notin> set (ws_dirs w)" "\<not> below_file w q" "resolve_case_path w p False = Inr q"
    and "\<not> is_file w (rollback_path q)" "rollback_path q \<notin> set (ws_dirs w)" "rollback_path q \<notin> set (ws_links w)"
  shows "restore (p, Some b) w = (Inr (), put_file w q b)"
proof -
  let ?t = "rollback_path q"
  note anc = ancestors_rollback_path [OF assms(1)]
  have "below_file w ?t = below_file w q" by (simp add: below_file_def anc)
  then have "write_bytes w ?t b = (Inr (), put_file w ?t b)" using assms by (simp add: write_bytes_def)
  moreover have files: "map_of (ws_files (put_file w ?t b)) ?t = Some b" "ws_links (put_file w ?t b) = ws_links w"
    by (simp_all add: put_file_def update_conv')
  have "q \<notin> set (ancestors q)" by (simp add: set_ancestors)
  then have "q \<notin> set (ws_dirs (put_file w ?t b))" using assms(2) by (simp add: put_file_def anc)
  then have "replace_path (put_file w ?t b) ?t q = (Inr (), put_file (remove_file (put_file w ?t b) ?t) q b)"
    using assms(7) files by (simp add: replace_path_def del: dirs_simps)
  ultimately show ?thesis
    using assms(4) remove_put_fresh [OF assms(5) anc] by (simp add: restore_def)
qed

lemma txn_inv_rollback_free:
  assumes inv: "txn_inv w T w'" and free: "rollback_names_free w T" and q: "q \<in> T"
  shows "\<not> is_file w' (rollback_path q)" "rollback_path q \<notin> set (ws_dirs w')" "rollback_path q \<notin> set (ws_links w')"
proof -
  from free q have f: "\<not> is_file w (rollback_path q)" "rollback_path q \<notin> set (ws_dirs w)"
    "rollback_path q \<notin> set (ws_links w)" "rollback_path q \<notin> T" "\<And>r. r \<in> T \<Longrightarrow> \<not> strict_prefix (rollback_path q) r"
    by (auto simp: rollback_names_free_def strict_prefix_def)
  show "\<not> is_file w' (rollback_path q)" using f(1,4) inv by (simp add: is_file_disk txn_inv_def)
  show "rollback_path q \<notin> set (ws_dirs w')" using f(2,5) inv by (auto simp: txn_inv_def)
  show "rollback_path q \<notin> set (ws_links w')" using f(3) inv by (simp add: txn_inv_def same_settings_def)
qed

lemma restore_ok:
  assumes "txn_inv w T w'" "placeable w T" "rollback_names_free w T"
    and "resolve_case_path w (fst snap) False = Inr q" "q \<in> T"
  shows "restore snap w' = (Inr (), case_store.undo (q, snd snap) w')"
    and "txn_inv w T (case_store.undo (q, snd snap) w')"
proof -
  have r: "resolve_case_path w' (fst snap) False = Inr q"
    using assms(4) txn_inv_resolve [OF assms(1)] by simp
  then have "q \<noteq> []" using validate_relative_safe [OF resolve_target [OF r]] by simp
  then show "restore snap w' = (Inr (), case_store.undo (q, snd snap) w')"
    using txn_inv_placeable [OF assms(1,2,5)] txn_inv_rollback_free [OF assms(1,3,5)] r restore_store [of q w' "fst snap"]
    by (cases snap; cases "snd snap") (simp_all add: restore_def [of "(_, None)"] case_store.undo_def)
  show "txn_inv w T (case_store.undo (q, snd snap) w')"
    using assms by (auto simp: case_store.undo_def intro: txn_inv_put txn_inv_remove
        split: option.split)
qed

lemma snapshot_props:
  assumes "map_result (snapshot w) order = Inr snaps" "(p, v) \<in> set snaps"
  shows "p \<in> set order" "resolve_case_path w p False = Inr (target p)" "v = disk w (target p)"
proof -
  from assms obtain p' where p': "p' \<in> set order" "snapshot w p' = Inr (p, v)"
    using map_result_Inr_set [OF assms(1)] by auto
  then show "p \<in> set order" "resolve_case_path w p False = Inr (target p)" "v = disk w (target p)"
    using resolve_eq_target by (auto simp: snapshot_def disk_def)
qed

lemma snapshot_complete:
  assumes "map_result (snapshot w) order = Inr snaps" "p \<in> set order"
  shows "\<exists>v. (p, v) \<in> set snaps"
proof -
  obtain y where "y \<in> set snaps" "snapshot w p = Inr y"
    using map_result_defined [OF assms] by blast
  then show ?thesis by (auto simp: snapshot_def)
qed

abbreviation undo_all :: "(string \<times> string option) list \<Rightarrow> workspace \<Rightarrow> workspace" where
  "undo_all snaps \<equiv> fold case_store.undo (map (\<lambda>(p, v). (target p, v)) snaps)"

lemma restore_all:
  assumes "txn_inv w T w'" "placeable w T" "rollback_names_free w T"
    and "\<And>p v. (p, v) \<in> set snaps \<Longrightarrow> resolve_case_path w p False = Inr (target p) \<and> target p \<in> T"
  shows "run_steps None (map restore snaps) w' = (Inr (map (\<lambda>_. ()) snaps), undo_all snaps w')"
    and "txn_inv w T (undo_all snaps w')"
proof -
  have "run_steps None (map restore snaps) w' = (Inr (map (\<lambda>_. ()) snaps), undo_all snaps w') \<and>
    txn_inv w T (undo_all snaps w')"
    using assms(1,4)
  proof (induction snaps arbitrary: w')
    case (Cons s snaps)
    obtain p v where s: "s = (p, v)" by force
    with Cons.prems have pv: "resolve_case_path w (fst s) False = Inr (target p)" "target p \<in> T"
      by auto
    note ok = restore_ok [OF Cons.prems(1) assms(2,3) pv]
    have "run_steps None (map restore snaps) (case_store.undo (target p, v) w') =
        (Inr (map (\<lambda>_. ()) snaps), undo_all snaps (case_store.undo (target p, v) w')) \<and>
        txn_inv w T (undo_all snaps (case_store.undo (target p, v) w'))"
      using ok(2) s by (intro Cons.IH) (use Cons.prems(2) in auto)
    then show ?case using ok(1) s by simp
  qed simp
  then show "run_steps None (map restore snaps) w' = (Inr (map (\<lambda>_. ()) snaps), undo_all snaps w')"
    "txn_inv w T (undo_all snaps w')" by auto
qed

lemma undo_all_authored: "ws_authored (undo_all snaps w) = ws_authored w"
  by (induction snaps arbitrary: w)
    (auto simp: case_store.undo_def put_file_def remove_file_def split: option.split)

lemma rollback_restores:
  assumes inv: "txn_inv w T w'" and ok: "placeable w T" "rollback_names_free w T"
    and snaps: "map_result (snapshot w) order = Inr snaps" and T: "T = target ` set order"
  shows "\<exists>w''. rollback authored snaps w' = (Inr (), w'') \<and> disk w'' = disk w \<and>
    ws_authored w'' = authored \<and> same_settings w w''"
proof -
  let ?w = "w'\<lparr>ws_authored := authored\<rparr>"
  have inv': "txn_inv w T ?w" using inv by simp
  have props: "resolve_case_path w p False = Inr (target p) \<and> target p \<in> T"
    if "(p, v) \<in> set snaps" for p v
    using snapshot_props [OF snaps that] T by auto
  note run = restore_all [OF inv' ok props]
  have "disk (undo_all snaps ?w) = disk w"
  proof (rule case_store.undo_log_restores)
    fix q assume "q \<notin> fst ` set (map (\<lambda>(p, v). (target p, v)) snaps)"
    then have "q \<notin> T"
      using snapshot_complete [OF snaps] T by force
    then show "disk ?w q = disk w q" using inv' by (simp add: txn_inv_def)
  next
    fix q v assume "(q, v) \<in> set (map (\<lambda>(p, v). (target p, v)) snaps)"
    then show "v = disk w q" using snapshot_props [OF snaps] by auto
  qed
  then show ?thesis
    using run undo_all_authored [of snaps ?w] by (simp add: rollback_def txn_inv_def)
qed

text \<open>What a transaction asks for, as a function on the store's contents.\<close>

definition case_name :: "string \<Rightarrow> string" where
  "case_name p = strip_char (CHR ''/'') p"

definition requested_disk ::
  "(string \<times> string) list \<Rightarrow> string list \<Rightarrow> (string list \<Rightarrow> string option) \<Rightarrow> string list \<Rightarrow> string option" where
  "requested_disk changes drops d =
     fold (\<lambda>p d. d(target p := None)) drops
       (fold (\<lambda>(p, c) d. d(target p \<mapsto> utf8_encode c)) changes d)"

definition requested_digests ::
  "(string \<Rightarrow> string) \<Rightarrow> (string \<times> string) list \<Rightarrow> (string \<times> string) list" where
  "requested_digests sha changes =
     foldl (\<lambda>m (p, c). AList.update (case_name p) (sha (utf8_encode c)) m) [] changes"

lemma normalized_name: "normalized p = Inr n \<Longrightarrow> n = case_name p"
  by (auto simp: normalized_def case_name_def split: if_splits)

lemma commit_put_Inr:
  assumes "commit_put sha (p, c) w = (Inr r, w')"
  shows "r = Some (case_name p, sha (utf8_encode c))"
    "disk w' = (disk w)(target p \<mapsto> utf8_encode c)"
    "set (ws_authored w') = insert (case_name p) (set (ws_authored w))"
  using assms
  by (auto simp: commit_put_def store_bytes_def bind_result_def disk_put split: sum.splits if_splits
      dest!: resolve_eq_target normalized_name)

lemma commit_drop_Inr:
  assumes "commit_drop p w = (Inr r, w')"
  shows "r = None" "disk w' = (disk w)(target p := None)"
    "set (ws_authored w') = set (ws_authored w) - {p}"
  using assms
  by (auto simp: commit_drop_def disk_remove split: sum.splits dest!: resolve_eq_target)

lemma run_steps_Cons_Inr:
  assumes "run_steps fault (s # ss) w = (Inr rs, w')"
  obtains x xs w1 f' where "s w = (Inr x, w1)" "run_steps f' ss w1 = (Inr xs, w')" "rs = x # xs"
  using assms by (auto split: if_splits prod.splits sum.splits)

lemma run_drops:
  assumes "run_steps fault (map commit_drop drops) w = (Inr rs, w')"
  shows "rs = map (\<lambda>_. None) drops \<and> disk w' = requested_disk [] drops (disk w) \<and>
    set (ws_authored w') = set (ws_authored w) - set drops"
  using assms
proof (induction drops arbitrary: fault w rs)
  case Nil
  then show ?case by (simp add: requested_disk_def split: if_splits)
next
  case (Cons p drops)
  from Cons.prems obtain x xs w1 f' where r: "commit_drop p w = (Inr x, w1)"
    "run_steps f' (map commit_drop drops) w1 = (Inr xs, w')" "rs = x # xs"
    by (auto elim: run_steps_Cons_Inr simp del: run_steps.simps)
  have "requested_disk [] (p # drops) d = requested_disk [] drops (d(target p := None))" for d
    by (simp add: requested_disk_def)
  with Cons.IH [OF r(2)] commit_drop_Inr [OF r(1)] r(3) show ?case
    by (auto simp del: fun_upd_apply)
qed

lemma run_transaction:
  assumes "run_steps fault (map (commit_put sha) changes @ map commit_drop drops) w = (Inr rs, w')"
  shows "rs = map (\<lambda>(p, c). Some (case_name p, sha (utf8_encode c))) changes @ map (\<lambda>_. None) drops \<and>
    disk w' = requested_disk changes drops (disk w) \<and>
    set (ws_authored w') = (set (ws_authored w) \<union> case_name ` fst ` set changes) - set drops"
  using assms
proof (induction changes arbitrary: fault w rs)
  case Nil
  then show ?case using run_drops by simp
next
  case (Cons e changes)
  obtain p c where e: "e = (p, c)" by force
  from Cons.prems obtain x xs w1 f' where r: "commit_put sha e w = (Inr x, w1)"
    "run_steps f' (map (commit_put sha) changes @ map commit_drop drops) w1 = (Inr xs, w')"
    "rs = x # xs"
    by (auto elim: run_steps_Cons_Inr simp del: run_steps.simps)
  have "requested_disk (e # changes) drops d =
      requested_disk changes drops (d(target p \<mapsto> utf8_encode c))" for d
    by (simp add: requested_disk_def e)
  with Cons.IH [OF r(2)] commit_put_Inr [OF r(1) [unfolded e]] r(3) e show ?case
    by (simp del: fun_upd_apply)
qed

lemma digests_of_requested:
  "digests_of (map (\<lambda>(p, c). Some (case_name p, sha (utf8_encode c))) changes @ map (\<lambda>_. None) drops) =
     requested_digests sha changes"
proof -
  have "foldl (\<lambda>m r. case r of None \<Rightarrow> m | Some (p, d) \<Rightarrow> AList.update p d m) m
      (map (\<lambda>_. None) drops) = m" for m :: "(string \<times> string) list"
    by (induction drops) auto
  moreover have "foldl (\<lambda>m r. case r of None \<Rightarrow> m | Some (p, d) \<Rightarrow> AList.update p d m) m
      (map (\<lambda>(p, c). Some (case_name p, sha (utf8_encode c))) changes) =
      foldl (\<lambda>m (p, c). AList.update (case_name p) (sha (utf8_encode c)) m) m changes" for m
    by (induction changes arbitrary: m) auto
  ultimately show ?thesis
    by (simp add: digests_of_def requested_digests_def)
qed

end
