(* ===== verification/Workspace_Safety.thy ===== *)
theory Workspace_Safety
  imports Workspace
begin

text \<open>
  What the workspace of \<^verbatim>\<open>tools/workspace.py\<close> promises: text transactions are atomic under
  file system failures, single writes and patches do exactly what they say, and every operation is
  confined to the case roots.  Three lemmas show where the promises stop: the rollback of clashing
  paths, the size check after a write, and user assets addressed by an alias.
\<close>

section \<open>Transactions\<close>

lemma map_result_normalized:
  "map_result normalized ps = Inr ds \<Longrightarrow> ds = map case_name ps"
  by (induction ps arbitrary: ds) (auto dest: normalized_name)

lemma transaction_plan_Inr:
  assumes "transaction_plan sha w changes drop_paths order = Inr (drops, snaps)"
  shows "drops = dict_fromkeys (map case_name drop_paths)"
    "map_result normalized drop_paths = Inr (map case_name drop_paths)"
    "map_result (snapshot w) order = Inr snaps"
  using assms
  by (auto simp: transaction_plan_def Let_def split: if_splits dest: map_result_normalized)

lemma touched_targets:
  assumes "map_result normalized drop_paths = Inr (map case_name drop_paths)"
  shows "case_name ` set drop_paths \<subseteq> touched changes drop_paths"
proof
  fix n assume "n \<in> case_name ` set drop_paths"
  then obtain p where "p \<in> set drop_paths" "n = case_name p" by blast
  moreover have "normalized p = Inr (case_name p)"
    using map_result_defined [OF assms \<open>p \<in> set drop_paths\<close>] normalized_name by auto
  ultimately show "n \<in> touched changes drop_paths" by (auto simp: touched_def)
qed

text \<open>
  C1: a text transaction is atomic.  Whatever mutation the file system makes
  fail, and in whatever order the rollback (which the file system serves) visits the touched paths, a failing
  transaction leaves
  every file, the authored paths and the settings as they were; a successful one leaves exactly
  the requested contents (the writes in order, then the drops), records the written paths as
  authored and the dropped ones not, returns the digests of the requested texts and is within the
  total budget.  The touched paths must be able to hold files beside each other, and the names
  \<open>.NAME.rollback.tmp\<close> the rollback uses beside them must be free.
\<close>

theorem transaction_atomic:
  assumes order: "set order = touched changes drop_paths"
    and ok: "placeable w (target ` touched changes drop_paths)"
    and free: "rollback_names_free w (target ` touched changes drop_paths)"
  shows "case commit_text_transaction sha fault order w changes drop_paths of
      (Inl e, w') \<Rightarrow>
        disk w' = disk w \<and> ws_authored w' = ws_authored w \<and> same_settings w w'
    | (Inr digests, w') \<Rightarrow>
        (let drops = dict_fromkeys (map case_name drop_paths)
         in disk w' = requested_disk changes drops (disk w) \<and>
            set (ws_authored w') =
              (set (ws_authored w) \<union> case_name ` fst ` set changes) - set drops \<and>
            digests = requested_digests sha changes) \<and>
        same_settings w w' \<and> assert_total_size w' = Inr ()"
proof (cases "transaction_plan sha w changes drop_paths order")
  case (Inl e)
  then show ?thesis by (simp add: commit_text_transaction_def)
next
  case (Inr plan)
  then obtain drops snaps where p: "transaction_plan sha w changes drop_paths order = Inr (drops, snaps)"
    by (cases plan) auto
  note plan = transaction_plan_Inr [OF p]
  let ?T = "target ` touched changes drop_paths"
  let ?steps = "map (commit_put sha) changes @ map commit_drop drops"
  obtain r w1 where run: "run_steps fault ?steps w = (r, w1)" by force
  have "txn_inv w ?T (snd (run_steps fault ?steps w))"
  proof (rule run_steps_invariant)
    fix s w' assume s: "s \<in> set ?steps" and inv: "txn_inv w ?T w'"
    show "txn_inv w ?T (snd (s w'))"
    proof (cases "s \<in> set (map (commit_put sha) changes)")
      case True
      then show ?thesis using inv by (auto simp: touched_def intro!: commit_put_inv)
    next
      case False
      then obtain d where "s = commit_drop d" "d \<in> case_name ` set drop_paths"
        using s plan(1) by auto
      then show ?thesis
        using inv touched_targets [OF plan(2), of changes] by (auto intro!: commit_drop_inv)
    qed
  qed (rule txn_inv_refl)
  then have inv: "txn_inv w ?T w1" using run by simp
  have settings: "same_settings w w1" using inv by (simp add: txn_inv_def)
  obtain w2 where undone: "rollback (ws_authored w) snaps w1 = (Inr (), w2)" "disk w2 = disk w"
      "ws_authored w2 = ws_authored w" "same_settings w w2"
    using rollback_restores [OF inv ok free plan(3)] order by auto
  show ?thesis
  proof (cases r)
    case (Inl e)
    then show ?thesis using p run undone by (simp add: commit_text_transaction_def)
  next
    case (Inr rs)
    note fin = run_transaction [OF run [unfolded Inr]]
    then have "digests_of rs = requested_digests sha changes"
      using digests_of_requested by simp
    then show ?thesis
      using p run undone Inr fin plan(1) settings
      by (cases "assert_total_size w1") (auto simp: commit_text_transaction_def Let_def)
  qed
qed


text \<open>A small workspace: a controlDict and a transport file by the agent and a user geometry.\<close>

definition sample_workspace :: workspace where
  "sample_workspace =
     new_workspace\<lparr>
       ws_files :=
         [([''system'', ''controlDict''], ''endTime 1;''), ([''constant'', ''g''], ''g 9;''),
          ([''constant'', ''triSurface'', ''body.stl''], ''solid'')],
       ws_dirs := [[''system''], [''constant''], [''constant'', ''triSurface'']],
       ws_authored := [''system/controlDict'', ''constant/g''],
       ws_assets := [''constant/triSurface/body.stl'']\<rparr>"

definition sample_changes :: "(string \<times> string) list" where
  "sample_changes = [(''system/controlDict'', ''endTime 2;''), (''0/U'', ''internalField uniform;'')]"

definition faulty_commit :: "(string \<times> string) list ws_result \<times> workspace" where
  "faulty_commit =
     commit_text_transaction id (Some 2) [''0/U'', ''constant/g'', ''system/controlDict'']
       sample_workspace sample_changes [''/constant/g'']"

lemma transaction_atomic_witness:
  "fst faulty_commit = Inl Os_Error \<and> disk (snd faulty_commit) = disk sample_workspace"
proof -
  let ?order = "[''0/U'', ''constant/g'', ''system/controlDict'']"
  have order: "set ?order = touched sample_changes [''/constant/g'']"
    by (auto simp: touched_def sample_changes_def normalized_def strip_char_def)
  have ok: "placeable sample_workspace (target ` touched sample_changes [''/constant/g''])"
    unfolding order [symmetric] placeable_def by code_simp
  have free: "rollback_names_free sample_workspace (target ` touched sample_changes [''/constant/g''])"
    unfolding order [symmetric] rollback_names_free_def by code_simp
  have failed: "fst faulty_commit = Inl Os_Error" unfolding faulty_commit_def by code_simp
  obtain w' where w': "faulty_commit = (Inl Os_Error, w')"
    using failed by (metis prod.collapse)
  from transaction_atomic [OF order ok free, of id "Some 2", folded faulty_commit_def]
  have "disk w' = disk sample_workspace" unfolding w' by simp
  then show ?thesis unfolding w' fst_conv snd_conv by blast
qed

definition clashing_commit :: "string list \<Rightarrow> (string \<times> string) list ws_result \<times> workspace" where
  "clashing_commit order =
     commit_text_transaction id None order sample_workspace
       [(''constant/a'', ''x 1;''), (''constant/a/b'', ''y 2;'')] []"

text \<open>
  The side condition of the atomicity theorem is needed.  A bundle that
  names a file and a path below it fails while it is committed, and whether the rollback removes
  the file already written depends on the iteration order of the set of touched paths: in one
  order the rollback itself raises, and the new file stays in the case although the transaction
  failed and the file is not recorded as authored.
\<close>

lemma rollback_order_matters:
  "(let (r, w) = clashing_commit [''constant/a/b'', ''constant/a'']
    in r = Inl Os_Error \<and> disk w [''constant'', ''a''] = Some ''x 1;'' \<and>
       ''constant/a'' \<notin> set (ws_authored w)) \<and>
   (let (r, w) = clashing_commit [''constant/a'', ''constant/a/b'']
    in r = Inl Os_Error \<and> disk w [''constant'', ''a''] = None)"
  unfolding clashing_commit_def by code_simp

text \<open>
  So is the other one: \<open>.controlDict.rollback.tmp\<close> is a legal name of a case file.  A failing transaction
  that touches \<open>controlDict\<close> overwrites such a file and renames it away, although it reports a rollback; and
  when the name is that of a symbolic link, the old text is written through the link, wherever it leads,
  and the case file is replaced by the link.
\<close>

lemma rollback_consumes_neighbour:
  "(let (r, w) = write_text id sample_workspace ''system/.controlDict.rollback.tmp'' ''notes'';
        (r', w') = commit_text_transaction id (Some 1) [''system/controlDict''] w
          [(''system/controlDict'', ''endTime 2;'')] []
    in r = Inr ''notes'' \<and> r' = Inl Os_Error \<and>
       disk w [''system'', ''.controlDict.rollback.tmp''] = Some ''notes'' \<and>
       disk w' [''system'', ''.controlDict.rollback.tmp''] = None)"
  by code_simp

lemma rollback_follows_link:
  "(let (r, w) = commit_text_transaction id (Some 1) [''system/controlDict'']
          (sample_workspace\<lparr>ws_links := [[''system'', ''.controlDict.rollback.tmp'']]\<rparr>)
          [(''system/controlDict'', ''endTime 2;'')] []
    in r = Inl Os_Error \<and> disk w [''system'', ''controlDict''] = None \<and>
       ws_links w = [[''system'', ''controlDict'']] \<and>
       ws_link_writes w = [([''system'', ''.controlDict.rollback.tmp''], ''endTime 1;'')])"
  by code_simp

section \<open>Single writes\<close>

lemma validate_candidate_text_Inr:
  assumes "validate_candidate_text sha w p c = Inr d"
  shows "d = sha (utf8_encode c)" "forbidden_directives c = []" "case_name p \<notin> set (ws_assets w)"
    "CHR 0x00 \<notin> set c" "int (length (utf8_encode c)) \<le> ws_max_file_bytes w"
    "resolve_case_path w p False = Inr (target p)" "normalized p = Inr (case_name p)"
    "\<exists>libs. library_entries c = Inr libs \<and> set libs \<subseteq> set (ws_allowed_libraries w)"
proof -
  obtain q n where q: "resolve_case_path w p False = Inr q" and n: "normalized p = Inr n"
    and v: "n \<notin> set (ws_assets w)" "validate_content w c p = Inr ()" "d = sha (utf8_encode c)"
      "CHR 0x00 \<notin> set c" "int (length (utf8_encode c)) \<le> ws_max_file_bytes w"
    using assms by (auto simp: validate_candidate_text_def split: if_splits)
  show "d = sha (utf8_encode c)" "CHR 0x00 \<notin> set c"
    "int (length (utf8_encode c)) \<le> ws_max_file_bytes w" using v by simp_all
  show "resolve_case_path w p False = Inr (target p)" using q resolve_eq_target by blast
  show n': "normalized p = Inr (case_name p)" using n normalized_name by blast
  show "case_name p \<notin> set (ws_assets w)" using n n' v(1) by simp
  show "forbidden_directives c = []"
    using v(2) by (auto simp: validate_content_def Let_def split: if_splits)
  show "\<exists>libs. library_entries c = Inr libs \<and> set libs \<subseteq> set (ws_allowed_libraries w)"
    using v(2)
    by (auto simp: validate_content_def Let_def filter_empty_conv split: if_splits sum.splits)
qed

text \<open>
  C19: a successful write stores exactly the given text at the resolved path and
  changes no other file, its content passed the policy (size, NUL bytes, executable directives,
  libraries), its name is not that of a user asset, the path is recorded as authored, the total
  budget holds, and reading the file back gives the text, with its line ends
  translated.  A write that fails leaves the case
  unchanged, unless it fails in the final size check, which comes after the file was stored.
\<close>

theorem write_text_spec:
  "case write_text sha w p content of
     (Inl e, w') \<Rightarrow>
       w' = w \<or>
       disk w' = (disk w)(target p \<mapsto> utf8_encode content) \<and> assert_total_size w' = Inl e
   | (Inr digest, w') \<Rightarrow>
       disk w' = (disk w)(target p \<mapsto> utf8_encode content) \<and> same_settings w w' \<and>
       set (ws_authored w') = insert (case_name p) (set (ws_authored w)) \<and>
       assert_total_size w' = Inr () \<and>
       digest = sha (utf8_encode content) \<and> forbidden_directives content = [] \<and>
       int (length (utf8_encode content)) \<le> ws_max_file_bytes w \<and>
       CHR 0x00 \<notin> set content \<and> case_name p \<notin> set (ws_assets w) \<and>
       (\<exists>libs. library_entries content = Inr libs \<and> set libs \<subseteq> set (ws_allowed_libraries w)) \<and>
       read_text lossy w' p (int (length content)) = Inr (universal_newlines content)"
proof (cases "validate_candidate_text sha w p content")
  case (Inl e)
  then show ?thesis by (simp add: write_text_def)
next
  case (Inr d)
  note v = validate_candidate_text_Inr [OF Inr]
  let ?w = "put_file w (target p) (utf8_encode content)"
  show ?thesis
  proof (cases "store_bytes w (target p) (utf8_encode content) = (Inr (), ?w)")
    case False
    then have "fst (store_bytes w (target p) (utf8_encode content)) = Inl Os_Error"
      "snd (store_bytes w (target p) (utf8_encode content)) = w"
      by (auto simp: store_bytes_def split: if_splits)
    then show ?thesis
      using Inr v by (cases "store_bytes w (target p) (utf8_encode content)") (simp add: write_text_def)
  next
    case True
    let ?w' = "add_authored ?w (case_name p)"
    have wt: "write_text sha w p content = (bind_result (assert_total_size ?w') (\<lambda>_. Inr d), ?w')"
      using Inr v True by (simp add: write_text_def Let_def)
    have dk: "disk ?w' = (disk w)(target p \<mapsto> utf8_encode content)" by (simp add: disk_put)
    have "resolve_case_path ?w' p False = resolve_case_path w p False"
      by (rule resolve_links_cong) (simp add: add_authored_def put_file_def)
    then have "resolve_case_path ?w' p True = Inr (target p)"
      using v(6) dk by (simp add: resolve_Inr_must_exist is_file_disk)
    then have "read_text lossy ?w' p (int (length content)) = Inr (universal_newlines content)"
      using dk length_universal_newlines [of content] by (simp add: read_text_def disk_def)
    then show ?thesis
      using wt dk v by (cases "assert_total_size ?w'") simp_all
  qed
qed

lemma write_text_disk:
  assumes "write_text sha w p content = (Inr d, w')"
  shows "disk w' = (disk w)(target p \<mapsto> utf8_encode content)"
proof -
  obtain d' where d': "validate_candidate_text sha w p content = Inr d'"
    using assms by (cases "validate_candidate_text sha w p content") (auto simp: write_text_def)
  show ?thesis
    using assms d' validate_candidate_text_Inr [OF d']
    by (auto simp: write_text_def store_bytes_def Let_def disk_put split: if_splits)
qed

text \<open>
  The final check of \<open>write_text\<close> does not undo the write: a text that
  exceeds the total budget is refused with an error, but the file has been replaced and stays.
\<close>

lemma oversized_write_stays:
  "(let (r, w') = write_text id (sample_workspace\<lparr>ws_max_total_bytes := 16\<rparr>)
       ''constant/g'' ''g 9.80665;''
    in r = Inl Total_Size_Exceeded \<and> disk w' [''constant'', ''g''] = Some ''g 9.80665;'')"
  by code_simp

text \<open>
  User assets are protected by name only.  The asset
  \<open>constant/triSurface/body.stl\<close> cannot be written under its own name, but under
  \<open>constant//triSurface/body.stl\<close>, which resolves to the same file, the write succeeds and replaces
  the user's geometry.
\<close>

lemma asset_alias_overwritten:
  "write_text id sample_workspace ''constant/triSurface/body.stl'' ''solid x''
     = (Inl Immutable_Asset, sample_workspace) \<and>
   (let (r, w') = write_text id sample_workspace ''constant//triSurface/body.stl'' ''solid x''
    in r = Inr ''solid x'' \<and>
       disk w' [''constant'', ''triSurface'', ''body.stl''] = Some ''solid x'')"
  by code_simp

section \<open>Patching and deleting\<close>

text \<open>
  A successful exact patch replaced the one occurrence of the old fragment
  and nothing else: the stored text is the text before (with its line ends translated) with that
  occurrence exchanged, the fragment occurs nowhere else in it, and no other file changed.
\<close>

theorem patch_text_once_spec:
  assumes "patch_text_once sha lossy w p old new = (Inr d, w')"
    and "disk w (target p) = Some (utf8_encode content)"
    and "int (length content) \<le> ws_max_file_bytes w"
  shows "\<exists>a b. universal_newlines content = a @ old @ b \<and>
    str_count old (universal_newlines content) = 1 \<and> old \<noteq> [] \<and>
    disk w' = (disk w)(target p \<mapsto> utf8_encode (a @ new @ b))"
proof -
  from assms(1) obtain current where cur:
    "old \<noteq> []" "read_text lossy w p (ws_max_file_bytes w + 1) = Inr current"
    "str_count old current = 1" "write_text sha w p (str_replace_first old new current) = (Inr d, w')"
    by (auto simp: patch_text_once_def split: if_splits sum.splits)
  then obtain q where "resolve_case_path w p True = Inr q" by (auto simp: read_text_def)
  then have q: "resolve_case_path w p True = Inr (target p)" using resolve_eq_target by blast
  have current: "current = universal_newlines content"
    using cur(2) q assms(2,3) length_universal_newlines [of content]
    by (simp add: read_text_def disk_def)
  moreover have "sublist old current"
    using cur(3) str_count_zero [OF cur(1), of current] by (metis zero_neq_one)
  ultimately obtain a b where "universal_newlines content = a @ old @ b"
    "str_replace_first old new (universal_newlines content) = a @ new @ b"
    using str_replace_first_split [OF cur(1)] by blast
  then show ?thesis
    using cur current write_text_disk [OF cur(4)] by auto
qed

lemma patch_text_once_spec_witness:
  "(let (r, w') = patch_text_once id id sample_workspace ''constant/g'' ''9'' ''10''
    in r = Inr ''g 10;'') \<and>
   (\<exists>a b. universal_newlines ''g 9;'' = a @ ''9'' @ b \<and> str_count ''9'' (universal_newlines ''g 9;'') = 1)"
proof -
  let ?run = "patch_text_once id id sample_workspace ''constant/g'' ''9'' ''10''"
  have run: "fst ?run = Inr ''g 10;''" by code_simp
  have g: "disk sample_workspace (target ''constant/g'') = Some (utf8_encode ''g 9;'')" by code_simp
  have len: "int (length ''g 9;'') \<le> ws_max_file_bytes sample_workspace" by code_simp
  from run obtain w' where w': "?run = (Inr ''g 10;'', w')" by (metis prod.collapse)
  show ?thesis
    using patch_text_once_spec [OF w' g len] unfolding w' by auto
qed

lemma prune_parents_frame [simp]:
  "disk (prune_parents ds w) = disk w" "ws_authored (prune_parents ds w) = ws_authored w"
  "same_settings v (prune_parents ds w) \<longleftrightarrow> same_settings v w"
  by (induction ds arbitrary: w) (auto simp: disk_def same_settings_def)

section \<open>Confinement\<close>

text \<open>The operations the agent reaches, as calls.\<close>

datatype workspace_call =
    Write_Text string string
  | Patch_Text string string string
  | Delete_Path string
  | Commit_Text "nat option" "string list" "(string \<times> string) list" "string list"

definition perform ::
  "(string \<Rightarrow> string) \<Rightarrow> (string \<Rightarrow> string) \<Rightarrow> workspace_call \<Rightarrow> workspace \<Rightarrow> workspace" where
  "perform sha lossy call w =
     (case call of
        Write_Text p c \<Rightarrow> snd (write_text sha w p c)
      | Patch_Text p old new \<Rightarrow> snd (patch_text_once sha lossy w p old new)
      | Delete_Path p \<Rightarrow> snd (delete w p)
      | Commit_Text fault order changes drops \<Rightarrow>
          snd (commit_text_transaction sha fault order w changes drops))"

text \<open>
  What a path may be when an operation changes it: safe components below a writable root and no
  symbolic link on the way, or the name the rollback uses beside such a path.
\<close>

definition case_place :: "workspace \<Rightarrow> string list \<Rightarrow> bool" where
  "case_place w q \<longleftrightarrow>
     q \<noteq> [] \<and> hd q \<in> set writable_top_level \<and> list_all case_part q \<and> \<not> linked w q"

definition may_change :: "workspace \<Rightarrow> string list \<Rightarrow> bool" where
  "may_change w q \<longleftrightarrow> (\<exists>p. case_place w p \<and> (q = p \<or> q = rollback_path p))"

text \<open>No symbolic link has a name the rollback uses.\<close>

definition no_rollback_links :: "workspace \<Rightarrow> bool" where
  "no_rollback_links w \<longleftrightarrow> list_all (\<lambda>l. l = [] \<or> \<not> ends_with (last l) ''.rollback.tmp'') (ws_links w)"

definition confined :: "workspace \<Rightarrow> workspace \<Rightarrow> bool" where
  "confined w w' \<longleftrightarrow> (no_rollback_links w \<longrightarrow>
     same_settings w w' \<and> (\<forall>q. disk w' q \<noteq> disk w q \<longrightarrow> may_change w q))"

lemma confined_refl [simp]: "confined w w"
  by (simp add: confined_def)

lemma same_links:
  "same_settings w w' \<Longrightarrow> no_rollback_links w' = no_rollback_links w"
  "same_settings w w' \<Longrightarrow> may_change w' q = may_change w q"
  by (simp_all add: same_settings_def no_rollback_links_def may_change_def case_place_def linked_def)

lemma confined_trans:
  assumes "confined w w'" "confined w' w''"
  shows "confined w w''"
  unfolding confined_def
proof (intro impI conjI allI)
  assume links: "no_rollback_links w"
  with assms(1) have w': "same_settings w w'" "\<And>q. disk w' q \<noteq> disk w q \<Longrightarrow> may_change w q"
    by (auto simp: confined_def)
  with assms(2) links have w'': "same_settings w' w''" "\<And>q. disk w'' q \<noteq> disk w' q \<Longrightarrow> may_change w q"
    by (auto simp: confined_def same_links)
  show "same_settings w w''" using w'(1) w''(1) by (simp add: same_settings_def)
  fix q assume "disk w'' q \<noteq> disk w q"
  then show "may_change w q" using w'(2) w''(2) by metis
qed

lemma resolved_case_place: "resolve_case_path w p me = Inr q \<Longrightarrow> case_place w q"
proof -
  assume r: "resolve_case_path w p me = Inr q"
  have "\<not> linked w q" using r by (auto simp: resolve_case_path_def split: if_splits)
  with validate_relative_safe [OF resolve_target [OF r]] show ?thesis
    unfolding case_place_def by blast
qed

lemma case_place_may_change: "case_place w q \<Longrightarrow> may_change w q" "case_place w q \<Longrightarrow> may_change w (rollback_path q)"
  by (auto simp: may_change_def)

lemma resolved_may_change: "resolve_case_path w p me = Inr q \<Longrightarrow> may_change w q"
  by (intro case_place_may_change(1) resolved_case_place)

lemma rollback_path_not_linked: "no_rollback_links w \<Longrightarrow> rollback_path q \<notin> set (ws_links w)"
  by (auto simp: no_rollback_links_def list_all_iff rollback_path_def ends_with_def suffix_def
      dest: bspec [of _ _ "butlast q @ [''.'' @ last q @ ''.rollback.tmp'']"])

lemma confined_put: "may_change w q \<Longrightarrow> confined w (put_file w q b)"
  and confined_remove: "may_change w q \<Longrightarrow> confined w (remove_file w q)"
  by (auto simp: confined_def disk_put disk_remove split: if_splits)

lemma confined_authored [simp]:
  "confined v (add_authored w p) \<longleftrightarrow> confined v w"
  "confined v (discard_authored w p) \<longleftrightarrow> confined v w"
  "confined v (w\<lparr>ws_authored := a\<rparr>) \<longleftrightarrow> confined v w"
  "confined v (prune_parents ds w) \<longleftrightarrow> confined v w"
  by (simp_all add: confined_def)

lemma store_bytes_confined:
  "may_change w q \<Longrightarrow> confined w (snd (store_bytes w q b))"
  by (simp add: store_bytes_def confined_put)

lemma write_bytes_confined:
  "may_change w (rollback_path q) \<Longrightarrow> confined w (snd (write_bytes w (rollback_path q) b))"
  using confined_put rollback_path_not_linked by (auto simp: write_bytes_def confined_def)

lemma replace_path_confined:
  assumes "case_place w q"
  shows "confined w (snd (replace_path w (rollback_path q) q))"
proof -
  have "confined w (put_file (remove_file w (rollback_path q)) q b)" for b
    using assms case_place_may_change [OF assms] by (auto simp: confined_def disk_put disk_remove split: if_splits)
  then show ?thesis
    using rollback_path_not_linked [of w q] by (auto simp: replace_path_def confined_def split: option.split)
qed

lemma write_text_confined: "confined w (snd (write_text sha w p c))"
proof (cases "validate_candidate_text sha w p c")
  case (Inr d)
  note v = validate_candidate_text_Inr [OF Inr]
  have "confined w (snd (store_bytes w (target p) (utf8_encode c)))"
    using v(6) by (intro store_bytes_confined resolved_may_change)
  then show ?thesis
    using Inr v by (auto simp: write_text_def Let_def split: prod.split sum.split)
qed (simp add: write_text_def)

lemma commit_put_confined: "confined w (snd (commit_put sha change w))"
proof (cases "resolve_case_path w (fst change) False")
  case (Inr q)
  have "confined w (snd (store_bytes w q (utf8_encode (snd change))))"
    using Inr by (intro store_bytes_confined resolved_may_change)
  then show ?thesis
    using Inr by (auto simp: commit_put_def bind_result_def split: sum.split prod.split)
qed (simp add: commit_put_def)

lemma commit_drop_confined: "confined w (snd (commit_drop p w))"
  by (cases "resolve_case_path w p True")
    (auto simp: commit_drop_def intro!: confined_remove resolved_may_change)

lemma case_place_settings: "same_settings w w' \<Longrightarrow> case_place w' q = case_place w q"
  by (simp add: case_place_def linked_def same_settings_def)

lemma restore_confined: "confined w (snd (restore snap w))"
proof (cases "resolve_case_path w (fst snap) False")
  case (Inr q)
  then have place: "case_place w q" by (rule resolved_case_place)
  note q = case_place_may_change [OF place]
  show ?thesis
  proof (cases "snd snap")
    case None
    then show ?thesis using Inr confined_remove [OF q(1)] by (simp add: restore_def)
  next
    case (Some b)
    obtain r w' where written: "write_bytes w (rollback_path q) b = (r, w')" by force
    have one: "confined w w'" using write_bytes_confined [OF q(2), of b] written by simp
    have "confined w (snd (replace_path w' (rollback_path q) q))"
    proof (cases "no_rollback_links w")
      case True
      then have "same_settings w w'" using one by (simp add: confined_def)
      then have "case_place w' q" using place case_place_settings by simp
      with one show ?thesis using replace_path_confined confined_trans by blast
    qed (simp add: confined_def)
    with one show ?thesis using Inr Some written by (cases r) (simp_all add: restore_def)
  qed
qed (simp add: restore_def)

lemma run_steps_confined:
  assumes "\<And>s w. s \<in> set ss \<Longrightarrow> confined w (snd (s w))"
  shows "confined w (snd (run_steps fault ss w))"
  by (rule run_steps_invariant [where I = "confined w"])
    (use assms confined_trans in blast, rule confined_refl)

lemma rollback_confined: "confined w (snd (rollback a snaps w))"
proof -
  have "confined (w\<lparr>ws_authored := a\<rparr>) (snd (run_steps None (map restore snaps) (w\<lparr>ws_authored := a\<rparr>)))"
    by (rule run_steps_confined) (auto simp: restore_confined)
  then have "confined w (snd (run_steps None (map restore snaps) (w\<lparr>ws_authored := a\<rparr>)))"
    by (rule confined_trans [rotated]) simp
  then show ?thesis by (auto simp: rollback_def split: prod.split sum.split)
qed

lemma commit_confined: "confined w (snd (commit_text_transaction sha fault order w changes drops))"
proof (cases "transaction_plan sha w changes drops order")
  case (Inr plan)
  obtain ds snaps where plan: "plan = (ds, snaps)" by force
  let ?run = "run_steps fault (map (commit_put sha) changes @ map commit_drop ds) w"
  have run: "confined w (snd ?run)"
    by (rule run_steps_confined) (auto simp: commit_put_confined commit_drop_confined)
  then have "confined w (snd (rollback (ws_authored w) snaps (snd ?run)))"
    using rollback_confined confined_trans by blast
  with run show ?thesis
    using Inr plan
    by (auto simp: commit_text_transaction_def split: prod.split sum.split)
qed (simp add: commit_text_transaction_def)

lemma delete_confined: "confined w (snd (delete w p))"
proof (cases "normalized p")
  case (Inr n)
  then show ?thesis
    by (cases "resolve_case_path w n True")
      (auto simp: delete_def intro!: confined_remove resolved_may_change)
qed (simp add: delete_def)

lemma patch_confined: "confined w (snd (patch_text_once sha lossy w p old new))"
  by (cases "read_text lossy w p (ws_max_file_bytes w + 1)")
    (simp_all add: patch_text_once_def write_text_confined)

lemma perform_confined: "confined w (perform sha lossy call w)"
  by (cases call)
    (simp_all add: perform_def write_text_confined delete_confined commit_confined patch_confined)

text \<open>
  C16: no sequence of writes, patches, deletions and transactions, failing or
  not, and interrupted by file system failures or not, changes a file outside the case roots
  \<open>0\<close>, \<open>constant\<close>, \<open>system\<close> and \<open>postprocessConfig\<close>, at a path with a component outside
  \<open>[A-Za-z0-9_.-]\<close> or equal to \<open>.\<close> or \<open>..\<close>, or behind a symbolic link, except the name a rollback uses beside
  such a path; nor does it write through a link, change the links, the limits, the recorded assets or the
  allowed libraries.  No link of the case may have a name \<open>.NAME.rollback.tmp\<close>, which a rollback would follow.
\<close>

theorem workspace_confined:
  assumes "no_rollback_links w"
  shows "same_settings w (fold (perform sha lossy) calls w) \<and>
   (\<forall>q. disk (fold (perform sha lossy) calls w) q = disk w q \<or>
     (\<exists>p. (q = p \<or> q = rollback_path p) \<and> p \<noteq> [] \<and>
        hd p \<in> {''0'', ''constant'', ''system'', ''postprocessConfig''} \<and> list_all case_part p \<and> \<not> linked w p))"
proof -
  have "confined w (fold (perform sha lossy) calls w)"
    by (induction calls arbitrary: w) (auto intro: confined_trans perform_confined)
  then show ?thesis
    using assms by (fastforce simp: confined_def may_change_def case_place_def writable_top_level_def)
qed

definition sample_calls :: "workspace_call list" where
  "sample_calls =
     [Write_Text ''system/fvSchemes'' ''ddtSchemes;'', Patch_Text ''constant/g'' ''9'' ''10'',
      Commit_Text (Some 2) [''0/U'', ''constant/g'', ''system/controlDict''] sample_changes [''/constant/g''],
      Delete_Path ''constant/g'']"

lemma workspace_confined_witness:
  "same_settings sample_workspace (fold (perform id id) sample_calls sample_workspace) \<and>
   disk (fold (perform id id) sample_calls sample_workspace) [''constant'', ''g''] \<noteq> disk sample_workspace [''constant'', ''g'']"
proof -
  have "no_rollback_links sample_workspace" by code_simp
  from workspace_confined [OF this, of id id sample_calls]
  have "same_settings sample_workspace (fold (perform id id) sample_calls sample_workspace)" by blast
  moreover have "disk (fold (perform id id) sample_calls sample_workspace) [''constant'', ''g''] \<noteq>
      disk sample_workspace [''constant'', ''g'']" by code_simp
  ultimately show ?thesis by blast
qed

end
