(* ===== verification/Case_Seals.thy ===== *)
theory Case_Seals
  imports Workspace_Safety
begin

text \<open>
  Sealing and result reading of \<^verbatim>\<open>tools/workspace.py\<close>: the seals of the execution inputs, the
  case seal and its verification, the mesh manifest, and the read-only access to native results.

  SHA-256 of a file's bytes is the argument \<open>sha\<close>; the digest of a list of seals, SHA-256 of its
  JSON text, is the argument \<open>mdigest\<close>, applied to the seals sorted by path as in the source.
\<close>

section \<open>Seals\<close>

datatype origin = Agent | Native | User_Asset

record file_seal =
  fs_path :: string
  fs_sha256 :: string
  fs_size_bytes :: nat
  fs_origin :: origin

record case_seal =
  cs_plan_sha256 :: string
  cs_manifest_sha256 :: string
  cs_files :: "file_seal list"

definition posix_join :: "string list \<Rightarrow> string" where
  "posix_join parts = join ''/'' parts"

text \<open>The regular files below the three input roots, in the order of their components.\<close>

definition execution_paths :: "workspace \<Rightarrow> string list list" where
  "execution_paths w =
     sort (filter (\<lambda>q. length q \<ge> 2 \<and> hd q \<in> set execution_input_top_level)
       (map fst (ws_files w)))"

definition execution_links :: "workspace \<Rightarrow> string list list" where
  "execution_links w =
     filter (\<lambda>q. length q \<ge> 2 \<and> hd q \<in> set execution_input_top_level) (ws_links w)"

definition origin_of :: "workspace \<Rightarrow> string \<Rightarrow> origin" where
  "origin_of w p =
     (if p \<in> set (ws_assets w) then User_Asset
      else if p \<in> set (ws_authored w) then Agent else Native)"

text \<open>The model \<open>CaseFileSeal\<close> of \<^verbatim>\<open>schemas/engineering.py\<close> bounds the length of its path.\<close>

definition make_file_seal :: "string \<Rightarrow> string \<Rightarrow> nat \<Rightarrow> origin \<Rightarrow> file_seal ws_result" where
  "make_file_seal p digest bytes orig =
     (if p = [] \<or> length p > 240 then Inl (Seal_Path_Too_Long p)
      else Inr \<lparr>fs_path = p, fs_sha256 = digest, fs_size_bytes = bytes, fs_origin = orig\<rparr>)"

definition file_seal_of ::
  "(string \<Rightarrow> string) \<Rightarrow> workspace \<Rightarrow> string list \<Rightarrow> file_seal ws_result" where
  "file_seal_of sha w q =
     bind_result (validate_relative (posix_join q)) (\<lambda>_.
       make_file_seal (posix_join q) (sha (get_default [] (map_of (ws_files w) q)))
         (file_size w q) (origin_of w (posix_join q)))"

definition execution_file_seals ::
  "(string \<Rightarrow> string) \<Rightarrow> workspace \<Rightarrow> file_seal list ws_result" where
  "execution_file_seals sha w =
     (if execution_links w \<noteq> [] then Inl (Linked_Execution_Input (hd (execution_links w)))
      else
        let paths = execution_paths w
        in if int (length paths) > ws_max_execution_files w then Inl (Too_Many_Inputs (length paths))
           else if int (sum_list (map (file_size w) paths)) > ws_max_execution_bytes w
           then Inl Execution_Inputs_Too_Large
           else map_result (file_seal_of sha w) paths)"

definition seal_manifest_digest :: "(file_seal list \<Rightarrow> string) \<Rightarrow> file_seal list \<Rightarrow> string" where
  "seal_manifest_digest mdigest files = mdigest (sort_key fs_path files)"

definition manifest_digest ::
  "(string \<Rightarrow> string) \<Rightarrow> (file_seal list \<Rightarrow> string) \<Rightarrow> workspace \<Rightarrow> string ws_result" where
  "manifest_digest sha mdigest w =
     bind_result (execution_file_seals sha w) (\<lambda>files. Inr (seal_manifest_digest mdigest files))"

text \<open>
  A path of the mesh pipeline.  The exact paths and prefixes of the source that the earlier rules
  cover already are kept; the suffix rule applies below \<open>constant/\<close>.
\<close>

definition mesh_dictionary_names :: "string list" where
  "mesh_dictionary_names =
     [''blockMeshDict'', ''snappyHexMeshDict'', ''surfaceFeatureExtractDict'',
      ''surfaceFeaturesDict'', ''createPatchDict'', ''topoSetDict'', ''extrudeMeshDict'',
      ''decomposeParDict'', ''meshQualityDict'']"

definition mesh_exact_paths :: "string list" where
  "mesh_exact_paths =
     [''system/blockMeshDict'', ''system/surfaceFeatureExtractDict'',
      ''system/surfaceFeaturesDict'', ''system/snappyHexMeshDict'', ''system/createPatchDict'']"

definition mesh_geometry_suffixes :: "string list" where
  "mesh_geometry_suffixes =
     [''.stl'', ''.obj'', ''.emesh'', ''.vtk'', ''.vtp'', ''.off'', ''.nas'', ''.bdf'']"

text \<open>On a path without components the source raises an \<open>IndexError\<close>; no caller passes one.\<close>

definition is_mesh_affecting_path :: "string \<Rightarrow> bool ws_result" where
  "is_mesh_affecting_path p =
     bind_result (normalized p) (\<lambda>n.
       let parts = path_parts n
       in if parts = [] then Inl (Unsafe_Case_Path p)
          else Inr
            (length parts \<ge> 3 \<and> hd parts = ''constant'' \<and> ''polyMesh'' \<in> set (take 2 (drop 1 parts)) \<or>
             hd parts = ''system'' \<and> last parts \<in> set mesh_dictionary_names \<or>
             n \<in> set mesh_exact_paths \<or>
             starts_with n ''constant/polyMesh/'' \<or> starts_with n ''constant/triSurface/'' \<or>
             starts_with n ''constant/'' \<and> casefold (path_suffix n) \<in> set mesh_geometry_suffixes))"

fun filter_result :: "('a \<Rightarrow> 'e + bool) \<Rightarrow> 'a list \<Rightarrow> 'e + 'a list" where
  "filter_result f [] = Inr []"
| "filter_result f (x # xs) =
     bind_result (f x) (\<lambda>b. bind_result (filter_result f xs) (\<lambda>ys. Inr (if b then x # ys else ys)))"

definition mesh_manifest_digest ::
  "(string \<Rightarrow> string) \<Rightarrow> (file_seal list \<Rightarrow> string) \<Rightarrow> workspace \<Rightarrow> string ws_result" where
  "mesh_manifest_digest sha mdigest w =
     bind_result (execution_file_seals sha w) (\<lambda>files.
       bind_result (filter_result (\<lambda>f. is_mesh_affecting_path (fs_path f)) files) (\<lambda>mesh_files.
         Inr (seal_manifest_digest mdigest mesh_files)))"

definition file_seals :: "(string \<Rightarrow> string) \<Rightarrow> workspace \<Rightarrow> file_seal list ws_result" where
  "file_seals sha w =
     bind_result (list_authored w) (map_result (\<lambda>p.
       bind_result (resolve_case_path w p True) (\<lambda>q.
         let bytes = get_default [] (map_of (ws_files w) q)
         in make_file_seal p (sha bytes) (length bytes) Agent)))"

section \<open>Sealing a case\<close>

text \<open>The failures \<open>validate_all_content\<close> collects, or what it raises itself.\<close>

definition content_failures :: "workspace \<Rightarrow> string \<Rightarrow> workspace_error list ws_result" where
  "content_failures w p =
     bind_result (resolve_case_path w p True) (\<lambda>q.
       case utf8_decode (get_default [] (map_of (ws_files w) q)) of
         None \<Rightarrow> Inr [Not_Utf8 p]
       | Some content \<Rightarrow>
           (case validate_content w (universal_newlines content) p of Inl e \<Rightarrow> Inr [e] | Inr _ \<Rightarrow> Inr []))"

definition validate_all_content :: "workspace \<Rightarrow> workspace_error list ws_result" where
  "validate_all_content w =
     bind_result (list_authored w) (\<lambda>ps.
       bind_result (map_result (content_failures w) ps) (\<lambda>failures.
         Inr (concat failures @
           (case assert_total_size w of Inl e \<Rightarrow> [e] | Inr _ \<Rightarrow> []))))"

definition seal ::
  "(string \<Rightarrow> string) \<Rightarrow> (file_seal list \<Rightarrow> string) \<Rightarrow> workspace \<Rightarrow> string \<Rightarrow> case_seal ws_result" where
  "seal sha mdigest w plan_digest =
     (if ws_authored w = [] \<and> ws_assets w = [] then Inl Empty_Workspace
      else bind_result (validate_all_content w) (\<lambda>failures.
        if failures \<noteq> [] then Inl (Invalid_Content failures)
        else bind_result (execution_file_seals sha w) (\<lambda>files.
          Inr \<lparr>cs_plan_sha256 = plan_digest,
               cs_manifest_sha256 = seal_manifest_digest mdigest files, cs_files = files\<rparr>)))"

text \<open>
  \<open>adopt_seal\<close> resets the recorded assets before the loop, so a missing file leaves a workspace
  with the assets read so far and the authored paths as before.
\<close>

fun adopt_files ::
  "file_seal list \<Rightarrow> string list \<Rightarrow> workspace \<Rightarrow> string list ws_result \<times> workspace" where
  "adopt_files [] authored w = (Inr authored, w)"
| "adopt_files (f # fs) authored w =
     (case resolve_case_path w (fs_path f) True of
        Inl e \<Rightarrow> (Inl e, w)
      | Inr _ \<Rightarrow>
          adopt_files fs
            (if fs_origin f = Agent then List.insert (fs_path f) authored else authored)
            (if fs_origin f = User_Asset
             then w\<lparr>ws_assets := List.insert (fs_path f) (ws_assets w)\<rparr> else w))"

definition adopt_seal :: "workspace \<Rightarrow> case_seal \<Rightarrow> unit ws_result \<times> workspace" where
  "adopt_seal w s =
     (case adopt_files (cs_files s) [] (w\<lparr>ws_assets := []\<rparr>) of
        (Inl e, w') \<Rightarrow> (Inl e, w')
      | (Inr authored, w') \<Rightarrow> (Inr (), w'\<lparr>ws_authored := authored\<rparr>))"

definition by_path :: "file_seal list \<Rightarrow> (string \<times> file_seal) list" where
  "by_path files = foldl (\<lambda>m f. AList.update (fs_path f) f m) [] files"

definition compare_seal ::
  "(string \<times> file_seal) list \<Rightarrow> string \<times> file_seal \<Rightarrow> unit ws_result" where
  "compare_seal current entry =
     (case map_of current (fst entry) of
        None \<Rightarrow> Inl Input_Set_Changed
      | Some actual \<Rightarrow>
          if fs_sha256 actual \<noteq> fs_sha256 (snd entry) \<or>
             fs_size_bytes actual \<noteq> fs_size_bytes (snd entry)
          then Inl (Input_Changed (fst entry))
          else if fs_origin actual \<noteq> fs_origin (snd entry)
          then Inl (Input_Origin_Changed (fst entry))
          else Inr ())"

definition verify_seal ::
  "(string \<Rightarrow> string) \<Rightarrow> (file_seal list \<Rightarrow> string) \<Rightarrow> workspace \<Rightarrow> case_seal \<Rightarrow> string \<Rightarrow>
     unit ws_result" where
  "verify_seal sha mdigest w s plan_digest =
     (if plan_digest \<noteq> cs_plan_sha256 s then Inl Plan_Changed
      else
        let expected = by_path (cs_files s)
        in bind_result (execution_file_seals sha w) (\<lambda>files.
          let current = by_path files
          in if set (map fst expected) \<noteq> set (map fst current) then Inl Input_Set_Changed
             else bind_result (map_result (compare_seal current) expected) (\<lambda>_.
               if seal_manifest_digest mdigest (map snd (sort_key fst current)) \<noteq>
                    cs_manifest_sha256 s
               then Inl Manifest_Changed else Inr ())))"

definition write_postprocess_config ::
  "(string \<Rightarrow> string) \<Rightarrow> workspace \<Rightarrow> string \<Rightarrow> string \<Rightarrow> string ws_result \<times> workspace" where
  "write_postprocess_config sha w p content =
     (case normalized p of
        Inl e \<Rightarrow> (Inl e, w)
      | Inr n \<Rightarrow>
          if \<not> starts_with n ''postprocessConfig/'' then (Inl Not_Postprocess_Config, w)
          else write_text sha w n content)"

section \<open>Native results\<close>

text \<open>\<open>^(?:\d+(?:\.\d*)?|\.\d+)(?:[eE][-+]?\d+)?$\<close>\<close>

definition exponent_or_end :: "string \<Rightarrow> bool" where
  "exponent_or_end s =
     (case s of
        [] \<Rightarrow> True
      | c # cs \<Rightarrow>
          c \<in> set ''eE'' \<and>
          (let ds = (case cs of [] \<Rightarrow> [] | d # ds \<Rightarrow> if d \<in> set ''-+'' then ds else cs)
           in ds \<noteq> [] \<and> list_all is_digit ds))"

definition time_dir :: "string \<Rightarrow> bool" where
  "time_dir s =
     (let whole = takeWhile is_digit s; rest = dropWhile is_digit s
      in if whole \<noteq> []
         then exponent_or_end
           (if starts_with rest ''.'' then dropWhile is_digit (tl rest) else rest)
         else starts_with rest ''.'' \<and> takeWhile is_digit (tl rest) \<noteq> [] \<and>
           exponent_or_end (dropWhile is_digit (tl rest)))"

definition normalized_result :: "string \<Rightarrow> string ws_result" where
  "normalized_result p =
     bind_result (normalized p) (\<lambda>n.
       let parts = path_parts n
       in if parts = [] \<or> path_root n \<noteq> [] then Inl (Unsafe_Result_Path p)
          else if \<not> list_all case_part parts then Inl (Unsafe_Result_Path p)
          else if hd parts \<noteq> ''postProcessing'' \<and> \<not> time_dir (hd parts)
          then Inl (Outside_Result_Roots p)
          else Inr n)"

definition resolve_result_path :: "workspace \<Rightarrow> string \<Rightarrow> bool \<Rightarrow> string list ws_result" where
  "resolve_result_path w p must_exist =
     bind_result (normalized_result p) (\<lambda>n.
       let parts = path_parts n
       in if linked w parts then Inl (Symlink_Component p)
          else if must_exist \<and> \<not> is_file w parts then Inl (No_Such_Result_File p)
          else Inr parts)"

definition result_roots :: "workspace \<Rightarrow> string list" where
  "result_roots w =
     filter (\<lambda>r. r = ''postProcessing'' \<or> time_dir r)
       (map hd (filter (\<lambda>d. length d = 1) (ws_dirs w)))"

definition list_result_files :: "workspace \<Rightarrow> string \<Rightarrow> int \<Rightarrow> (string \<times> nat) list" where
  "list_result_files w pre max_files =
     (let wanted = strip_char (CHR ''/'') pre;
          paths = sort (filter (\<lambda>q. length q \<ge> 2 \<and> hd q \<in> set (result_roots w)) (map fst (ws_files w)));
          kept = filter (\<lambda>q. (case normalized_result (posix_join q) of Inl _ \<Rightarrow> False | Inr _ \<Rightarrow> True) \<and>
            (wanted = [] \<or> starts_with (posix_join q) wanted)) paths
      in map (\<lambda>q. (posix_join q, file_size w q)) (take (nat (max 1 max_files)) kept))"

definition read_result_text ::
  "(string \<Rightarrow> string) \<Rightarrow> workspace \<Rightarrow> string \<Rightarrow> nat \<Rightarrow> string ws_result" where
  "read_result_text lossy w p max_chars =
     bind_result (resolve_result_path w p True) (\<lambda>q.
       let bytes = get_default [] (map_of (ws_files w) q);
           data = universal_newlines (get_default (lossy bytes) (utf8_decode bytes))
       in Inr (if length data > max_chars then take max_chars data @ truncation_mark else data))"

definition result_file_digest ::
  "(string \<Rightarrow> string) \<Rightarrow> workspace \<Rightarrow> string \<Rightarrow> (string \<times> nat) ws_result" where
  "result_file_digest sha w p =
     bind_result (resolve_result_path w p True) (\<lambda>q.
       Inr (sha (get_default [] (map_of (ws_files w) q)), file_size w q))"

section \<open>Well-formed stores\<close>

text \<open>One entry per path, and file names as a POSIX file system allows them.\<close>

definition store_ok :: "workspace \<Rightarrow> bool" where
  "store_ok w \<longleftrightarrow>
     distinct (map fst (ws_files w)) \<and>
     (\<forall>q \<in> fst ` set (ws_files w). q \<noteq> [] \<and> (\<forall>c \<in> set q. plain_component c))"

lemma case_part_plain: "case_part c \<Longrightarrow> plain_component c"
proof -
  assume c: "case_part c"
  have "CHR ''/'' \<notin> set c"
  proof
    assume "CHR ''/'' \<in> set c"
    then have "is_alpha (CHR ''/'') \<or> is_digit (CHR ''/'') \<or> CHR ''/'' \<in> set ''_.-''"
      using c unfolding case_part_def safe_part_def list_all_iff by blast
    then show False by (simp add: is_alpha_def is_digit_def)
  qed
  with c show ?thesis by (auto simp: case_part_def safe_part_def plain_component_def)
qed

lemma posix_join_inject:
  assumes "store_ok w" "q \<in> fst ` set (ws_files w)" "store_ok w'" "r \<in> fst ` set (ws_files w')"
  shows "posix_join q = posix_join r \<longleftrightarrow> q = r"
  using assms unfolding store_ok_def posix_join_def by (intro join_slash_inject) auto

section \<open>The seals of a case\<close>

definition input_path :: "string list \<Rightarrow> bool" where
  "input_path q \<longleftrightarrow> length q \<ge> 2 \<and> hd q \<in> set execution_input_top_level"

lemma set_execution_paths:
  "set (execution_paths w) = {q \<in> fst ` set (ws_files w). input_path q}"
  by (auto simp: execution_paths_def input_path_def)

lemma disk_Some_iff: "(\<exists>b. disk w q = Some b) \<longleftrightarrow> q \<in> fst ` set (ws_files w)"
  unfolding disk_def by (metis dom_map_of_conv_image_fst domIff not_Some_eq)

lemma file_seal_of_Inr:
  "file_seal_of sha w q = Inr f \<Longrightarrow>
     f = \<lparr>fs_path = posix_join q, fs_sha256 = sha (get_default [] (disk w q)),
          fs_size_bytes = file_size w q, fs_origin = origin_of w (posix_join q)\<rparr>"
  by (auto simp: file_seal_of_def make_file_seal_def disk_def split: if_splits)

definition the_seal :: "(string \<Rightarrow> string) \<Rightarrow> workspace \<Rightarrow> string list \<Rightarrow> file_seal" where
  "the_seal sha w q =
     \<lparr>fs_path = posix_join q, fs_sha256 = sha (get_default [] (disk w q)),
      fs_size_bytes = file_size w q, fs_origin = origin_of w (posix_join q)\<rparr>"

lemma the_seal_path [simp]: "fs_path (the_seal sha w q) = posix_join q"
  by (simp add: the_seal_def)

lemma map_result_eq_map:
  assumes "map_result f xs = Inr ys" "\<And>x y. f x = Inr y \<Longrightarrow> y = g x"
  shows "ys = map g xs"
  using assms by (induction xs arbitrary: ys) auto

lemma execution_file_seals_Inr:
  assumes "execution_file_seals sha w = Inr files"
  shows "files = map (the_seal sha w) (execution_paths w)"
  using assms file_seal_of_Inr
  by (auto simp: execution_file_seals_def Let_def the_seal_def split: if_splits
      intro!: map_result_eq_map)

lemma distinct_execution_paths: "store_ok w \<Longrightarrow> distinct (execution_paths w)"
  by (simp add: execution_paths_def store_ok_def)

lemma distinct_seal_paths:
  assumes "store_ok w" "execution_file_seals sha w = Inr files"
  shows "distinct (map fs_path files)"
proof -
  have "map fs_path files = map posix_join (execution_paths w)"
    using execution_file_seals_Inr [OF assms(2)] by simp
  moreover have "inj_on posix_join (set (execution_paths w))"
    using posix_join_inject [OF assms(1) _ assms(1)] by (auto simp: inj_on_def set_execution_paths)
  ultimately show ?thesis
    using distinct_execution_paths [OF assms(1)] by (simp add: distinct_map)
qed

lemma update_fresh: "k \<notin> fst ` set m \<Longrightarrow> AList.update k v m = m @ [(k, v)]"
  by (induction m) auto

lemma by_path_distinct:
  assumes "distinct (map fs_path files)"
  shows "by_path files = map (\<lambda>f. (fs_path f, f)) files"
proof -
  have "foldl (\<lambda>m f. AList.update (fs_path f) f m) m files = m @ map (\<lambda>f. (fs_path f, f)) files"
    if "distinct (map fs_path files)" "fst ` set m \<inter> fs_path ` set files = {}" for m
    using that
  proof (induction files arbitrary: m)
    case (Cons f files)
    then have "AList.update (fs_path f) f m = m @ [(fs_path f, f)]"
      by (intro update_fresh) auto
    with Cons show ?case by auto
  qed simp
  with assms show ?thesis by (simp add: by_path_def)
qed

lemma map_of_by_path:
  assumes "distinct (map fs_path files)" "f \<in> set files"
  shows "map_of (map (\<lambda>f. (fs_path f, f)) files) (fs_path f) = Some f"
proof (rule map_of_is_SomeI)
  have "map fst (map (\<lambda>f. (fs_path f, f)) files) = map fs_path files" by simp
  with assms(1) show "distinct (map fst (map (\<lambda>f. (fs_path f, f)) files))" by (simp only:)
qed (use assms(2) in auto)

lemma map_snd_sort_by_path:
  "map snd (sort_key fst (map (\<lambda>f. (fs_path f, f)) files)) = sort_key fs_path files"
proof -
  have ins: "insort_key fst (fs_path f, f) (map (\<lambda>f. (fs_path f, f)) fs) =
      map (\<lambda>f. (fs_path f, f)) (insort_key fs_path f fs)" for f fs
    by (induction fs) auto
  have "sort_key fst (map (\<lambda>f. (fs_path f, f)) files) = map (\<lambda>f. (fs_path f, f)) (sort_key fs_path files)"
    by (induction files) (simp_all add: ins)
  then show ?thesis by (simp add: comp_def)
qed

lemma sort_key_idem: "sort_key f (sort_key f xs) = sort_key f xs"
  by (simp add: sort_key_id_if_sorted)

text \<open>
  A seal verifies against the case it was taken from, with the same plan: the
  comparison of the file sets, of every digest, size and origin, and of the manifest succeed.
\<close>

theorem seal_then_verify:
  assumes "store_ok w" and "seal sha mdigest w plan_digest = Inr s"
  shows "verify_seal sha mdigest w s plan_digest = Inr ()"
proof -
  from assms(2) obtain files where files: "execution_file_seals sha w = Inr files"
    and s: "s = \<lparr>cs_plan_sha256 = plan_digest,
      cs_manifest_sha256 = seal_manifest_digest mdigest files, cs_files = files\<rparr>"
    by (auto simp: seal_def split: if_splits)
  note dist = distinct_seal_paths [OF assms(1) files]
  note bp = by_path_distinct [OF dist]
  have "compare_seal (by_path files) e = Inr ()" if "e \<in> set (by_path files)" for e
    using that map_of_by_path [OF dist] by (auto simp: bp compare_seal_def)
  then have "map_result (compare_seal (by_path files)) (by_path files) = Inr (map (\<lambda>_. ()) (by_path files))"
    by (intro map_result_total) auto
  moreover have "seal_manifest_digest mdigest (map snd (sort_key fst (by_path files))) =
      seal_manifest_digest mdigest files"
    by (simp add: bp map_snd_sort_by_path seal_manifest_digest_def sort_key_idem)
  ultimately show ?thesis
    using files s by (simp add: verify_seal_def Let_def)
qed

lemma seal_files_on_disk:
  assumes "store_ok w" "store_ok w'" "seal sha mdigest w plan_digest = Inr s"
    and "verify_seal sha mdigest w' s plan_digest' = Inr ()"
  shows "execution_paths w' = execution_paths w \<and>
    (\<forall>q \<in> set (execution_paths w). sha (get_default [] (disk w' q)) = sha (get_default [] (disk w q)) \<and>
      origin_of w' (posix_join q) = origin_of w (posix_join q))"
proof -
  from assms(3) obtain files where files: "execution_file_seals sha w = Inr files"
    and s: "cs_files s = files"
    by (auto simp: seal_def split: if_splits)
  from assms(4) obtain files' us where files': "execution_file_seals sha w' = Inr files'"
    and keys: "set (map fst (by_path files)) = set (map fst (by_path files'))"
    and cmp: "map_result (compare_seal (by_path files')) (by_path files) = Inr us"
    using s by (auto simp: verify_seal_def Let_def split: if_splits)
  note bp = by_path_distinct [OF distinct_seal_paths [OF assms(1) files]]
  note bp' = by_path_distinct [OF distinct_seal_paths [OF assms(2) files']]
  note eq = execution_file_seals_Inr [OF files] execution_file_seals_Inr [OF files']
  have paths: "posix_join ` set (execution_paths w) = posix_join ` set (execution_paths w')"
    using keys [unfolded bp bp'] unfolding eq by (simp add: image_image comp_def)
  have dom: "q \<in> fst ` set (ws_files w)" if "q \<in> set (execution_paths w)" for q
    using that by (simp add: set_execution_paths)
  have dom': "q \<in> fst ` set (ws_files w')" if "q \<in> set (execution_paths w')" for q
    using that by (simp add: set_execution_paths)
  have sub: "set (execution_paths w) = set (execution_paths w')"
  proof (intro equalityI subsetI)
    fix q assume q: "q \<in> set (execution_paths w)"
    then obtain r where "r \<in> set (execution_paths w')" "posix_join q = posix_join r"
      using paths by blast
    then show "q \<in> set (execution_paths w')"
      using posix_join_inject [OF assms(1) dom [OF q] assms(2) dom'] by metis
  next
    fix q assume q: "q \<in> set (execution_paths w')"
    then obtain r where "r \<in> set (execution_paths w)" "posix_join q = posix_join r"
      using paths by blast
    then show "q \<in> set (execution_paths w)"
      using posix_join_inject [OF assms(2) dom' [OF q] assms(1) dom] by metis
  qed
  then have same: "execution_paths w' = execution_paths w"
    using distinct_execution_paths [OF assms(1)] distinct_execution_paths [OF assms(2)]
    by (intro sorted_distinct_set_unique) (simp_all add: execution_paths_def)
  have "sha (get_default [] (disk w' q)) = sha (get_default [] (disk w q)) \<and>
      origin_of w' (posix_join q) = origin_of w (posix_join q)"
    if q: "q \<in> set (execution_paths w)" for q
  proof -
    have "(posix_join q, the_seal sha w q) \<in> set (by_path files)"
      using q unfolding bp unfolding eq by auto
    then have "compare_seal (by_path files') (posix_join q, the_seal sha w q) = Inr ()"
      using map_result_defined [OF cmp] by auto
    moreover have "map_of (by_path files') (posix_join q) = Some (the_seal sha w' q)"
    proof -
      have "the_seal sha w' q \<in> set files'" using q sub eq by simp
      from map_of_by_path [OF distinct_seal_paths [OF assms(2) files'] this]
      show ?thesis unfolding bp' by simp
    qed
    ultimately show ?thesis
      by (auto simp: compare_seal_def the_seal_def split: if_splits)
  qed
  with same show ?thesis by blast
qed

text \<open>
  C3: with a collision-free digest, a seal that verifies proves that
  the plan is the sealed plan and that every execution input of the case, at any path below \<open>0\<close>,
  \<open>constant\<close> and \<open>system\<close>, is what it was when the case was sealed: nothing changed, appeared or
  disappeared.
\<close>

theorem verified_seal_means_unchanged:
  assumes "inj sha" "store_ok w" "store_ok w'"
    and "seal sha mdigest w plan_digest = Inr s"
    and "verify_seal sha mdigest w' s plan_digest' = Inr ()"
  shows "plan_digest' = plan_digest \<and> (\<forall>q. input_path q \<longrightarrow> disk w' q = disk w q)"
proof (intro conjI allI impI)
  show "plan_digest' = plan_digest"
    using assms(4,5) by (auto simp: seal_def verify_seal_def split: if_splits)
  note same = seal_files_on_disk [OF assms(2-5)]
  fix q assume q: "input_path q"
  show "disk w' q = disk w q"
  proof (cases "q \<in> set (execution_paths w)")
    case True
    then have "get_default [] (disk w' q) = get_default [] (disk w q)"
      using same injD [OF assms(1)] by blast
    moreover have "\<exists>b. disk w q = Some b" "\<exists>b. disk w' q = Some b"
      using True same by (simp_all add: disk_Some_iff set_execution_paths) (metis (no_types, lifting) mem_Collect_eq set_execution_paths)
    ultimately show ?thesis by auto
  next
    case False
    then have "q \<notin> fst ` set (ws_files w)" "q \<notin> fst ` set (ws_files w')"
      using q same by (metis (no_types, lifting) mem_Collect_eq set_execution_paths)+
    then show ?thesis using disk_Some_iff by (metis not_Some_eq)
  qed
qed

lemma sample_store_ok: "store_ok sample_workspace"
  unfolding store_ok_def by code_simp

definition sample_seal :: case_seal where
  "sample_seal =
     (case seal id (\<lambda>fs. concat (map fs_sha256 fs)) sample_workspace ''plan'' of
        Inl _ \<Rightarrow> undefined | Inr s \<Rightarrow> s)"

lemma sample_sealed:
  "seal id (\<lambda>fs. concat (map fs_sha256 fs)) sample_workspace ''plan'' = Inr sample_seal"
proof -
  let ?r = "seal id (\<lambda>fs. concat (map fs_sha256 fs)) sample_workspace ''plan''"
  have "\<not> isl ?r" by code_simp
  then show ?thesis by (cases ?r) (simp_all add: sample_seal_def)
qed

lemma seal_then_verify_witness:
  "verify_seal id (\<lambda>fs. concat (map fs_sha256 fs)) sample_workspace sample_seal ''plan'' = Inr ()"
  by (rule seal_then_verify [OF sample_store_ok sample_sealed])

definition after_draft :: workspace where
  "after_draft = snd (write_text id sample_workspace ''postprocessConfig/forces'' ''forces;'')"

lemma verified_seal_means_unchanged_witness:
  "disk after_draft [''postprocessConfig'', ''forces''] \<noteq> None \<and>
   disk after_draft [''constant'', ''g''] = disk sample_workspace [''constant'', ''g'']"
proof -
  have ok: "store_ok after_draft" unfolding store_ok_def by code_simp
  have v: "verify_seal id (\<lambda>fs. concat (map fs_sha256 fs)) after_draft sample_seal ''plan'' = Inr ()"
    by code_simp
  have "disk after_draft [''postprocessConfig'', ''forces''] \<noteq> None" by code_simp
  moreover have "input_path [''constant'', ''g'']" by code_simp
  ultimately show ?thesis
    using verified_seal_means_unchanged [OF inj_on_id sample_store_ok ok sample_sealed v] by blast
qed

section \<open>Mesh evidence\<close>

lemma filter_result_map:
  assumes "filter_result f xs = Inr ys"
  shows "ys = filter (\<lambda>x. f x = Inr True) xs \<and> (\<forall>x \<in> set xs. \<exists>b. f x = Inr b)"
  using assms by (induction xs arbitrary: ys) auto

lemma filter_result_total:
  assumes "\<And>x. x \<in> set xs \<Longrightarrow> \<exists>b. f x = Inr b"
  shows "filter_result f xs = Inr (filter (\<lambda>x. f x = Inr True) xs)"
  using assms
proof (induction xs)
  case (Cons x xs)
  then obtain b where "f x = Inr b" by auto
  with Cons show ?case by (cases b) auto
qed simp

lemma mesh_path_decided:
  assumes "validate_relative p = Inr q"
  shows "\<exists>b. is_mesh_affecting_path p = Inr b"
  using assms
  by (auto simp: validate_relative_def is_mesh_affecting_path_def Let_def split: if_splits)

lemma path_parts_case_name:
  assumes "validate_relative p = Inr q" 
  shows "path_parts (case_name p) = q" "path_root (case_name p) = []"
  using assms
  by (auto simp: validate_relative_def Let_def normalized_def case_name_def split: if_splits)

lemma posix_join_eq_case_name:
  assumes "validate_relative p = Inr t" "posix_join q = case_name p"
    and "q \<noteq> []" "\<forall>c \<in> set q. plain_component c"
  shows "q = t"
proof -
  have "path_tail (posix_join q) = q"
    unfolding posix_join_def by (rule path_tail_join [OF assms(4,3)])
  moreover have "path_root (posix_join q) = []"
    unfolding posix_join_def by (rule path_root_join [OF assms(4,3)])
  ultimately show ?thesis
    using path_parts_case_name [OF assms(1)] assms(2) by (simp add: path_parts_def)
qed

lemma write_text_state:
  assumes "write_text sha w p c = (Inr d, w')"
  shows "w' = add_authored (put_file w (target p) (utf8_encode c)) (case_name p)"
    "validate_relative p = Inr (target p)"
proof -
  obtain d' where d': "validate_candidate_text sha w p c = Inr d'"
    using assms by (cases "validate_candidate_text sha w p c") (auto simp: write_text_def)
  note v = validate_candidate_text_Inr [OF d']
  show "w' = add_authored (put_file w (target p) (utf8_encode c)) (case_name p)"
    using assms d' v by (auto simp: write_text_def store_bytes_def Let_def split: if_splits)
  show "validate_relative p = Inr (target p)" using resolve_target [OF v(6)] .
qed

lemma files_put [simp]: "ws_files (add_authored (put_file w q b) n) = AList.update q b (ws_files w)"
  by (simp add: add_authored_def put_file_def)

lemma write_text_store_ok:
  assumes "store_ok w" "write_text sha w p c = (Inr d, w')"
  shows "store_ok w'"
proof -
  note st = write_text_state [OF assms(2)]
  have "target p \<noteq> []" "\<forall>c \<in> set (target p). plain_component c"
    using validate_relative_safe [OF st(2)] case_part_plain by (auto simp: list_all_iff)
  then show ?thesis
    using assms(1) st(1) by (auto simp: store_ok_def distinct_update dom_update)
qed

abbreviation affects_mesh :: "string list \<Rightarrow> bool" where
  "affects_mesh q \<equiv> is_mesh_affecting_path (posix_join q) = Inr True"

lemma mesh_manifest_Inr:
  assumes "execution_file_seals sha w = Inr files"
    and "\<forall>q \<in> set (execution_paths w). \<exists>b. is_mesh_affecting_path (posix_join q) = Inr b"
  shows "mesh_manifest_digest sha mdigest w =
    Inr (seal_manifest_digest mdigest (map (the_seal sha w) (filter affects_mesh (execution_paths w))))"
proof -
  have files: "files = map (the_seal sha w) (execution_paths w)"
    by (rule execution_file_seals_Inr [OF assms(1)])
  have "filter_result (\<lambda>f. is_mesh_affecting_path (fs_path f)) files =
      Inr (filter (\<lambda>f. is_mesh_affecting_path (fs_path f) = Inr True) files)"
    using assms(2) by (intro filter_result_total) (auto simp: files)
  then show ?thesis
    using assms(1) by (simp add: mesh_manifest_digest_def files filter_map comp_def)
qed

lemma seals_decided:
  assumes "execution_file_seals sha w = Inr files"
  shows "\<forall>q \<in> set (execution_paths w). \<exists>b. is_mesh_affecting_path (posix_join q) = Inr b"
proof
  fix q assume q: "q \<in> set (execution_paths w)"
  from assms have "map_result (file_seal_of sha w) (execution_paths w) = Inr files"
    by (simp add: execution_file_seals_def Let_def split: if_splits)
  from map_result_defined [OF this q] obtain f where "file_seal_of sha w q = Inr f" by blast
  then obtain r where "validate_relative (posix_join q) = Inr r" by (auto simp: file_seal_of_def)
  then show "\<exists>b. is_mesh_affecting_path (posix_join q) = Inr b" by (rule mesh_path_decided)
qed

text \<open>
  C21: writing a file that does not take part in the mesh pipeline leaves the
  mesh manifest digest as it was, so mesh evidence observed before stays valid.
\<close>

theorem mesh_manifest_stable:
  assumes ok: "store_ok w" and wr: "write_text sha w p content = (Inr d, w')"
    and plain: "is_mesh_affecting_path (posix_join (target p)) = Inr False"
    and old: "execution_file_seals sha w = Inr files" and new: "execution_file_seals sha w' = Inr files'"
  shows "mesh_manifest_digest sha mdigest w' = mesh_manifest_digest sha mdigest w"
proof -
  note st = write_text_state [OF wr] and ok' = write_text_store_ok [OF ok wr]
  have keys: "fst ` set (ws_files w') = insert (target p) (fst ` set (ws_files w))"
    using st(1) by (simp add: dom_update)
  have "filter affects_mesh (execution_paths w') = filter affects_mesh (execution_paths w)"
  proof (rule sorted_distinct_set_unique)
    show "set (filter affects_mesh (execution_paths w')) = set (filter affects_mesh (execution_paths w))"
      using plain by (auto simp: set_execution_paths keys)
  qed (simp_all add: distinct_execution_paths ok ok', simp_all add: execution_paths_def filter_sort)
  moreover have "the_seal sha w' q = the_seal sha w q"
    if "q \<in> set (filter affects_mesh (execution_paths w))" for q
  proof -
    have q: "q \<noteq> target p" "q \<noteq> []" "\<forall>c \<in> set q. plain_component c"
      using that plain ok by (auto simp: set_execution_paths store_ok_def)
    then have "posix_join q \<noteq> case_name p"
      using posix_join_eq_case_name [OF st(2)] by blast
    then show ?thesis
      using q st(1)
      by (auto simp: the_seal_def disk_put file_size_def disk_def update_conv' origin_of_def
          add_authored_def put_file_def)
  qed
  then have eq: "map (the_seal sha w') (filter affects_mesh (execution_paths w)) =
      map (the_seal sha w) (filter affects_mesh (execution_paths w))"
    by (rule map_cong [OF refl])
  ultimately show ?thesis
    using eq mesh_manifest_Inr [OF new seals_decided [OF new]]
      mesh_manifest_Inr [OF old seals_decided [OF old]]
    by (simp only:)
qed

lemma mesh_manifest_stable_witness:
  "let w' = snd (write_text id sample_workspace ''system/controlDict'' ''endTime 5;'')
   in disk w' [''system'', ''controlDict''] = Some ''endTime 5;'' \<and>
      mesh_manifest_digest id (\<lambda>fs. concat (map fs_sha256 fs)) w' =
      mesh_manifest_digest id (\<lambda>fs. concat (map fs_sha256 fs)) sample_workspace"
proof -
  let ?r = "write_text id sample_workspace ''system/controlDict'' ''endTime 5;''"
  have r: "fst ?r = Inr ''endTime 5;''" by code_simp
  then have wr: "?r = (Inr ''endTime 5;'', snd ?r)" by (metis prod.collapse)
  have plain: "is_mesh_affecting_path (posix_join (target ''system/controlDict'')) = Inr False"
    by code_simp
  have old: "\<not> isl (execution_file_seals id sample_workspace)" by code_simp
  have new: "\<not> isl (execution_file_seals id (snd ?r))" by code_simp
  obtain files files' where "execution_file_seals id sample_workspace = Inr files"
    "execution_file_seals id (snd ?r) = Inr files'"
    using old new by (metis Inl_Inr_False isl_def obj_sumE)
  from mesh_manifest_stable [OF sample_store_ok wr plain this]
  have "mesh_manifest_digest id (\<lambda>fs. concat (map fs_sha256 fs)) (snd ?r) =
      mesh_manifest_digest id (\<lambda>fs. concat (map fs_sha256 fs)) sample_workspace" .
  moreover have "disk (snd ?r) [''system'', ''controlDict''] = Some ''endTime 5;''" by code_simp
  ultimately show ?thesis unfolding Let_def by blast
qed

section \<open>A new session adopts a seal\<close>

lemma strip_posix_join:
  assumes "q \<noteq> []" "\<forall>c \<in> set q. plain_component c"
  shows "strip_char (CHR ''/'') (posix_join q) = posix_join q"
proof -
  obtain x xs where first: "join ''/'' q = x # xs" "x \<noteq> CHR ''/''" using join_plain_first [OF assms(2,1)] by blast
  note ends = join_plain_last [OF assms(2,1)]
  have "dropWhile (\<lambda>x. x = CHR ''/'') (rev (join ''/'' q)) = rev (join ''/'' q)"
    using ends by (simp add: dropWhile_eq_self_iff hd_rev)
  then show ?thesis using first by (simp add: strip_char_def posix_join_def)
qed

lemma sealed_path_resolves:
  assumes "store_ok w" "execution_file_seals sha w = Inr files" "list_all (\<lambda>l. 2 \<le> length l) (ws_links w)"
    and "q \<in> set (execution_paths w)" "ws_files v = ws_files w" "ws_links v = ws_links w"
  shows "resolve_case_path v (posix_join q) True = Inr q"
proof -
  have q: "q \<in> fst ` set (ws_files w)" "input_path q" using assms(4) by (simp_all add: set_execution_paths)
  have "\<exists>f. file_seal_of sha w q = Inr f"
    using assms(2,4) map_result_defined [of "file_seal_of sha w"]
    by (fastforce simp: execution_file_seals_def Let_def split: if_splits)
  then obtain t where t: "validate_relative (posix_join q) = Inr t"
    by (auto simp: file_seal_of_def)
  have plain: "q \<noteq> []" "\<forall>c \<in> set q. plain_component c" using assms(1) q(1) by (auto simp: store_ok_def)
  have "path_parts (posix_join q) = q"
    using path_tail_join [OF plain(2,1)] path_root_join [OF plain(2,1)] by (simp add: path_parts_def posix_join_def)
  moreover have "case_name (posix_join q) = posix_join q"
    using strip_posix_join [OF plain] by (simp add: case_name_def)
  ultimately have "t = q" using path_parts_case_name(1) [OF t] by simp
  have "l \<notin> set (ws_links w)" if "prefix l q" for l
  proof
    assume l: "l \<in> set (ws_links w)"
    then have "2 \<le> length l" using assms(3) by (auto simp: list_all_iff)
    moreover have "hd l = hd q" using that \<open>2 \<le> length l\<close> by (auto simp: prefix_def hd_append)
    ultimately have "execution_links w \<noteq> []"
      using l q(2) by (auto simp: execution_links_def input_path_def filter_empty_conv)
    then show False using assms(2) by (simp add: execution_file_seals_def)
  qed
  then have "\<not> linked v q" using assms(6) by (auto simp: linked_def list_ex_iff)
  moreover have "is_file v q" using q(1) assms(5) by (auto simp: is_file_disk disk_Some_iff [symmetric] disk_def)
  ultimately show ?thesis using t \<open>t = q\<close> by (simp add: resolve_case_path_def)
qed

definition sealed_as :: "workspace \<Rightarrow> origin \<Rightarrow> string list list \<Rightarrow> string set" where
  "sealed_as w orig qs = {p \<in> posix_join ` set qs. origin_of w p = orig}"

lemma adopt_files_sealed:
  assumes "\<And>q v. q \<in> set qs \<Longrightarrow> ws_files v = ws_files w \<Longrightarrow> ws_links v = ws_links w \<Longrightarrow>
      resolve_case_path v (posix_join q) True = Inr q"
    and "ws_files v = ws_files w" "ws_links v = ws_links w"
  shows "\<exists>authored assets. adopt_files (map (the_seal sha w) qs) names v = (Inr authored, v\<lparr>ws_assets := assets\<rparr>) \<and>
    set authored = set names \<union> sealed_as w Agent qs \<and> set assets = set (ws_assets v) \<union> sealed_as w User_Asset qs"
  using assms
proof (induction qs arbitrary: names v)
  case Nil
  have "v = v\<lparr>ws_assets := ws_assets v\<rparr>" by simp
  then show ?case unfolding sealed_as_def by (intro exI [of _ names] exI [of _ "ws_assets v"]) simp
next
  case (Cons q qs)
  let ?f = "the_seal sha w q"
  let ?names = "if fs_origin ?f = Agent then List.insert (posix_join q) names else names"
  let ?v = "if fs_origin ?f = User_Asset then v\<lparr>ws_assets := List.insert (posix_join q) (ws_assets v)\<rparr> else v"
  have "\<exists>authored assets. adopt_files (map (the_seal sha w) qs) ?names ?v = (Inr authored, ?v\<lparr>ws_assets := assets\<rparr>) \<and>
    set authored = set ?names \<union> sealed_as w Agent qs \<and> set assets = set (ws_assets ?v) \<union> sealed_as w User_Asset qs"
    by (rule Cons.IH) (use Cons.prems in auto)
  then obtain authored assets where ih:
      "adopt_files (map (the_seal sha w) qs) ?names ?v = (Inr authored, ?v\<lparr>ws_assets := assets\<rparr>)"
      "set authored = set ?names \<union> sealed_as w Agent qs" "set assets = set (ws_assets ?v) \<union> sealed_as w User_Asset qs"
    by blast
  have "adopt_files (map (the_seal sha w) (q # qs)) names v = (Inr authored, v\<lparr>ws_assets := assets\<rparr>)"
    using ih(1) Cons.prems by (cases "fs_origin ?f") simp_all
  moreover have "set authored = set names \<union> sealed_as w Agent (q # qs)"
    "set assets = set (ws_assets v) \<union> sealed_as w User_Asset (q # qs)"
    using ih(2,3) by (auto simp: sealed_as_def the_seal_def)
  ultimately show ?case by blast
qed

text \<open>The seals of a case depend on its files and on the owners recorded for them, on nothing else.\<close>

lemma seals_of_owners:
  assumes "\<And>q. q \<in> set (execution_paths w) \<Longrightarrow>
      origin_of (w\<lparr>ws_assets := assets, ws_authored := names\<rparr>) (posix_join q) = origin_of w (posix_join q)"
  shows "execution_file_seals sha (w\<lparr>ws_assets := assets, ws_authored := names\<rparr>) = execution_file_seals sha w"
proof -
  let ?v = "w\<lparr>ws_assets := assets, ws_authored := names\<rparr>"
  have same: "execution_paths ?v = execution_paths w" "execution_links ?v = execution_links w" "file_size ?v = file_size w"
    by (simp_all add: execution_paths_def execution_links_def file_size_def fun_eq_iff)
  have "map_result (file_seal_of sha ?v) (execution_paths w) = map_result (file_seal_of sha w) (execution_paths w)"
    using assms by (intro map_result_cong) (simp add: file_seal_of_def same)
  then show ?thesis by (simp add: execution_file_seals_def same Let_def)
qed

lemma adopt_restores_ownership:
  assumes "store_ok w" "seal sha mdigest w plan_digest = Inr s" "list_all (\<lambda>l. 2 \<le> length l) (ws_links w)"
  shows "\<exists>v. adopt_seal (w\<lparr>ws_authored := names, ws_assets := assets\<rparr>) s = (Inr (), v) \<and>
    ws_files v = ws_files w \<and> verify_seal sha mdigest v s plan_digest = Inr ()"
proof -
  let ?w = "w\<lparr>ws_authored := names, ws_assets := []\<rparr>" and ?qs = "execution_paths w"
  from assms(2) obtain files where files: "execution_file_seals sha w = Inr files" and s: "cs_files s = files"
    by (auto simp: seal_def split: if_splits)
  obtain authored owned where adopted:
      "adopt_files (map (the_seal sha w) ?qs) [] ?w = (Inr authored, ?w\<lparr>ws_assets := owned\<rparr>)"
      "set authored = sealed_as w Agent ?qs" "set owned = sealed_as w User_Asset ?qs"
    using adopt_files_sealed [of ?qs w ?w sha "[]"] sealed_path_resolves [OF assms(1) files assms(3)] by auto
  let ?v = "w\<lparr>ws_assets := owned, ws_authored := authored\<rparr>"
  have "origin_of ?v (posix_join q) = origin_of w (posix_join q)" if "q \<in> set ?qs" for q
    using that by (cases "origin_of w (posix_join q)") (auto simp: origin_of_def [of ?v] adopted sealed_as_def)
  then have "execution_file_seals sha ?v = execution_file_seals sha w"
    by (rule seals_of_owners)
  then have "verify_seal sha mdigest ?v s plan_digest = Inr ()"
    using seal_then_verify [OF assms(1,2)] by (simp only: verify_seal_def)
  moreover have "adopt_seal (w\<lparr>ws_authored := names, ws_assets := assets\<rparr>) s = (Inr (), ?v)"
    using adopted(1) by (simp add: adopt_seal_def s execution_file_seals_Inr [OF files])
  ultimately show ?thesis by fastforce
qed

text \<open>
  C9: a workspace object of a new session, whatever it believes of who wrote the files, adopts
  a seal of the case on disk: every sealed file is found, the recorded ownership is restored, the files
  stay as they are, and the seal verifies.
\<close>

theorem adopt_restores_seal:
  assumes "store_ok w" "seal sha mdigest w plan_digest = Inr s" "list_all (\<lambda>l. 2 \<le> length l) (ws_links w)"
  shows "\<exists>v. adopt_seal (w\<lparr>ws_authored := names, ws_assets := assets\<rparr>) s = (Inr (), v) \<and>
    ws_files v = ws_files w \<and> verify_seal sha mdigest v s plan_digest = Inr ()"
  by (rule adopt_restores_ownership [OF assms])

lemma adopt_restores_seal_witness:
  "\<exists>v. adopt_seal (sample_workspace\<lparr>ws_authored := [], ws_assets := []\<rparr>) sample_seal = (Inr (), v) \<and>
    ws_files v = ws_files sample_workspace \<and>
    verify_seal id (\<lambda>fs. concat (map fs_sha256 fs)) v sample_seal ''plan'' = Inr ()"
  by (rule adopt_restores_seal [OF sample_store_ok sample_sealed]) code_simp

end
