(* ===== verification/Foam_Parser.thy ===== *)
theory Foam_Parser
  imports Workspace
begin

text \<open>
  The bounded reader of OpenFOAM dictionaries, \<^verbatim>\<open>verification/foam_semantics/parser.py\<close>,
  \<^verbatim>\<open>mesh.py\<close> and the data of \<^verbatim>\<open>model.py\<close>.

  The source scans a text with an index; the model works on the rest of the text from that index,
  so an index the source returns is the number of characters passed, and \<open>None\<close> is the same.
\<close>

section \<open>Data\<close>

datatype token_kind = Word | String | Directive | Expansion | Unknown_Token

datatype pattern_state = Literal | Pattern | Indeterminate

record foam_key =
  fk_raw :: string
  fk_value :: string
  fk_kind :: token_kind
  fk_state :: pattern_state

record foam_entry =
  fe_key :: foam_key
  fe_body :: string
  fe_order :: nat
  fe_declared_type :: string

record foam_dictionary =
  fd_entries :: "foam_entry list"
  fd_complete :: bool

record mesh_patch =
  mp_name :: string
  mp_patch_type :: string
  mp_groups :: "string list"
  mp_order :: nat

section \<open>Comments\<close>

definition quote_chars :: string where
  "quote_chars = [CHR 0x22, CHR 0x27]"

text \<open>
  A block comment after its opening: the line feeds inside it, and the text after it.  The last
  character of an unterminated comment is not looked at.
\<close>

fun block_rest :: "string \<Rightarrow> string \<times> string" where
  "block_rest (c # d # cs) =
     (if c = CHR ''*'' \<and> d = CHR ''/'' then ([], cs)
      else let (nl, r) = block_rest (d # cs) in (if c = CHR 0x0A then c # nl else nl, r))"
| "block_rest _ = ([], [])"

lemma length_block_rest: "length (snd (block_rest s)) \<le> length s"
  by (induction s rule: block_rest.induct) (auto simp: Let_def split: prod.splits)

function strip_from :: "char option \<Rightarrow> string \<Rightarrow> string" where
  "strip_from quote [] = []"
| "strip_from (Some q) (c # cs) =
     (if c = CHR 0x5C \<and> cs \<noteq> [] then c # hd cs # strip_from (Some q) (tl cs)
      else c # strip_from (if c = q then None else Some q) cs)"
| "strip_from None (c # cs) =
     (if c \<in> set quote_chars then c # strip_from (Some c) cs
      else if c = CHR ''/'' \<and> starts_with cs ''/''
      then strip_from None (dropWhile (\<lambda>x. x \<noteq> CHR 0x0A) cs)
      else if c = CHR ''/'' \<and> starts_with cs ''*''
      then fst (block_rest (tl cs)) @ strip_from None (snd (block_rest (tl cs)))
      else c # strip_from None cs)"
  by pat_completeness auto

termination
proof (relation "measure (\<lambda>(q, s). length s)")
  fix q c :: char and cs :: string
  show "((Some q, tl cs), Some q, c # cs) \<in> measure (\<lambda>(q, s). length s)" by simp
next
  fix c :: char and cs :: string
  show "((None, dropWhile (\<lambda>x. x \<noteq> CHR 0x0A) cs), None, c # cs) \<in> measure (\<lambda>(q, s). length s)"
    using length_dropWhile_le [of _ cs] by (simp add: le_imp_less_Suc)
next
  fix c :: char and cs :: string
  have "length (snd (block_rest (tl cs))) \<le> length cs"
    using length_block_rest [of "tl cs"] by (rule order_trans) simp
  then show "((None, snd (block_rest (tl cs))), None, c # cs) \<in> measure (\<lambda>(q, s). length s)"
    by simp
qed auto

definition strip_comments :: "string \<Rightarrow> string" where
  "strip_comments s = strip_from None s"

section \<open>Keys\<close>

definition skip_ws :: "string \<Rightarrow> string" where
  "skip_ws s = dropWhile is_space s"

lemma skip_ws_Nil [simp]: "skip_ws [] = []"
  by (simp add: skip_ws_def)

definition pattern_meta :: string where
  "pattern_meta = ''.*+?()|[]{}^$'' @ [CHR 0x5C]"

text \<open>
  The characters of a quoted key up to its closing quote, an escaped character kept with its
  backslash, and the rest from the closing quote on; the rest is empty when there is none.
\<close>

fun quoted_value :: "char \<Rightarrow> string \<Rightarrow> string \<times> string" where
  "quoted_value q [] = ([], [])"
| "quoted_value q (c # cs) =
     (if c = CHR 0x5C \<and> cs \<noteq> [] then
        (case cs of
           [] \<Rightarrow> ([c], [])
         | d # ds \<Rightarrow> let (v, r) = quoted_value q ds in (c # d # v, r))
      else if c = q then ([], c # cs)
      else let (v, r) = quoted_value q cs in (c # v, r))"

definition key_char :: "char \<Rightarrow> bool" where
  "key_char c \<longleftrightarrow> \<not> is_space c \<and> c \<notin> set ''{}();''"

text \<open>\<open>parse_key\<close>: the key, and the text after it.\<close>

definition parse_key :: "string \<Rightarrow> foam_key option \<times> string" where
  "parse_key text =
     (case skip_ws text of
        [] \<Rightarrow> (None, [])
      | c # cs \<Rightarrow>
          if c \<in> set quote_chars then
            (let (value, rest) = quoted_value c cs
             in if rest = []
                then (Some \<lparr>fk_raw = c # value, fk_value = c # value, fk_kind = Unknown_Token,
                           fk_state = Indeterminate\<rparr>, [])
                else (Some \<lparr>fk_raw = c # value @ [c], fk_value = value, fk_kind = String,
                           fk_state = (if list_ex (\<lambda>x. x \<in> set pattern_meta) value
                                       then Pattern else Literal)\<rparr>, tl rest))
          else
            (let raw = takeWhile key_char (c # cs); rest = dropWhile key_char (c # cs)
             in if raw = [] then (None, cs)
                else if starts_with raw ''$''
                then (Some \<lparr>fk_raw = raw, fk_value = raw, fk_kind = Expansion,
                           fk_state = Indeterminate\<rparr>, rest)
                else if starts_with raw ''#''
                then (Some \<lparr>fk_raw = raw, fk_value = raw, fk_kind = Directive,
                           fk_state = Indeterminate\<rparr>, rest)
                else (Some \<lparr>fk_raw = raw, fk_value = raw, fk_kind = Word,
                           fk_state = Literal\<rparr>, rest)))"

section \<open>Delimiters and statements\<close>

text \<open>The number of characters before the delimiter that closes the first one.\<close>

fun delimiter_from ::
  "char \<Rightarrow> char \<Rightarrow> char option \<Rightarrow> int \<Rightarrow> string \<Rightarrow> nat option" where
  "delimiter_from opener closer quote depth [] = None"
| "delimiter_from opener closer (Some q) depth (c # cs) =
     (if c = CHR 0x5C then
        (case cs of
           [] \<Rightarrow> None
         | _ # ds \<Rightarrow> map_option (\<lambda>k. k + 2) (delimiter_from opener closer (Some q) depth ds))
      else map_option Suc
        (delimiter_from opener closer (if c = q then None else Some q) depth cs))"
| "delimiter_from opener closer None depth (c # cs) =
     (if c \<in> set quote_chars then map_option Suc (delimiter_from opener closer (Some c) depth cs)
      else if c = opener then map_option Suc (delimiter_from opener closer None (depth + 1) cs)
      else if c = closer then
        (if depth - 1 = 0 then Some 0
         else map_option Suc (delimiter_from opener closer None (depth - 1) cs))
      else map_option Suc (delimiter_from opener closer None depth cs))"

definition matching_delimiter :: "char \<Rightarrow> char \<Rightarrow> string \<Rightarrow> nat option" where
  "matching_delimiter opener closer s = delimiter_from opener closer None 0 s"

text \<open>
  The end of a statement: a semicolon outside all brackets, or the bracket that closes the section.
\<close>

fun statement_from ::
  "char \<Rightarrow> char option \<Rightarrow> nat \<Rightarrow> nat \<Rightarrow> nat \<Rightarrow> string \<Rightarrow> nat option" where
  "statement_from closing quote r s k [] = None"
| "statement_from closing (Some q) r s k (c # cs) =
     (if c = CHR 0x5C then
        (case cs of
           [] \<Rightarrow> None
         | _ # ds \<Rightarrow> map_option (\<lambda>n. n + 2) (statement_from closing (Some q) r s k ds))
      else map_option Suc (statement_from closing (if c = q then None else Some q) r s k cs))"
| "statement_from closing None r s k (c # cs) =
     (if c \<in> set quote_chars then map_option Suc (statement_from closing (Some c) r s k cs)
      else if c = CHR ''('' then map_option Suc (statement_from closing None (r + 1) s k cs)
      else if c = CHR '')'' then
        (if r = 0 \<and> closing = CHR '')'' then Some 0
         else map_option Suc (statement_from closing None (r - 1) s k cs))
      else if c = CHR ''['' then map_option Suc (statement_from closing None r (s + 1) k cs)
      else if c = CHR '']'' then map_option Suc (statement_from closing None r (s - 1) k cs)
      else if c = CHR ''{'' then map_option Suc (statement_from closing None r s (k + 1) cs)
      else if c = CHR ''}'' then
        (if k = 0 \<and> closing = CHR ''}'' then Some 0
         else map_option Suc (statement_from closing None r s (k - 1) cs))
      else if c = CHR '';'' \<and> r = 0 \<and> s = 0 \<and> k = 0 then Some 0
      else map_option Suc (statement_from closing None r s k cs))"

text \<open>Without an end the source returns the index of the last character.\<close>

definition statement_end :: "char \<Rightarrow> string \<Rightarrow> nat" where
  "statement_end closing s =
     (case statement_from closing None 0 0 0 s of None \<Rightarrow> length s - 1 | Some n \<Rightarrow> n)"

section \<open>Searches\<close>

fun search :: "(char option \<Rightarrow> string \<Rightarrow> 'a option) \<Rightarrow> char option \<Rightarrow> string \<Rightarrow> 'a option" where
  "search here before [] = here before []"
| "search here before (c # cs) =
     (case here before (c # cs) of
        Some x \<Rightarrow> Some x
      | None \<Rightarrow> search here (Some c) cs)"

definition word_before :: "char option \<Rightarrow> bool" where
  "word_before c \<longleftrightarrow> (case c of None \<Rightarrow> False | Some x \<Rightarrow> regex_word x)"

definition word_after :: "string \<Rightarrow> bool" where
  "word_after s \<longleftrightarrow> (case s of [] \<Rightarrow> False | x # _ \<Rightarrow> regex_word x)"

definition first_word :: "string \<Rightarrow> string" where
  "first_word s = takeWhile (\<lambda>c. \<not> is_space c) (dropWhile is_space s)"

text \<open>\<open>\btype\s+([^;{}]+);\<close>\<close>

definition type_here :: "char option \<Rightarrow> string \<Rightarrow> string option" where
  "type_here before s =
     (if starts_with s ''type'' \<and> \<not> word_before before then
        (let ws = takeWhile is_space (drop 4 s); r = dropWhile is_space (drop 4 s);
             grp = takeWhile (\<lambda>c. c \<notin> set '';{}'') r; after = drop (length grp) r
         in if ws \<noteq> [] \<and> starts_with after '';'' \<and> (grp \<noteq> [] \<or> length ws \<ge> 2)
            then Some grp else None)
      else None)"

definition parse_declared_type :: "string \<Rightarrow> string" where
  "parse_declared_type body =
     (case search type_here None body of None \<Rightarrow> [] | Some grp \<Rightarrow> first_word grp)"

text \<open>\<open>\binGroups\s+(?:\d+\s*)?\((.*?)\)\s*;\<close>; the group is the shortest that fits.\<close>

fun until_group_end :: "string \<Rightarrow> string option" where
  "until_group_end [] = None"
| "until_group_end (c # cs) =
     (if c = CHR '')'' \<and> starts_with (dropWhile is_space cs) '';'' then Some []
      else map_option ((#) c) (until_group_end cs))"

definition groups_here :: "char option \<Rightarrow> string \<Rightarrow> string option" where
  "groups_here before s =
     (if starts_with s ''inGroups'' \<and> \<not> word_before before \<and>
         takeWhile is_space (drop 8 s) \<noteq> []
      then
        (let r = dropWhile is_space (drop 8 s);
             r' = (if takeWhile is_digit r = [] then r
                   else dropWhile is_space (dropWhile is_digit r))
         in if starts_with r' ''('' then until_group_end (tl r') else None)
      else None)"

lemma length_quoted_value: "length (snd (quoted_value q s)) \<le> length s"
proof (induction q s rule: quoted_value.induct)
  case (2 q c cs)
  show ?case
  proof (cases "c = CHR 0x5C \<and> cs \<noteq> []")
    case True
    then obtain d ds where "cs = d # ds" by (cases cs) auto
    with True "2.IH"(1) show ?thesis by (simp add: split_beta)
  next
    case False
    then show ?thesis
      using "2.IH"(2) by (cases "c = q") (simp_all add: split_beta)
  qed
qed simp

lemma length_parse_key_Cons:
  assumes "skip_ws s = c # cs"
  shows "length (snd (parse_key s)) \<le> length cs"
proof (cases "c \<in> set quote_chars")
  case True
  have "length (tl (snd (quoted_value c cs))) \<le> length cs"
    using length_quoted_value [of c cs] by simp
  then show ?thesis
    using True assms by (simp add: parse_key_def Let_def split_beta)
next
  case False
  have "length (dropWhile key_char (c # cs)) \<le> length cs" if "takeWhile key_char (c # cs) \<noteq> []"
    using that length_dropWhile_le [of key_char cs] by (simp split: if_splits)
  then show ?thesis
    using False assms by (simp add: parse_key_def Let_def del: takeWhile.simps dropWhile.simps)
qed

lemma length_skip_ws: "length (skip_ws s) \<le> length s"
  by (simp add: skip_ws_def length_dropWhile_le)

lemma length_parse_key: "length (snd (parse_key s)) \<le> length s"
proof (cases "skip_ws s")
  case (Cons c cs)
  then show ?thesis using length_parse_key_Cons [OF Cons] length_skip_ws [of s] by simp
qed (simp add: parse_key_def)

section \<open>Dictionaries\<close>

text \<open>The index advances by at least one character in each round.\<close>

function group_keys :: "string \<Rightarrow> string list \<Rightarrow> string list" where
  "group_keys chunk acc =
     (if chunk = [] then acc
      else
        let (key, rest) = parse_key chunk;
            rest' = (if length rest < length chunk then rest else tl chunk)
        in group_keys rest'
          (case key of
             None \<Rightarrow> acc
           | Some k \<Rightarrow>
               if fk_state k = Literal \<and> fk_value k \<noteq> [] then List.insert (fk_value k) acc else acc))"
  by pat_completeness auto
termination
  by (relation "measure (\<lambda>(chunk, acc). length chunk)") (auto split: if_splits)

declare group_keys.simps [simp del]

definition parse_in_groups :: "string \<Rightarrow> string list" where
  "parse_in_groups body =
     (case search groups_here None body of None \<Rightarrow> [] | Some chunk \<Rightarrow> group_keys chunk [])"

lemma skip_ws_Cons_length: "skip_ws s = c # cs \<Longrightarrow> length cs < length s"
  using length_skip_ws [of s] by simp

lemma parse_key_progress:
  assumes "skip_ws s = c # cs" "parse_key (c # cs) = (k, rest)"
  shows "length (drop m (skip_ws rest)) < length s"
proof -
  have "\<not> is_space c" using assms(1) unfolding skip_ws_def by (metis hd_dropWhile list.sel(1) list.simps(3))
  then have "skip_ws (c # cs) = c # cs" by (simp add: skip_ws_def)
  then have "length rest \<le> length cs"
    using length_parse_key_Cons [of "c # cs" c cs] assms(2) by simp
  then show ?thesis
    using length_skip_ws [of rest] skip_ws_Cons_length [OF assms(1)] by simp
qed

text \<open>
  The loop of \<open>parse_top_level_blocks\<close>.  A text that ends before the closing bracket, or inside a
  block, makes the dictionary incomplete.
\<close>

function blocks_from :: "char \<Rightarrow> nat \<Rightarrow> string \<Rightarrow> foam_dictionary" where
  "blocks_from closing order s =
     (case skip_ws s of
        [] \<Rightarrow> \<lparr>fd_entries = [], fd_complete = False\<rparr>
      | c # cs \<Rightarrow>
          if c = closing then \<lparr>fd_entries = [], fd_complete = True\<rparr>
          else
            (case parse_key (c # cs) of
               (None, rest) \<Rightarrow> blocks_from closing order (if length rest < length (c # cs) then rest else cs)
             | (Some key, rest) \<Rightarrow>
                 (let body_text = skip_ws rest in
                  if starts_with body_text ''{'' then
                    (case matching_delimiter (CHR ''{'') (CHR ''}'') body_text of
                       None \<Rightarrow>
                         \<lparr>fd_entries =
                            [\<lparr>fe_key = key, fe_body = tl body_text, fe_order = order,
                              fe_declared_type = []\<rparr>],
                          fd_complete = False\<rparr>
                     | Some n \<Rightarrow>
                         (let body = take (n - 1) (tl body_text);
                              d = blocks_from closing (order + 1) (drop (n + 1) body_text)
                          in d\<lparr>fd_entries :=
                                 \<lparr>fe_key = key, fe_body = body, fe_order = order,
                                  fe_declared_type = parse_declared_type body\<rparr> # fd_entries d\<rparr>))
                  else
                    (let n = statement_end closing body_text in
                     if fk_state key = Indeterminate then
                       (let d = blocks_from closing (order + 1) (drop (n + 1) body_text)
                        in d\<lparr>fd_entries :=
                               \<lparr>fe_key = key, fe_body = take n body_text, fe_order = order,
                                fe_declared_type = []\<rparr> # fd_entries d\<rparr>)
                     else blocks_from closing order (drop (n + 1) body_text)))))"
  by pat_completeness auto

termination
proof (relation "measure (\<lambda>(closing, order, s). length s)")
  show "wf (measure (\<lambda>(closing, order, s). length s))" by simp
next
  fix closing :: char and order :: nat and s rest :: string and c :: char and cs p
  assume "skip_ws s = c # cs" 
  then show "((closing, order, if length rest < length (c # cs) then rest else cs), closing, order, s)
      \<in> measure (\<lambda>(closing, order, s). length s)"
    using skip_ws_Cons_length [of s c cs] by (auto split: if_splits)
qed (use parse_key_progress [OF _ sym] in \<open>auto simp del: length_drop\<close>)

declare blocks_from.simps [simp del]

text \<open>\<open>str.find\<close> of one character from an index on.\<close>

definition find_char :: "char \<Rightarrow> nat \<Rightarrow> string \<Rightarrow> nat option" where
  "find_char c i s =
     (if c \<in> set (drop i s) then Some (i + length (takeWhile (\<lambda>x. x \<noteq> c) (drop i s))) else None)"

definition parse_top_level_blocks :: "string \<Rightarrow> nat \<Rightarrow> char \<Rightarrow> foam_dictionary" where
  "parse_top_level_blocks text open_index closing =
     (let clean = strip_comments text;
          expected = (if closing = CHR '')'' then CHR ''('' else CHR ''{'');
          start = (if open_index \<ge> length clean \<or> clean ! open_index \<noteq> expected
                   then find_char expected (open_index - 64) clean else Some open_index)
      in case start of
           None \<Rightarrow> \<lparr>fd_entries = [], fd_complete = False\<rparr>
         | Some i \<Rightarrow> blocks_from closing 0 (drop (i + 1) clean))"

text \<open>\<open>(?:^|\n)\s*\d+\s*\n?\s*\(\<close>: the index of the parenthesis of the first match.\<close>

definition list_start_at :: "string \<Rightarrow> nat option" where
  "list_start_at s =
     (let a = dropWhile is_space s; b = dropWhile is_digit a; c = dropWhile is_space b
      in if takeWhile is_digit a \<noteq> [] \<and> starts_with c ''('' then Some (length s - length c) else None)"

fun list_start_after :: "nat \<Rightarrow> string \<Rightarrow> nat option" where
  "list_start_after i [] = None"
| "list_start_after i (c # cs) =
     (if c = CHR 0x0A \<and> list_start_at cs \<noteq> None
      then map_option (\<lambda>k. i + 1 + k) (list_start_at cs)
      else list_start_after (i + 1) cs)"

definition find_boundary_list_start :: "string \<Rightarrow> nat option" where
  "find_boundary_list_start text =
     (let clean = strip_comments text
      in case list_start_at clean of
           Some k \<Rightarrow> Some k
         | None \<Rightarrow> list_start_after 0 clean)"

text \<open>\<open>\bname\b\<close> for a name of word characters, and the first brace after the match.\<close>

definition name_here :: "string \<Rightarrow> char option \<Rightarrow> string \<Rightarrow> nat option" where
  "name_here name before s =
     (if starts_with s name \<and> \<not> word_before before \<and> \<not> word_after (drop (length name) s)
      then Some (length s) else None)"

definition find_named_dictionary :: "string \<Rightarrow> string \<Rightarrow> nat option" where
  "find_named_dictionary text name =
     (let clean = strip_comments text
      in case search (name_here name) None clean of
           None \<Rightarrow> None
         | Some remaining \<Rightarrow> find_char (CHR ''{'') (length clean - remaining + length name) clean)"

definition parse_mesh_boundary :: "string \<Rightarrow> mesh_patch list" where
  "parse_mesh_boundary text =
     (case find_boundary_list_start text of
        None \<Rightarrow> []
      | Some start \<Rightarrow>
          map (\<lambda>e. \<lparr>mp_name = fk_value (fe_key e), mp_patch_type = fe_declared_type e,
                     mp_groups = parse_in_groups (fe_body e), mp_order = fe_order e\<rparr>)
            (filter (\<lambda>e. fk_state (fe_key e) = Literal)
              (fd_entries (parse_top_level_blocks text start (CHR '')'')))))"

section \<open>Assignments\<close>

definition strip_of :: "char list \<Rightarrow> string \<Rightarrow> string" where
  "strip_of cs s = rstrip_chars cs (dropWhile (\<lambda>c. c \<in> set cs) s)"

lemma parse_key_progress_plain:
  assumes "skip_ws s = c # cs" "parse_key (c # cs) = (k, rest)"
  shows "length (drop m rest) < length s"
proof -
  have "\<not> is_space c" using assms(1) unfolding skip_ws_def by (metis hd_dropWhile list.sel(1) list.simps(3))
  then have "skip_ws (c # cs) = c # cs" by (simp add: skip_ws_def)
  then have "length rest \<le> length cs"
    using length_parse_key_Cons [of "c # cs" c cs] assms(2) by simp
  then show ?thesis using skip_ws_Cons_length [OF assms(1)] by simp
qed

text \<open>
  The loop of \<open>parse_named_dictionary_assignments\<close> over the dictionary's body, with the
  assignments and the completeness found so far.
\<close>

function named_from ::
  "(string \<times> string) list \<Rightarrow> bool \<Rightarrow> string \<Rightarrow> (string \<times> string) list \<times> bool" where
  "named_from result complete s =
     (case skip_ws s of
        [] \<Rightarrow> (result, complete)
      | c # cs \<Rightarrow>
          (case parse_key (c # cs) of
             (None, rest) \<Rightarrow>
               named_from result complete (if length rest < length (c # cs) then rest else cs)
           | (Some key, rest) \<Rightarrow>
               if fk_state key \<noteq> Literal
               then named_from result False (drop (statement_end (CHR ''}'') rest + 1) rest)
               else
                 (let value_text = skip_ws rest in
                  if starts_with value_text ''{''
                  then named_from result False
                    (case matching_delimiter (CHR ''{'') (CHR ''}'') value_text of
                       None \<Rightarrow> [] | Some n \<Rightarrow> drop (n + 1) value_text)
                  else
                    (let n = statement_end (CHR ''}'') value_text;
                         raw = strip (take n value_text);
                         value = strip_of quote_chars (first_word raw);
                         good = raw \<noteq> [] \<and> \<not> starts_with raw ''$'' \<and> \<not> starts_with raw ''#'' \<and> value \<noteq> []
                     in named_from
                          (if good then AList.update (fk_value key) value result else result)
                          (complete \<and> good) (drop (n + 1) value_text)))))"
  by pat_completeness auto

termination
proof (relation "measure (\<lambda>(result, complete, s). length s)")
  fix result complete s c cs p and rest :: string
  assume "skip_ws s = c # cs" 
  then show "((result, complete, if length rest < length (c # cs) then rest else cs), result, complete, s)
      \<in> measure (\<lambda>(result, complete, s). length s)"
    using skip_ws_Cons_length [of s c cs] by (auto split: if_splits)
qed (use parse_key_progress [OF _ sym] parse_key_progress_plain [OF _ sym] skip_ws_Cons_length in
      \<open>auto simp del: length_drop split: option.split\<close>)

declare named_from.simps [simp del]

definition parse_named_dictionary_assignments ::
  "string \<Rightarrow> string \<Rightarrow> (string \<times> string) list \<times> bool" where
  "parse_named_dictionary_assignments text name =
     (let clean = strip_comments text
      in case find_named_dictionary clean name of
           None \<Rightarrow> ([], False)
         | Some brace \<Rightarrow>
             (case matching_delimiter (CHR ''{'') (CHR ''}'') (drop brace clean) of
                None \<Rightarrow> ([], False)
              | Some n \<Rightarrow> named_from [] True (take (n - 1) (drop (brace + 1) clean))))"

lemma parse_key_progress_line:
  assumes "skip_ws s = c # cs" "parse_key (c # cs) = (k, rest)"
  shows "length (drop (Suc 0) (dropWhile P (skip_ws rest))) < length s"
  using parse_key_progress [OF assms, of 0] length_dropWhile_le [of P "skip_ws rest"] by simp

text \<open>The loop of \<open>parse_top_level_assignments\<close>.\<close>

function top_from ::
  "(string \<times> string) list \<Rightarrow> bool \<Rightarrow> string \<Rightarrow> (string \<times> string) list \<times> bool" where
  "top_from result complete s =
     (case skip_ws s of
        [] \<Rightarrow> (result, complete)
      | c # cs \<Rightarrow>
          (case parse_key (c # cs) of
             (None, rest) \<Rightarrow>
               top_from result complete (if length rest < length (c # cs) then rest else cs)
           | (Some key, rest) \<Rightarrow>
               (let value_text = skip_ws rest in
                if fk_state key = Indeterminate then
                  top_from result False
                    (if fk_kind key = Directive
                     then drop 1 (dropWhile (\<lambda>x. x \<noteq> CHR 0x0A) value_text)
                     else drop (statement_end (CHR ''}'') value_text + 1) value_text)
                else if starts_with value_text ''{'' then
                  (case matching_delimiter (CHR ''{'') (CHR ''}'') value_text of
                     None \<Rightarrow> (result, False)
                   | Some n \<Rightarrow>
                       top_from (AList.update (fk_value key) ''<dictionary>'' result) complete
                         (drop (n + 1) value_text))
                else
                  (let n = statement_end (CHR ''}'') value_text;
                       raw = strip (take n value_text)
                   in if raw \<noteq> []
                      then top_from (AList.update (fk_value key) raw result) complete
                        (drop (n + 1) value_text)
                      else top_from result False (drop (n + 1) value_text)))))"
  by pat_completeness auto

termination
proof (relation "measure (\<lambda>(result, complete, s). length s)")
  fix result complete s c cs p and rest :: string
  assume "skip_ws s = c # cs" 
  then show "((result, complete, if length rest < length (c # cs) then rest else cs), result, complete, s)
      \<in> measure (\<lambda>(result, complete, s). length s)"
    using skip_ws_Cons_length [of s c cs] by (auto split: if_splits)
qed (use parse_key_progress [OF _ sym] parse_key_progress_line [OF _ sym] in \<open>auto simp del: length_drop\<close>)

declare top_from.simps [simp del]

definition parse_top_level_assignments :: "string \<Rightarrow> (string \<times> string) list \<times> bool" where
  "parse_top_level_assignments text = top_from [] True (strip_comments text)"

section \<open>Comments are removed once and for all\<close>

lemma block_rest_newlines: "set (fst (block_rest s)) \<subseteq> {CHR 0x0A}"
  by (induction s rule: block_rest.induct) (auto simp: Let_def split: prod.splits)

lemma strip_from_newlines:
  "set nl \<subseteq> {CHR 0x0A} \<Longrightarrow> strip_from None (nl @ s) = nl @ strip_from None s"
  by (induction nl) (auto simp: quote_chars_def)

lemma strip_from_head:
  "d \<noteq> CHR ''/'' \<Longrightarrow> \<exists>ds. strip_from None (d # cs) = d # ds"
  by auto

lemma strip_from_idem: "strip_from quote (strip_from quote s) = strip_from quote s"
proof (induction quote s rule: strip_from.induct)
  case (1 quote)
  then show ?case by simp
next
  case (2 q c cs)
  show ?case
  proof (cases "c = CHR 0x5C \<and> cs \<noteq> []")
    case True
    with 2(1) show ?thesis by simp
  next
    case False
    show ?thesis
    proof (cases "c = CHR 0x5C")
      case True
      with False show ?thesis by (cases "c = q") auto
    next
      case c: False
      with 2(2) show ?thesis by auto
    qed
  qed
next
  case (3 c cs)
  show ?case
  proof (cases "c \<in> set quote_chars")
    case True
    with 3(1) show ?thesis by simp
  next
    case no_quote: False
    consider "c = CHR ''/'' \<and> starts_with cs ''/''" | "c = CHR ''/'' \<and> starts_with cs ''*''"
      | "c = CHR ''/'' \<and> \<not> starts_with cs ''/'' \<and> \<not> starts_with cs ''*''" | "c \<noteq> CHR ''/''"
      by blast
    then show ?thesis
    proof cases
      case 1
      with 3(2) no_quote show ?thesis by simp
    next
      case 2
      then have "\<not> starts_with cs ''/''" by (cases cs) auto
      with 2 3(3) no_quote show ?thesis
        using strip_from_newlines [OF block_rest_newlines] by simp
    next
      case slash: 3
      have ih: "strip_from None (strip_from None cs) = strip_from None cs"
        using 3(4) no_quote slash by blast
      have "\<not> starts_with (strip_from None cs) ''/'' \<and> \<not> starts_with (strip_from None cs) ''*''"
      proof (cases cs)
        case (Cons d ds)
        with slash have d: "d \<noteq> CHR ''/''" "d \<noteq> CHR ''*''" by auto
        obtain es where "strip_from None cs = d # es" using strip_from_head [OF d(1)] Cons by blast
        with d show ?thesis by simp
      qed simp
      with slash no_quote ih show ?thesis by simp
    next
      case 4
      with 3(4) no_quote show ?thesis by simp
    qed
  qed
qed

text \<open>
  Removing comments is idempotent: what is left of a text has no comment
  that a second pass would find, even though removing a block comment joins the text around it.
  The readers that strip a text which a caller has already stripped see the same text.
\<close>

theorem strip_comments_idem: "strip_comments (strip_comments s) = strip_comments s"
  by (simp add: strip_comments_def strip_from_idem)

text \<open>A text without quotes and slashes is left alone.\<close>

lemma strip_comments_plain:
  "set s \<inter> (set quote_chars \<union> {CHR ''/''}) = {} \<Longrightarrow> strip_comments s = s"
  unfolding strip_comments_def by (induction s) auto

end
