(* ===== verification/Boundary_Resolution.thy ===== *)
theory Boundary_Resolution
  imports Foam_Parser
begin

text \<open>
  Resolution of field boundary entries, \<^verbatim>\<open>verification/foam_semantics/boundary.py\<close> with its data
  from \<^verbatim>\<open>model.py\<close>: which selector of a field's \<open>boundaryField\<close> applies to a mesh patch.

  \<open>re.fullmatch\<close> is the argument \<open>fullmatch\<close>: for a pattern and a name it returns whether they match,
  or the text of the \<open>re.error\<close> it raises.
\<close>

section \<open>Data\<close>

datatype resolution_status = Resolved | Missing | Indeterminate_Status | Invalid

datatype match_kind = Exact | Group | Auto_Empty | Regex | Indeterminate_Match | No_Match

record boundary_selector =
  bs_key :: foam_key
  bs_order :: nat
  bs_body :: string
  bs_field_type :: string

record boundary_resolution =
  br_patch :: mesh_patch
  br_status :: resolution_status
  br_kind :: match_kind
  br_selector :: "boundary_selector option"
  br_field_type :: string
  br_certainty :: string
  br_trace :: "(string \<times> string) list"
  br_reason :: string

section \<open>Operations\<close>

definition parse_boundary_selectors :: "string \<Rightarrow> boundary_selector list" where
  "parse_boundary_selectors text =
     (case find_named_dictionary text ''boundaryField'' of
        None \<Rightarrow> []
      | Some start \<Rightarrow>
          map (\<lambda>e. \<lparr>bs_key = fe_key e, bs_order = fe_order e, bs_body = fe_body e,
                     bs_field_type = fe_declared_type e\<rparr>)
            (fd_entries (parse_top_level_blocks text start (CHR ''}''))))"

text \<open>\<open>max(xs, key=lambda item: item.order)\<close>: the first of the entries with the greatest order.\<close>

fun last_by_order :: "boundary_selector list \<Rightarrow> boundary_selector option" where
  "last_by_order [] = None"
| "last_by_order (s # ss) =
     (case last_by_order ss of
        None \<Rightarrow> Some s
      | Some t \<Rightarrow> if bs_order t > bs_order s then Some t else Some s)"

definition resolved ::
  "mesh_patch \<Rightarrow> match_kind \<Rightarrow> boundary_selector \<Rightarrow> (string \<times> string) list \<Rightarrow> boundary_resolution" where
  "resolved patch kind selector trace =
     \<lparr>br_patch = patch, br_status = Resolved, br_kind = kind, br_selector = Some selector,
      br_field_type = bs_field_type selector, br_certainty = ''proven'', br_trace = trace,
      br_reason = []\<rparr>"

definition indeterminate ::
  "mesh_patch \<Rightarrow> string \<Rightarrow> (string \<times> string) list \<Rightarrow> boundary_resolution" where
  "indeterminate patch reason trace =
     \<lparr>br_patch = patch, br_status = Indeterminate_Status, br_kind = Indeterminate_Match,
      br_selector = None, br_field_type = [], br_certainty = ''indeterminate'', br_trace = trace,
      br_reason = reason\<rparr>"

definition with_state :: "pattern_state \<Rightarrow> boundary_selector list \<Rightarrow> boundary_selector list" where
  "with_state st selectors = filter (\<lambda>s. fk_state (bs_key s) = st) selectors"

definition raw_keys :: "boundary_selector list \<Rightarrow> string list" where
  "raw_keys selectors = map (\<lambda>s. fk_raw (bs_key s)) selectors"

text \<open>The regular expression tier: the patterns that match, and the ones Python refuses.\<close>

definition pattern_matches ::
  "(string \<Rightarrow> string \<Rightarrow> string + bool) \<Rightarrow> mesh_patch \<Rightarrow> boundary_selector list \<Rightarrow> boundary_selector list" where
  "pattern_matches fullmatch patch patterns =
     filter (\<lambda>s. fullmatch (fk_value (bs_key s)) (mp_name patch) = Inr True) patterns"

definition pattern_errors ::
  "(string \<Rightarrow> string \<Rightarrow> string + bool) \<Rightarrow> mesh_patch \<Rightarrow> boundary_selector list \<Rightarrow> string list" where
  "pattern_errors fullmatch patch patterns =
     concat (map (\<lambda>s. case fullmatch (fk_value (bs_key s)) (mp_name patch) of
         Inl e \<Rightarrow> [fk_raw (bs_key s) @ '': '' @ e] | Inr _ \<Rightarrow> []) patterns)"

definition resolve_patterns ::
  "(string \<Rightarrow> string \<Rightarrow> string + bool) \<Rightarrow> mesh_patch \<Rightarrow> boundary_selector list \<Rightarrow>
     (string \<times> string) list \<Rightarrow> boundary_resolution" where
  "resolve_patterns fullmatch patch patterns trace =
     (case last_by_order (pattern_matches fullmatch patch patterns) of
        Some selected \<Rightarrow>
          resolved patch Regex selected
            (trace @ [(''regex'', ''matched '' @ fk_raw (bs_key selected) @ ''; later matching pattern wins'')])
      | None \<Rightarrow>
          (let trace' = trace @ [(''regex'', ''no supported pattern matched'')];
               errors = pattern_errors fullmatch patch patterns;
               reason = ''pattern(s) not safely interpreted by Python: '' @ join ''; '' errors
           in if errors \<noteq> [] then indeterminate patch reason (trace' @ [(''indeterminate'', reason)])
              else
                \<lparr>br_patch = patch, br_status = Missing, br_kind = No_Match, br_selector = None,
                 br_field_type = [], br_certainty = ''proven'',
                 br_trace = trace' @ [(''missing'', ''no selector can cover this patch'')],
                 br_reason = ''no boundaryField selector matched''\<rparr>))"

definition resolve ::
  "(string \<Rightarrow> string \<Rightarrow> string + bool) \<Rightarrow> mesh_patch \<Rightarrow> boundary_selector list \<Rightarrow> boundary_resolution" where
  "resolve fullmatch patch selectors =
     (let literal = with_state Literal selectors;
          patterns = with_state Pattern selectors;
          unknown = with_state Indeterminate selectors;
          exact = filter (\<lambda>s. fk_value (bs_key s) = mp_name patch) literal;
          group = filter (\<lambda>s. fk_value (bs_key s) \<in> set (mp_groups patch)) literal;
          t_exact = [(''exact'', ''no explicit patch entry matched'')];
          t_group = t_exact @ [(''group'', ''no patchGroup entry matched'')]
      in if unknown \<noteq> [] then
           (let reason = ''unresolved dynamic selector(s): '' @ join '', '' (raw_keys unknown)
            in indeterminate patch reason [(''indeterminate'', reason)])
         else if exact \<noteq> [] then
           resolved patch Exact (last exact) [(''exact'', ''matched '' @ fk_raw (bs_key (last exact)))]
         else case last_by_order group of
           Some selected \<Rightarrow>
             resolved patch Group selected
               (t_exact @ [(''group'', ''matched group '' @ fk_raw (bs_key selected))])
         | None \<Rightarrow>
             if mp_patch_type patch = ''empty'' then
               \<lparr>br_patch = patch, br_status = Resolved, br_kind = Auto_Empty, br_selector = None,
                br_field_type = ''empty'', br_certainty = ''proven'',
                br_trace = t_group @ [(''auto_empty'',
                  ''mesh patch type is empty; OpenFOAM auto-empty fallback applies'')],
                br_reason = []\<rparr>
             else resolve_patterns fullmatch patch patterns
               (t_group @ [(''auto_empty'', ''not applicable'')]))"

definition resolve_all ::
  "(string \<Rightarrow> string \<Rightarrow> string + bool) \<Rightarrow> mesh_patch list \<Rightarrow> boundary_selector list \<Rightarrow>
     (string \<times> boundary_resolution) list" where
  "resolve_all fullmatch patches selectors =
     foldl (\<lambda>m p. AList.update (mp_name p) (resolve fullmatch p selectors) m) [] patches"

section \<open>The selection order\<close>

text \<open>
  An abstract account of OpenFOAM's rule: each selector covers a patch in a tier, and the strongest
  non-empty tier decides, a later entry of it winning over an earlier one.
\<close>

definition covers ::
  "(string \<Rightarrow> string \<Rightarrow> string + bool) \<Rightarrow> mesh_patch \<Rightarrow> match_kind \<Rightarrow> boundary_selector \<Rightarrow> bool" where
  "covers fullmatch patch kind s \<longleftrightarrow>
     (case kind of
        Exact \<Rightarrow> fk_state (bs_key s) = Literal \<and> fk_value (bs_key s) = mp_name patch
      | Group \<Rightarrow> fk_state (bs_key s) = Literal \<and> fk_value (bs_key s) \<in> set (mp_groups patch)
      | Regex \<Rightarrow> fk_state (bs_key s) = Pattern \<and>
          fullmatch (fk_value (bs_key s)) (mp_name patch) = Inr True
      | _ \<Rightarrow> False)"

definition winner ::
  "(string \<Rightarrow> string \<Rightarrow> string + bool) \<Rightarrow> mesh_patch \<Rightarrow> match_kind \<Rightarrow> boundary_selector list \<Rightarrow>
     boundary_selector \<Rightarrow> bool" where
  "winner fullmatch patch kind selectors s \<longleftrightarrow>
     s \<in> set selectors \<and> covers fullmatch patch kind s \<and>
     (\<forall>t \<in> set selectors. covers fullmatch patch kind t \<longrightarrow> bs_order t \<le> bs_order s)"

definition uncovered ::
  "(string \<Rightarrow> string \<Rightarrow> string + bool) \<Rightarrow> mesh_patch \<Rightarrow> match_kind \<Rightarrow> boundary_selector list \<Rightarrow> bool" where
  "uncovered fullmatch patch kind selectors \<longleftrightarrow>
     (\<forall>s \<in> set selectors. \<not> covers fullmatch patch kind s)"

lemma last_by_order_None [simp]: "last_by_order ss = None \<longleftrightarrow> ss = []"
  by (cases ss) (auto split: option.split)

lemma last_by_order_Some:
  "last_by_order ss = Some s \<Longrightarrow> s \<in> set ss \<and> (\<forall>t \<in> set ss. bs_order t \<le> bs_order s)"
proof (induction ss arbitrary: s)
  case (Cons a ss)
  then show ?case
    by (cases "last_by_order ss") (fastforce split: if_splits)+
qed simp

lemma last_max_order:
  assumes "sorted (map bs_order ss)" "ss \<noteq> []"
  shows "\<forall>t \<in> set ss. bs_order t \<le> bs_order (last ss)"
  using assms
proof (induction ss)
  case (Cons a ss)
  then show ?case by (cases "ss = []") (auto intro: order_trans)
qed simp

lemma filter_last:
  assumes "filter P xs \<noteq> []"
  shows "last (filter P xs) \<in> set xs" "P (last (filter P xs))"
proof -
  have "last (filter P xs) \<in> set (filter P xs)" using assms by (rule last_in_set)
  then show "last (filter P xs) \<in> set xs" "P (last (filter P xs))" by simp_all
qed

text \<open>The orders of parsed entries increase.\<close>

lemma blocks_from_orders:
  "sorted_wrt (<) (map fe_order (fd_entries (blocks_from closing order s))) \<and>
   (\<forall>e \<in> set (fd_entries (blocks_from closing order s)). order \<le> fe_order e)"
proof (induction closing order s rule: blocks_from.induct)
  case (1 closing order s)
  show ?case
  proof (cases "skip_ws s")
    case Nil
    then show ?thesis by (simp add: blocks_from.simps)
  next
    case (Cons c cs)
    show ?thesis
    proof (cases "c = closing")
      case True
      with Cons show ?thesis by (simp add: blocks_from.simps)
    next
      case False
      obtain k rest where pk: "parse_key (c # cs) = (k, rest)" by force
      show ?thesis
      proof (cases k)
        case None
        with 1(1) [OF Cons False pk [symmetric]] Cons False pk show ?thesis
          by (subst (1 2) blocks_from.simps) simp
      next
        case (Some key)
        note ih = 1(2-4) [OF Cons False pk [symmetric] Some refl]
        show ?thesis
        proof (cases "starts_with (skip_ws rest) ''{''")
          case True
          show ?thesis
          proof (cases "matching_delimiter (CHR ''{'') (CHR ''}'') (skip_ws rest)")
            case None
            with True Some Cons False pk show ?thesis
              by (subst (1 2) blocks_from.simps) simp
          next
            case (Some n)
            from ih(1) [OF True this refl] True Some \<open>k = Some key\<close> Cons False pk show ?thesis
              by (subst (1 2) blocks_from.simps) (auto simp: Let_def)
          qed
        next
          case noblock: False
          from ih(2) [OF noblock refl] ih(3) [OF noblock refl] noblock Some Cons False pk show ?thesis
            by (subst (1 2) blocks_from.simps) (auto simp: Let_def dest!: bspec intro: Suc_leD)
        qed
      qed
    qed
  qed
qed

lemma parse_boundary_selectors_orders:
  "sorted_wrt (<) (map bs_order (parse_boundary_selectors text))"
  using blocks_from_orders
  by (auto simp: parse_boundary_selectors_def parse_top_level_blocks_def Let_def comp_def
      split: option.split)

lemma parse_boundary_selectors_sorted:
  "sorted (map bs_order (parse_boundary_selectors text))"
  using parse_boundary_selectors_orders by (rule strict_sorted_imp_sorted)

lemma pattern_errors_isl:
  assumes "pattern_errors fullmatch patch (with_state Pattern selectors) \<noteq> []"
  shows "\<exists>s \<in> set selectors. fk_state (bs_key s) = Pattern \<and>
    isl (fullmatch (fk_value (bs_key s)) (mp_name patch))"
proof -
  obtain s where s: "s \<in> set (with_state Pattern selectors)"
    "(case fullmatch (fk_value (bs_key s)) (mp_name patch) of
        Inl e \<Rightarrow> [fk_raw (bs_key s) @ '': '' @ e] | Inr _ \<Rightarrow> []) \<noteq> []"
    using assms unfolding pattern_errors_def concat_eq_Nil_conv set_map by blast
  then have "isl (fullmatch (fk_value (bs_key s)) (mp_name patch))"
    by (cases "fullmatch (fk_value (bs_key s)) (mp_name patch)") auto
  with s(1) show ?thesis by (auto simp: with_state_def)
qed

lemma resolve_patterns_spec:
  assumes "r = resolve_patterns fullmatch patch (with_state Pattern selectors) trace" "trace \<noteq> []"
  shows "br_patch r = patch \<and> (br_status r = Indeterminate_Status \<longrightarrow> length (br_trace r) > 1) \<and>
   (case br_kind r of
      Regex \<Rightarrow> \<exists>s. br_selector r = Some s \<and> winner fullmatch patch Regex selectors s
    | Indeterminate_Match \<Rightarrow>
        uncovered fullmatch patch Regex selectors \<and>
        (\<exists>s \<in> set selectors. fk_state (bs_key s) = Pattern \<and>
           isl (fullmatch (fk_value (bs_key s)) (mp_name patch)))
    | No_Match \<Rightarrow> br_status r = Missing \<and>
        (\<forall>s \<in> set selectors. fk_state (bs_key s) = Pattern \<longrightarrow>
           fullmatch (fk_value (bs_key s)) (mp_name patch) = Inr False)
    | _ \<Rightarrow> False)"
proof -
  let ?ps = "with_state Pattern selectors"
  let ?ms = "pattern_matches fullmatch patch ?ps"
  have ms: "s \<in> set ?ms \<longleftrightarrow> s \<in> set selectors \<and> covers fullmatch patch Regex s" for s
    by (auto simp: pattern_matches_def with_state_def covers_def)
  show ?thesis
  proof (cases "last_by_order ?ms")
    case (Some s)
    then have "winner fullmatch patch Regex selectors s"
      using last_by_order_Some [OF Some] ms by (auto simp: winner_def)
    then show ?thesis using assms Some by (simp add: resolve_patterns_def resolved_def)
  next
    case None
    then have empty: "?ms = []" by simp
    then have unc: "uncovered fullmatch patch Regex selectors"
      using ms by (auto simp: uncovered_def)
    show ?thesis
    proof (cases "pattern_errors fullmatch patch ?ps = []")
      case True
      have "fullmatch (fk_value (bs_key s)) (mp_name patch) = Inr False" if s: "s \<in> set ?ps" for s
      proof (cases "fullmatch (fk_value (bs_key s)) (mp_name patch)")
        case (Inl e)
        then have "pattern_errors fullmatch patch ?ps \<noteq> []"
          using s by (auto simp: pattern_errors_def intro!: bexI [of _ s])
        with True show ?thesis by simp
      next
        case (Inr b)
        then have "b \<noteq> True" using s empty by (auto simp: pattern_matches_def filter_empty_conv)
        with Inr show ?thesis by simp
      qed
      then have "\<forall>s \<in> set ?ps. fullmatch (fk_value (bs_key s)) (mp_name patch) = Inr False" by blast
      then show ?thesis
        using assms empty True by (simp add: resolve_patterns_def with_state_def)
    next
      case False
      then have "\<exists>s \<in> set selectors. fk_state (bs_key s) = Pattern \<and>
          isl (fullmatch (fk_value (bs_key s)) (mp_name patch))"
        by (rule pattern_errors_isl)
      then show ?thesis
        using assms empty False unc by (simp add: resolve_patterns_def indeterminate_def Let_def)
    qed
  qed
qed

lemma resolve_spec_sorted:
  assumes sorted: "sorted (map bs_order selectors)"
  shows "let r = resolve fullmatch patch selectors;
       clear = (\<forall>s \<in> set selectors. fk_state (bs_key s) \<noteq> Indeterminate)
   in br_patch r = patch \<and>
      (if \<not> clear
       then br_status r = Indeterminate_Status \<and> br_selector r = None \<and>
         br_trace r = [(''indeterminate'', br_reason r)]
       else case br_kind r of
           Exact \<Rightarrow> \<exists>s. br_selector r = Some s \<and> winner fullmatch patch Exact selectors s
         | Group \<Rightarrow> uncovered fullmatch patch Exact selectors \<and>
             (\<exists>s. br_selector r = Some s \<and> winner fullmatch patch Group selectors s)
         | Auto_Empty \<Rightarrow> uncovered fullmatch patch Exact selectors \<and>
             uncovered fullmatch patch Group selectors \<and> mp_patch_type patch = ''empty'' \<and>
             br_field_type r = ''empty''
         | Regex \<Rightarrow> uncovered fullmatch patch Exact selectors \<and>
             uncovered fullmatch patch Group selectors \<and> mp_patch_type patch \<noteq> ''empty'' \<and>
             (\<exists>s. br_selector r = Some s \<and> winner fullmatch patch Regex selectors s)
         | Indeterminate_Match \<Rightarrow>
             uncovered fullmatch patch Exact selectors \<and>
             uncovered fullmatch patch Group selectors \<and>
             uncovered fullmatch patch Regex selectors \<and>
             (\<exists>s \<in> set selectors. fk_state (bs_key s) = Pattern \<and>
                isl (fullmatch (fk_value (bs_key s)) (mp_name patch)))
         | No_Match \<Rightarrow> br_status r = Missing \<and> mp_patch_type patch \<noteq> ''empty'' \<and>
             uncovered fullmatch patch Exact selectors \<and>
             uncovered fullmatch patch Group selectors \<and>
             (\<forall>s \<in> set selectors. fk_state (bs_key s) \<noteq> Pattern \<or>
                fullmatch (fk_value (bs_key s)) (mp_name patch) = Inr False))"
proof -
  let ?lit = "with_state Literal selectors"
  let ?exact = "filter (\<lambda>s. fk_value (bs_key s) = mp_name patch) ?lit"
  let ?group = "filter (\<lambda>s. fk_value (bs_key s) \<in> set (mp_groups patch)) ?lit"
  have exact: "s \<in> set ?exact \<longleftrightarrow> s \<in> set selectors \<and> covers fullmatch patch Exact s" for s
    by (auto simp: with_state_def covers_def)
  have group: "s \<in> set ?group \<longleftrightarrow> s \<in> set selectors \<and> covers fullmatch patch Group s" for s
    by (auto simp: with_state_def covers_def)
  show ?thesis
  proof (cases "with_state Indeterminate selectors = []")
    case False
    then have "\<not> (\<forall>s \<in> set selectors. fk_state (bs_key s) \<noteq> Indeterminate)"
      by (auto simp: with_state_def filter_empty_conv)
    with False show ?thesis by (simp add: resolve_def indeterminate_def Let_def)
  next
    case True
    then have clear: "\<forall>s \<in> set selectors. fk_state (bs_key s) \<noteq> Indeterminate"
      by (auto simp: with_state_def filter_empty_conv)
    show ?thesis
    proof (cases "?exact = []")
      case False
      have "sorted (map bs_order ?exact)"
        using sorted by (simp add: with_state_def sorted_filter)
      then have "winner fullmatch patch Exact selectors (last ?exact)"
        using last_max_order [OF _ False] exact last_in_set [OF False] unfolding winner_def by blast
      with False True clear show ?thesis by (simp add: resolve_def resolved_def Let_def)
    next
      case no_exact: True
      then have u1: "uncovered fullmatch patch Exact selectors"
        using exact by (auto simp: uncovered_def)
      show ?thesis
      proof (cases "last_by_order ?group")
        case (Some s)
        have "winner fullmatch patch Group selectors s"
          using last_by_order_Some [OF Some] group unfolding winner_def by blast
        with Some True no_exact clear u1 show ?thesis by (simp add: resolve_def resolved_def Let_def)
      next
        case None
        then have u2: "uncovered fullmatch patch Group selectors"
          using group by (auto simp: uncovered_def)
        show ?thesis
        proof (cases "mp_patch_type patch = ''empty''")
          case empty: True
          with None True no_exact clear u1 u2 show ?thesis by (simp add: resolve_def Let_def)
        next
          case nonempty: False
          define trace where "trace = [(''exact'', ''no explicit patch entry matched''),
            (''group'', ''no patchGroup entry matched''), (''auto_empty'', ''not applicable'')]"
          have r: "resolve fullmatch patch selectors =
              resolve_patterns fullmatch patch (with_state Pattern selectors) trace"
            using nonempty None True no_exact by (simp add: resolve_def Let_def trace_def)
          note spec = resolve_patterns_spec [OF r] 
          show ?thesis
            using spec u1 u2 nonempty clear unfolding Let_def
            by (cases "br_kind (resolve fullmatch patch selectors)") (auto simp: trace_def)
        qed
      qed
    qed
  qed
qed

text \<open>The status and the effective type, as functions of the tier and the selector.\<close>

definition status_of_kind :: "match_kind \<Rightarrow> resolution_status" where
  "status_of_kind kind =
     (case kind of Indeterminate_Match \<Rightarrow> Indeterminate_Status | No_Match \<Rightarrow> Missing | _ \<Rightarrow> Resolved)"

lemma resolve_outcome:
  "br_status (resolve fullmatch patch selectors) = status_of_kind (br_kind (resolve fullmatch patch selectors)) \<and>
   (br_selector (resolve fullmatch patch selectors) = None \<longleftrightarrow>
      br_kind (resolve fullmatch patch selectors) \<in> {Auto_Empty, Indeterminate_Match, No_Match}) \<and>
   br_field_type (resolve fullmatch patch selectors) =
     (case br_selector (resolve fullmatch patch selectors) of Some s \<Rightarrow> bs_field_type s
      | None \<Rightarrow> if br_kind (resolve fullmatch patch selectors) = Auto_Empty then ''empty'' else [])"
  by (simp add: resolve_def resolve_patterns_def resolved_def indeterminate_def status_of_kind_def Let_def
      split: option.split)


definition sample_field :: string where
  "sample_field =
     ''boundaryField { inlet { type fixedValue; } wall { type noSlip; } '' @ [CHR 0x22] @ ''wa.*'' @
     [CHR 0x22] @ '' { type slip; } }''"

definition sample_match :: "string \<Rightarrow> string \<Rightarrow> string + bool" where
  "sample_match p n = Inr (p = ''wa.*'' \<and> starts_with n ''wa'')"

definition sample_patch :: mesh_patch where
  "sample_patch = \<lparr>mp_name = ''wake'', mp_patch_type = ''patch'', mp_groups = [''outlets''], mp_order = 0\<rparr>"


end
