(* ===== verification/Foam_File.thy ===== *)
theory Foam_File
  imports Foam_Parser
begin

text \<open>
  The \<open>FoamFile\<close> header contract of case files, \<^verbatim>\<open>tools/foam_file.py\<close>: the metadata a typed
  dictionary is given, its rendering, the validation of a file's header, and the inference of a
  field class from the shape of its \<open>internalField\<close>.
\<close>

section \<open>Data\<close>

text \<open>\<open>FoamDictionaryEntry\<close> of \<^verbatim>\<open>schemas/engineering.py\<close>.\<close>

record dictionary_entry =
  de_path :: string
  de_value :: string

record foam_contract =
  fc_path :: string
  fc_class_name :: string
  fc_object_name :: string
  fc_location :: string
  fc_format :: string
  fc_version :: string

record foam_header =
  fh_class_name :: string
  fh_object_name :: string
  fh_location :: string
  fh_format :: string
  fh_version :: string
  fh_present :: bool
  fh_complete :: bool

datatype contract_error =
    Raw_Foam_File_Block
  | Unsupported_Metadata_Key string
  | Unsafe_Class_Name string
  | Not_A_Field_Class string string
  | Class_Conflicts_With_Field string string
  | Class_Not_Provable string
  | Object_Conflict string
  | Location_Conflict string
  | Format_Not_Ascii string
  | Legacy_Class_Conflict string string
  | Unsafe_Foam_Path string

datatype header_failure =
    Header_Missing
  | Opening_Brace_Missing
  | Closing_Brace_Missing
  | Required_Key_Missing string
  | Unsupported_Format string
  | Object_Mismatch string string
  | Location_Mismatch string string
  | Class_Mismatch string string
  | Non_Field_Class string
  | Class_Field_Mismatch string string

datatype header_warning = Version_Omitted | Location_Omitted

record header_validation =
  hv_valid :: bool
  hv_path :: string
  hv_header :: foam_header
  hv_failures :: "header_failure list"
  hv_warnings :: "header_warning list"

section \<open>Field classes\<close>

definition field_shapes :: "string list" where
  "field_shapes = [''Scalar'', ''Vector'', ''SphericalTensor'', ''SymmTensor'', ''Tensor'']"

definition mesh_associations :: "string list" where
  "mesh_associations = [''vol'', ''surface'', ''point'']"

definition is_field_class :: "string \<Rightarrow> bool" where
  "is_field_class c \<longleftrightarrow>
     list_ex (\<lambda>m. list_ex (\<lambda>s. strip c = m @ s @ ''Field'') field_shapes) mesh_associations"

text \<open>\<open>^(?:vol|surface|point)(.+Field)$\<close>: what follows the mesh association.\<close>

definition value_shape :: "string \<Rightarrow> string option" where
  "value_shape c =
     (let shapes = map (\<lambda>m. drop (length m) c) (filter (\<lambda>m. starts_with c m) mesh_associations)
      in case filter (\<lambda>r. ends_with r ''Field'' \<and> length r > 5 \<and> CHR 0x0A \<notin> set (take (length r - 5) r)) shapes of
           [] \<Rightarrow> None | r # _ \<Rightarrow> Some r)"

definition field_classes_value_compatible :: "string \<Rightarrow> string \<Rightarrow> bool" where
  "field_classes_value_compatible l r \<longleftrightarrow>
     value_shape (strip l) \<noteq> None \<and> value_shape (strip l) = value_shape (strip r)"

definition value_kind_to_vol_class :: "string \<Rightarrow> string option" where
  "value_kind_to_vol_class kind =
     map_of [(''scalar'', ''volScalarField''), (''vector'', ''volVectorField''),
             (''sphericaltensor'', ''volSphericalTensorField''),
             (''symmtensor'', ''volSymmTensorField''), (''tensor'', ''volTensorField'')]
       (casefold kind)"

text \<open>
  \<open>\bnonuniform\s+(?:List<)?(scalar|vector|...)>?\b\<close>, ignoring case: the kind.  After the kind the
  word boundary holds exactly when no word character follows.
\<close>

definition nonuniform_here :: "char option \<Rightarrow> string \<Rightarrow> string option" where
  "nonuniform_here before s =
     (let l = lower s in
      if starts_with l ''nonuniform'' \<and> \<not> word_before before \<and> takeWhile is_space (drop 10 l) \<noteq> [] then
        (let r = dropWhile is_space (drop 10 l);
             r' = (if starts_with r ''list<'' then drop 5 r else r)
         in case filter (\<lambda>k. starts_with r' k \<and> \<not> word_after (drop (length k) r'))
               [''scalar'', ''vector'', ''sphericaltensor'', ''symmtensor'', ''tensor''] of
              [] \<Rightarrow> None | k # _ \<Rightarrow> Some k)
      else None)"

text \<open>\<open>^[+-]?(?:\d+(?:\.\d*)?|\.\d+)(?:[eE][+-]?\d+)?$\<close>\<close>

definition exponent_part :: "string \<Rightarrow> bool" where
  "exponent_part s =
     (case s of
        [] \<Rightarrow> True
      | c # cs \<Rightarrow>
          c \<in> set ''eE'' \<and>
          (let ds = (case cs of [] \<Rightarrow> [] | d # ds \<Rightarrow> if d \<in> set ''+-'' then ds else cs)
           in ds \<noteq> [] \<and> list_all is_digit ds))"

definition is_number :: "string \<Rightarrow> bool" where
  "is_number s =
     (let u = (case s of [] \<Rightarrow> [] | c # cs \<Rightarrow> if c \<in> set ''+-'' then cs else s);
          whole = takeWhile is_digit u; rest = dropWhile is_digit u
      in if whole \<noteq> []
         then exponent_part (if starts_with rest ''.'' then dropWhile is_digit (tl rest) else rest)
         else starts_with rest ''.'' \<and> takeWhile is_digit (tl rest) \<noteq> [] \<and>
           exponent_part (dropWhile is_digit (tl rest)))"

text \<open>\<open>str.split()\<close>\<close>

fun words_from :: "string \<Rightarrow> string \<Rightarrow> string list" where
  "words_from w [] = (if w = [] then [] else [rev w])"
| "words_from w (c # cs) =
     (if is_space c then (if w = [] then words_from [] cs else rev w # words_from [] cs)
      else words_from (c # w) cs)"

definition split_words :: "string \<Rightarrow> string list" where
  "split_words s = words_from [] s"

definition infer_field_class_from_value :: "string \<Rightarrow> string option" where
  "infer_field_class_from_value value =
     (let rendered = strip (rstrip_chars '';'' (strip value))
      in case search nonuniform_here None rendered of
           Some kind \<Rightarrow> value_kind_to_vol_class kind
         | None \<Rightarrow>
             if \<not> (starts_with rendered ''uniform'' \<and> takeWhile is_space (drop 7 rendered) \<noteq> [])
             then None
             else
               (let payload = strip (drop 7 rendered)
                in if is_number payload then Some ''volScalarField''
                   else if starts_with payload ''('' \<and> ends_with payload '')'' then
                     (let atoms = split_words (take (length payload - 2) (tl payload))
                      in if atoms = [] \<or> \<not> list_all is_number atoms then None
                         else map_of
                           [(1, ''volSphericalTensorField''), (3, ''volVectorField''),
                            (6, ''volSymmTensorField''), (9, ''volTensorField'')] (length atoms))
                   else None))"

definition infer_field_class_from_entries :: "dictionary_entry list \<Rightarrow> string option" where
  "infer_field_class_from_entries entries =
     (case find (\<lambda>e. de_path e = ''internalField'') entries of
        None \<Rightarrow> None | Some e \<Rightarrow> infer_field_class_from_value (de_value e))"

text \<open>
  \<open>\binternalField\s+(.+?);\<close>: the value up to the next semicolon, of at least one character.
\<close>

definition internal_field_here :: "char option \<Rightarrow> string \<Rightarrow> string option" where
  "internal_field_here before s =
     (if starts_with s ''internalField'' \<and> \<not> word_before before then
        (let ws = takeWhile is_space (drop 13 s); r = dropWhile is_space (drop 13 s)
         in if ws = [] then None
            else if r \<noteq> [] \<and> CHR '';'' \<in> set (tl r)
            then Some (hd r # takeWhile (\<lambda>c. c \<noteq> CHR '';'') (tl r))
            else if starts_with r '';'' \<and> length ws \<ge> 2 then Some [last ws] else None)
      else None)"

definition infer_field_class_from_text :: "string \<Rightarrow> string option" where
  "infer_field_class_from_text text =
     (case search internal_field_here None (strip_comments text) of
        None \<Rightarrow> None | Some v \<Rightarrow> infer_field_class_from_value v)"

section \<open>The contract of a typed dictionary\<close>

definition normalize_case_path :: "string \<Rightarrow> contract_error + string" where
  "normalize_case_path path =
     (let value = map (\<lambda>c. if c = CHR 0x5C then CHR ''/'' else c) (strip path)
      in if value = [] \<or> starts_with value ''/'' \<or> ''..'' \<in> set (path_parts value)
         then Inl (Unsafe_Foam_Path path) else Inr (posix_str value))"

definition clean_header_value :: "string \<Rightarrow> string" where
  "clean_header_value value =
     (let rendered = strip (rstrip_chars '';'' (strip value))
      in strip (if length rendered \<ge> 2 \<and> hd rendered = last rendered \<and> hd rendered \<in> set quote_chars
                then butlast (tl rendered) else rendered))"

text \<open>The words of a container placeholder such as \<open>{ }\<close> or \<open>dictionary\<close>.\<close>

definition container_marker :: "string \<Rightarrow> bool" where
  "container_marker value \<longleftrightarrow>
     join '' '' (split_words (lower (strip value))) \<in>
       {''{}'', ''{ }'', ''{'' @ [CHR 0x0A] @ ''}'', ''block'', ''dictionary''}"

definition metadata_keys :: "string list" where
  "metadata_keys = [''version'', ''format'', ''class'', ''location'', ''object'']"

fun split_entries ::
  "dictionary_entry list \<Rightarrow> (string \<times> string) list \<Rightarrow>
     contract_error + ((string \<times> string) list \<times> dictionary_entry list)" where
  "split_entries [] legacy = Inr (legacy, [])"
| "split_entries (e # es) legacy =
     (if de_path e = ''FoamFile'' then
        (if container_marker (de_value e) then split_entries es legacy else Inl Raw_Foam_File_Block)
      else if starts_with (de_path e) ''FoamFile.'' then
        (let key = drop 9 (de_path e)
         in if key \<notin> set metadata_keys then Inl (Unsupported_Metadata_Key (de_path e))
            else split_entries es (AList.update key (clean_header_value (de_value e)) legacy))
      else bind_result (split_entries es legacy) (\<lambda>(l, body). Inr (l, e # body)))"

definition class_name_ok :: "string \<Rightarrow> bool" where
  "class_name_ok c \<longleftrightarrow>
     c \<noteq> [] \<and> is_alpha (hd c) \<and> list_all (\<lambda>x. is_alpha x \<or> is_digit x \<or> x = CHR ''_'') c"

definition or_empty :: "string option \<Rightarrow> string" where
  "or_empty v = get_default [] v"

definition resolved_class ::
  "string \<Rightarrow> string \<Rightarrow> string option \<Rightarrow> contract_error + string" where
  "resolved_class path declared inferred =
     (if hd (split_on (CHR ''/'') path) = ''0'' then
        (if declared \<noteq> [] then
           (if \<not> is_field_class declared then Inl (Not_A_Field_Class path declared)
            else case inferred of
              None \<Rightarrow> Inr declared
            | Some shape \<Rightarrow>
                if shape \<noteq> declared \<and> \<not> field_classes_value_compatible declared shape
                then Inl (Class_Conflicts_With_Field declared shape) else Inr declared)
         else case inferred of
           None \<Rightarrow> Inl (Class_Not_Provable path)
         | Some shape \<Rightarrow> Inr shape)
      else Inr (if declared = [] then ''dictionary'' else declared))"

definition path_location :: "string \<Rightarrow> string" where
  "path_location path = (if path_parent path = ''.'' then [] else path_parent path)"

definition resolve_foam_file_contract ::
  "string \<Rightarrow> dictionary_entry list \<Rightarrow> string option \<Rightarrow>
     contract_error + (foam_contract \<times> dictionary_entry list)" where
  "resolve_foam_file_contract path entries explicit_class =
     bind_result (normalize_case_path path) (\<lambda>p.
       bind_result (split_entries entries []) (\<lambda>(legacy, body).
         let explicit = strip (or_empty explicit_class);
             declared = (if explicit = [] then or_empty (map_of legacy ''class'') else explicit);
             object_name = path_name p; location = path_location p;
             l_object = or_empty (map_of legacy ''object''); l_location = or_empty (map_of legacy ''location'');
             l_format = or_empty (map_of legacy ''format''); l_class = or_empty (map_of legacy ''class'')
         in if declared \<noteq> [] \<and> \<not> class_name_ok declared then Inl (Unsafe_Class_Name declared)
            else bind_result (resolved_class p declared (infer_field_class_from_entries body)) (\<lambda>cls.
              if l_object \<noteq> [] \<and> l_object \<noteq> object_name then Inl (Object_Conflict l_object)
              else if l_location \<noteq> [] \<and> l_location \<noteq> location then Inl (Location_Conflict l_location)
              else if l_format \<noteq> [] \<and> l_format \<noteq> ''ascii'' then Inl (Format_Not_Ascii l_format)
              else if l_class \<noteq> [] \<and> l_class \<noteq> cls then Inl (Legacy_Class_Conflict l_class cls)
              else Inr (\<lparr>fc_path = p, fc_class_name = cls, fc_object_name = object_name,
                         fc_location = location, fc_format = ''ascii'', fc_version = ''2.0''\<rparr>, body))))"

definition nl :: string where
  "nl = [CHR 0x0A]"

definition dq :: string where
  "dq = [CHR 0x22]"

definition render_foam_file_header :: "foam_contract \<Rightarrow> string" where
  "render_foam_file_header c =
     ''FoamFile'' @ nl @ ''{'' @ nl @
     ''    version '' @ fc_version c @ '';'' @ nl @
     ''    format '' @ fc_format c @ '';'' @ nl @
     ''    class '' @ fc_class_name c @ '';'' @ nl @
     (if fc_location c = [] then [] else ''    location '' @ dq @ fc_location c @ dq @ '';'' @ nl) @
     ''    object '' @ fc_object_name c @ '';'' @ nl @ ''}'' @ nl"

section \<open>Validation of a header\<close>

text \<open>
  The matches of \<open>\b(version|format|class|location|object)\s+([^;{}]+);\<close> from left to right, as
  \<open>finditer\<close> yields them.
\<close>

definition keyword_here :: "char option \<Rightarrow> string \<Rightarrow> (string \<times> string \<times> string) option" where
  "keyword_here before s =
     (if word_before before then None
      else case filter (\<lambda>k. starts_with s k) metadata_keys of
        [] \<Rightarrow> None
      | k # _ \<Rightarrow>
          (let t = drop (length k) s; ws = takeWhile is_space t; r = dropWhile is_space t;
               grp = takeWhile (\<lambda>c. c \<notin> set '';{}'') r; after = drop (length grp) r
           in if ws \<noteq> [] \<and> starts_with after '';'' \<and> (grp \<noteq> [] \<or> length ws \<ge> 2)
              then Some (k, grp, tl after) else None))"

lemma keyword_here_rest:
  "keyword_here before (c # cs) = Some (k, v, rest) \<Longrightarrow> length rest < length (c # cs)"
proof -
  assume k: "keyword_here before (c # cs) = Some (k, v, rest)"
  then have key: "k \<in> set metadata_keys" "starts_with (c # cs) k"
    and rest: "\<exists>n. rest = tl (drop n (dropWhile is_space (drop (length k) (c # cs))))"
    by (auto simp: keyword_here_def Let_def filter_eq_Cons_iff split: if_splits list.splits)
      (metis in_set_conv_decomp)+
  have "0 < length k" using key(1) by (auto simp: metadata_keys_def)
  moreover have "length rest \<le> length (drop (length k) (c # cs))"
  proof -
    obtain n where "rest = tl (drop n (dropWhile is_space (drop (length k) (c # cs))))"
      using rest by blast
    then have "length rest \<le> length (dropWhile is_space (drop (length k) (c # cs)))" by simp
    then show ?thesis using length_dropWhile_le by (rule order_trans)
  qed
  ultimately show "length rest < length (c # cs)"
    unfolding length_drop list.size by linarith
qed

function header_values ::
  "char option \<Rightarrow> (string \<times> string) list \<Rightarrow> string \<Rightarrow> (string \<times> string) list" where
  "header_values before values [] = values"
| "header_values before values (c # cs) =
     (case keyword_here before (c # cs) of
        None \<Rightarrow> header_values (Some c) values cs
      | Some (k, v, rest) \<Rightarrow>
          header_values (Some (CHR '';'')) (AList.update k (clean_header_value v) values) rest)"
  by pat_completeness auto
termination
  by (relation "measure (\<lambda>(before, values, s). length s)") (auto dest: keyword_here_rest)

definition present_header :: "bool \<Rightarrow> foam_header" where
  "present_header b =
     \<lparr>fh_class_name = [], fh_object_name = [], fh_location = [], fh_format = [], fh_version = [],
      fh_present = b, fh_complete = False\<rparr>"

definition header_of_values :: "(string \<times> string) list \<Rightarrow> foam_header" where
  "header_of_values values =
     \<lparr>fh_class_name = or_empty (map_of values ''class''),
      fh_object_name = or_empty (map_of values ''object''),
      fh_location = or_empty (map_of values ''location''),
      fh_format = or_empty (map_of values ''format''),
      fh_version = or_empty (map_of values ''version''),
      fh_present = True,
      fh_complete = list_all (\<lambda>k. or_empty (map_of values k) \<noteq> []) [''format'', ''class'', ''object'']\<rparr>"

definition no_header :: "string \<Rightarrow> bool \<Rightarrow> header_failure \<Rightarrow> header_validation" where
  "no_header p present failure =
     \<lparr>hv_valid = False, hv_path = p, hv_header = present_header present, hv_failures = [failure],
      hv_warnings = []\<rparr>"

definition header_failures ::
  "string \<Rightarrow> string \<Rightarrow> (string \<times> string) list \<Rightarrow> string option \<Rightarrow> bool \<Rightarrow> header_failure list" where
  "header_failures p text values expected_class field_required =
     (let h = header_of_values values;
          inferred = infer_field_class_from_text text
      in concat (map (\<lambda>k. if or_empty (map_of values k) = [] then [Required_Key_Missing k] else [])
           [''format'', ''class'', ''object'']) @
         (if fh_format h \<noteq> [] \<and> fh_format h \<notin> {''ascii'', ''binary''}
          then [Unsupported_Format (fh_format h)] else []) @
         (if fh_object_name h \<noteq> [] \<and> fh_object_name h \<noteq> path_name p
          then [Object_Mismatch (fh_object_name h) (path_name p)] else []) @
         (if fh_location h \<noteq> [] \<and> fh_location h \<noteq> path_location p
          then [Location_Mismatch (fh_location h) (path_location p)] else []) @
         (if or_empty expected_class \<noteq> [] \<and> fh_class_name h \<noteq> [] \<and>
             fh_class_name h \<noteq> or_empty expected_class
          then [Class_Mismatch (fh_class_name h) (or_empty expected_class)] else []) @
         (if field_required \<and> fh_class_name h \<noteq> [] \<and> \<not> is_field_class (fh_class_name h)
          then [Non_Field_Class (fh_class_name h)] else []) @
         (if starts_with p ''0/'' \<and> fh_class_name h \<noteq> [] \<and> or_empty inferred \<noteq> [] \<and>
             or_empty inferred \<noteq> fh_class_name h \<and>
             \<not> field_classes_value_compatible (fh_class_name h) (or_empty inferred)
          then [Class_Field_Mismatch (fh_class_name h) (or_empty inferred)] else []))"

definition validate_foam_file_header ::
  "string \<Rightarrow> string \<Rightarrow> string option \<Rightarrow> bool option \<Rightarrow> contract_error + header_validation" where
  "validate_foam_file_header path text expected_class require_field_class =
     bind_result (normalize_case_path path) (\<lambda>p.
       let clean = strip_comments text; start = skip_ws clean
       in if \<not> starts_with start ''FoamFile'' then Inr (no_header p False Header_Missing)
          else
            (let at_brace = dropWhile (\<lambda>c. c \<noteq> CHR ''{'') (drop 8 start)
             in if at_brace = [] then Inr (no_header p True Opening_Brace_Missing)
                else case matching_delimiter (CHR ''{'') (CHR ''}'') at_brace of
                  None \<Rightarrow> Inr (no_header p True Closing_Brace_Missing)
                | Some n \<Rightarrow>
                    (let values = header_values None [] (take (n - 1) (tl at_brace));
                         field_required = get_default (starts_with p ''0/'') require_field_class;
                         failures = header_failures p text values expected_class field_required;
                         h = header_of_values values
                     in Inr \<lparr>hv_valid = (failures = []), hv_path = p, hv_header = h,
                             hv_failures = failures,
                             hv_warnings = (if fh_version h = [] then [Version_Omitted] else []) @
                               (if fh_location h = [] then [Location_Omitted] else [])\<rparr>)))"

section \<open>Scanning plain text\<close>

lemma strip_from_skip:
  "\<forall>c \<in> set u. c \<notin> set quote_chars \<and> c \<noteq> CHR ''/'' \<Longrightarrow> strip_from None (u @ r) = u @ strip_from None r"
  by (induction u) auto

lemma strip_from_quoted:
  assumes "q \<in> set quote_chars" "q \<notin> set u" "CHR 0x5C \<notin> set u"
  shows "strip_from None (q # u @ q # r) = q # u @ q # strip_from None r"
proof -
  have "strip_from (Some q) (u @ q # r) = u @ q # strip_from None r"
    using assms(2,3) assms(1) by (induction u) (auto simp: quote_chars_def)
  with assms(1) show ?thesis by simp
qed

definition shift :: "nat \<Rightarrow> nat option \<Rightarrow> nat option" where
  "shift n v = map_option (\<lambda>k. n + k) v"

lemma shift_simps [simp]:
  "shift n None = None" "shift n (Some k) = Some (n + k)"
  "map_option Suc (shift n v) = shift (Suc n) v" "shift 0 v = v" "shift m (shift n v) = shift (m + n) v"
  by (cases v; simp add: shift_def)+

lemma delimiter_skip:
  "\<forall>c \<in> set u. c \<notin> set quote_chars \<and> c \<noteq> a \<and> c \<noteq> b \<Longrightarrow>
     delimiter_from a b None d (u @ r) = shift (length u) (delimiter_from a b None d r)"
  by (induction u) auto

lemma delimiter_quoted:
  assumes "q \<in> set quote_chars" "q \<notin> set u" "CHR 0x5C \<notin> set u"
  shows "delimiter_from a b None d (q # u @ q # r) = shift (length u + 2) (delimiter_from a b None d r)"
proof -
  have "q \<noteq> CHR 0x5C" using assms(1) by (auto simp: quote_chars_def)
  then have "delimiter_from a b (Some q) d (u @ q # r) = shift (Suc (length u)) (delimiter_from a b None d r)"
    using assms(2,3) by (induction u) (auto simp: shift_def option.map_comp comp_def)
  with assms(1) show ?thesis by simp
qed

section \<open>A rendered header is read back\<close>

text \<open>The characters of a typed dictionary's path, \<open>[A-Za-z0-9_./-]\<close>.\<close>

definition path_char :: "char \<Rightarrow> bool" where
  "path_char c \<longleftrightarrow> is_alpha c \<or> is_digit c \<or> c \<in> set ''_./-''"

lemma path_char_cases:
  assumes "path_char c"
  shows "\<not> is_space c" "c \<notin> set quote_chars" "c \<noteq> CHR 0x5C" "c \<noteq> CHR '';''" "c \<noteq> CHR ''{''" "c \<noteq> CHR ''}''"
  using assms by (auto simp: path_char_def is_alpha_def is_digit_def is_space_def quote_chars_def Let_def)

lemma strip_id: "(s = [] \<or> \<not> is_space (hd s) \<and> \<not> is_space (last s)) \<Longrightarrow> strip s = s"
proof (cases s rule: rev_cases)
  case (snoc t c)
  assume "s = [] \<or> \<not> is_space (hd s) \<and> \<not> is_space (last s)"
  with snoc have "\<not> is_space (hd (t @ [c]))" "\<not> is_space c" by auto
  then have "dropWhile is_space (t @ [c]) = t @ [c]" by (cases t) auto
  with snoc \<open>\<not> is_space c\<close> show ?thesis by (simp add: strip_def)
qed (simp add: strip_def)

lemma strip_path: "list_all path_char s \<Longrightarrow> strip s = s"
  by (rule strip_id) (auto simp: list_all_iff path_char_cases)

lemma clean_header_value_plain:
  assumes "list_all path_char v"
  shows "clean_header_value v = v"
proof -
  have rs: "rstrip_chars '';'' v = v"
  proof (rule rstrip_chars_id)
    show "v = [] \<or> last v \<notin> set '';''"
      using assms by (cases "v = []") (simp_all add: list_all_iff path_char_cases(4))
  qed
  have no: "\<not> (2 \<le> length v \<and> hd v = last v \<and> hd v \<in> set quote_chars)"
    using assms by (cases v) (auto simp: path_char_cases)
  show ?thesis
    unfolding clean_header_value_def strip_path [OF assms] rs Let_def
    using no by (simp only: if_False strip_path [OF assms])
qed

lemma clean_header_value_quoted:
  assumes "list_all path_char v"
  shows "clean_header_value (dq @ v @ dq) = v"
proof -
  have "strip (dq @ v @ dq) = dq @ v @ dq"
    by (rule strip_id) (simp add: dq_def is_space_def)
  moreover have "rstrip_chars '';'' (dq @ v @ dq) = dq @ v @ dq"
    by (rule rstrip_chars_id) (simp add: dq_def)
  ultimately show ?thesis
    using strip_path [OF assms] by (simp add: clean_header_value_def dq_def quote_chars_def butlast_append)
qed

lemma keyword_here_value:
  assumes "k \<in> set metadata_keys" "\<not> word_before before"
    and "v \<noteq> []" "\<not> is_space (hd v)" "\<forall>c \<in> set v. c \<notin> set '';{}''"
  shows "keyword_here before (k @ '' '' @ v @ '';'' @ r) = Some (k, v, r)"
proof -
  obtain x xs where v: "v = x # xs" "\<not> is_space x" using assms(3,4) by (cases v) auto
  have keys: "filter (\<lambda>k'. starts_with (k @ '' '' @ v @ '';'' @ r) k') metadata_keys = [k]"
    using assms(1) by (auto simp: metadata_keys_def)
  have sp: "is_space (CHR '' '')" by (simp add: is_space_def)
  have ws: "takeWhile is_space ('' '' @ v @ '';'' @ r) = '' ''"
    "dropWhile is_space ('' '' @ v @ '';'' @ r) = v @ '';'' @ r"
    using sp v by simp_all
  have dr: "drop (length k) (k @ '' '' @ v @ '';'' @ r) = '' '' @ v @ '';'' @ r"
    by simp
  have grp: "takeWhile (\<lambda>c. c \<notin> set '';{}'') (v @ '';'' @ r) = v"
    using assms(5) by (subst takeWhile_append2) simp_all
  show ?thesis
    unfolding keyword_here_def keys list.case Let_def dr ws grp
    using assms(2,3) by simp
qed

lemma header_values_skip:
  "keyword_here before (c # cs) = None \<Longrightarrow>
     header_values before values (c # cs) = header_values (Some c) values cs"
  by simp

lemma header_values_space:
  "c \<in> {CHR '' '', CHR 0x0A} \<Longrightarrow>
     header_values before values (c # cs) = header_values (Some c) values cs"
  by (intro header_values_skip) (auto simp: keyword_here_def metadata_keys_def)


text \<open>Text the comment stripper and the brace matcher both pass over.\<close>

definition transparent :: "string \<Rightarrow> bool" where
  "transparent u \<longleftrightarrow>
     (\<forall>r. strip_from None (u @ r) = u @ strip_from None r) \<and>
     (\<forall>d r. delimiter_from (CHR ''{'') (CHR ''}'') None d (u @ r) =
        shift (length u) (delimiter_from (CHR ''{'') (CHR ''}'') None d r))"

lemma transparent_append: "transparent u \<Longrightarrow> transparent v \<Longrightarrow> transparent (u @ v)"
  by (simp add: transparent_def)

lemma transparent_chars:
  "\<forall>c \<in> set u. c \<notin> set quote_chars \<and> c \<notin> set ''/{}'' \<Longrightarrow> transparent u"
  by (simp add: transparent_def strip_from_skip delimiter_skip)

lemma transparent_quoted: "list_all path_char v \<Longrightarrow> transparent (dq @ v @ dq)"
proof -
  assume v: "list_all path_char v"
  have q: "CHR 0x22 \<in> set quote_chars" by (simp add: quote_chars_def)
  then have nv: "CHR 0x22 \<notin> set v" "CHR 0x5C \<notin> set v"
    using v by (auto simp: list_all_iff dest: path_char_cases)
  show "transparent (dq @ v @ dq)"
    using strip_from_quoted [OF q nv] delimiter_quoted [OF q nv] by (simp add: transparent_def dq_def)
qed

definition header_line :: "string \<Rightarrow> string \<Rightarrow> string" where
  "header_line k v = nl @ ''    '' @ k @ '' '' @ v @ '';''"

lemma render_lines:
  "render_foam_file_header c =
     ''FoamFile'' @ nl @ ''{'' @
     (header_line ''version'' (fc_version c) @ header_line ''format'' (fc_format c) @
      header_line ''class'' (fc_class_name c) @
      (if fc_location c = [] then [] else header_line ''location'' (dq @ fc_location c @ dq)) @
      header_line ''object'' (fc_object_name c)) @ nl @ ''}'' @ nl"
  by (simp add: render_foam_file_header_def header_line_def nl_def)

lemma transparent_line:
  assumes "k \<in> set metadata_keys" "transparent v"
  shows "transparent (header_line k v)"
  unfolding header_line_def
proof (intro transparent_append assms(2))
  show "transparent nl" "transparent ''    ''" "transparent '' ''" "transparent '';''"
    by (rule transparent_chars, simp add: nl_def quote_chars_def)+
  show "transparent k"
    using assms(1) by (intro transparent_chars) (auto simp: metadata_keys_def quote_chars_def)
qed

lemma header_values_line:
  assumes "k \<in> set metadata_keys" "v \<noteq> []" "\<not> is_space (hd v)" "\<forall>c \<in> set v. c \<notin> set '';{}''"
  shows "header_values before vals (header_line k v @ r) =
     header_values (Some (CHR '';'')) (AList.update k (clean_header_value v) vals) r"
proof -
  have wb: "\<not> word_before (Some (CHR '' ''))" by (simp add: word_before_def regex_word_def ascii_word_def is_alpha_def is_digit_def)
  obtain c cs where k: "k = c # cs" using assms(1) by (cases k) (auto simp: metadata_keys_def)
  have "header_values before vals (header_line k v @ r) =
      header_values (Some (CHR '' '')) vals (k @ '' '' @ v @ '';'' @ r)"
    by (simp del: header_values.simps add: header_line_def nl_def header_values_space)
  also have "\<dots> = header_values (Some (CHR '';'')) (AList.update k (clean_header_value v) vals) r"
    using keyword_here_value [OF assms(1) wb assms(2-4), of r] unfolding k by simp
  finally show ?thesis .
qed


definition header_of_contract :: "foam_contract \<Rightarrow> foam_header" where
  "header_of_contract c =
     \<lparr>fh_class_name = fc_class_name c, fh_object_name = fc_object_name c,
      fh_location = fc_location c, fh_format = fc_format c, fh_version = fc_version c,
      fh_present = True, fh_complete = True\<rparr>"

definition header_pairs :: "foam_contract \<Rightarrow> (string \<times> string) list" where
  "header_pairs c =
     [(''version'', fc_version c), (''format'', fc_format c), (''class'', fc_class_name c)] @
     (if fc_location c = [] then [] else [(''location'', fc_location c)]) @
     [(''object'', fc_object_name c)]"

definition simple_value :: "string \<Rightarrow> bool" where
  "simple_value v \<longleftrightarrow> v \<noteq> [] \<and> list_all path_char v"

lemma simple_value_line:
  assumes "simple_value v" "k \<in> set metadata_keys"
  shows "header_values before vals (header_line k v @ r) =
     header_values (Some (CHR '';'')) (AList.update k v vals) r"
proof -
  have "\<not> is_space (hd v)" "\<forall>c \<in> set v. c \<notin> set '';{}''"
    using assms(1) by (cases v; auto simp: simple_value_def list_all_iff dest: path_char_cases)+
  then show ?thesis
    using header_values_line [OF assms(2), of v] assms(1) clean_header_value_plain [of v]
    by (simp add: simple_value_def)
qed

lemma quoted_value_line:
  assumes "list_all path_char v" "k \<in> set metadata_keys"
  shows "header_values before vals (header_line k (dq @ v @ dq) @ r) =
     header_values (Some (CHR '';'')) (AList.update k v vals) r"
proof -
  have "\<not> is_space (hd (dq @ v @ dq))" "\<forall>c \<in> set (dq @ v @ dq). c \<notin> set '';{}''" "dq @ v @ dq \<noteq> []"
    using assms(1) by (auto simp: dq_def is_space_def list_all_iff dest: path_char_cases)
  then show ?thesis
    using header_values_line [OF assms(2), of "dq @ v @ dq"] clean_header_value_quoted [OF assms(1)]
    by simp
qed

lemma header_values_nl: "header_values before vals nl = vals"
  unfolding nl_def by (subst header_values_space) simp_all

lemma header_lines_read:
  assumes "simple_value (fc_version c)" "simple_value (fc_format c)" "simple_value (fc_class_name c)"
    "simple_value (fc_object_name c)" "list_all path_char (fc_location c)"
  shows "header_values None []
     ((header_line ''version'' (fc_version c) @ header_line ''format'' (fc_format c) @
       header_line ''class'' (fc_class_name c) @
       (if fc_location c = [] then [] else header_line ''location'' (dq @ fc_location c @ dq)) @
       header_line ''object'' (fc_object_name c)) @ nl) = header_pairs c"
proof -
  have keys: "''version'' \<in> set metadata_keys" "''format'' \<in> set metadata_keys"
    "''class'' \<in> set metadata_keys" "''location'' \<in> set metadata_keys" "''object'' \<in> set metadata_keys"
    by (simp_all add: metadata_keys_def)
  note lines = simple_value_line [OF _ keys(1)] simple_value_line [OF _ keys(2)]
    simple_value_line [OF _ keys(3)] simple_value_line [OF _ keys(5)] quoted_value_line [OF _ keys(4)]
  show ?thesis
  proof (cases "fc_location c = []")
    case True
    with assms show ?thesis
      by (simp add: lines header_values_nl header_pairs_def)
  next
    case False
    with assms show ?thesis
      by (simp only: if_False append_assoc lines header_values_nl) (simp add: header_pairs_def)
  qed
qed

lemma header_of_pairs:
  assumes "fc_format c \<noteq> []" "fc_class_name c \<noteq> []" "fc_object_name c \<noteq> []"
  shows "header_of_values (header_pairs c) = header_of_contract c"
  using assms by (auto simp: header_of_values_def header_pairs_def header_of_contract_def or_empty_def)

lemma simple_transparent: "list_all path_char v \<Longrightarrow> CHR ''/'' \<notin> set v \<Longrightarrow> transparent v"
  by (rule transparent_chars) (auto simp: list_all_iff dest: path_char_cases)

text \<open>The header the reader finds at the start of a rendered file.\<close>

lemma validate_rendered:
  assumes "normalize_case_path path = Inr (fc_path c)"
    and "simple_value (fc_version c)" "simple_value (fc_format c)" "simple_value (fc_class_name c)"
    and "simple_value (fc_object_name c)" "list_all path_char (fc_location c)"
    and "CHR ''/'' \<notin> set (fc_version c @ fc_format c @ fc_class_name c @ fc_object_name c)"
  shows "\<exists>hv. validate_foam_file_header path (render_foam_file_header c @ rest) None None = Inr hv \<and>
     hv_path hv = fc_path c \<and> hv_header hv = header_of_contract c \<and>
     hv_valid hv = (hv_failures hv = []) \<and>
     hv_failures hv = header_failures (fc_path c) (render_foam_file_header c @ rest) (header_pairs c) None
       (starts_with (fc_path c) ''0/'')"
proof -
  define body where "body =
    header_line ''version'' (fc_version c) @ header_line ''format'' (fc_format c) @
    header_line ''class'' (fc_class_name c) @
    (if fc_location c = [] then [] else header_line ''location'' (dq @ fc_location c @ dq)) @
    header_line ''object'' (fc_object_name c)"
  have nlt: "transparent nl" by (rule transparent_chars) (simp add: nl_def quote_chars_def)
  have bodyt: "transparent (body @ nl)"
  proof -
    have lines: "transparent (header_line ''version'' (fc_version c))"
      "transparent (header_line ''format'' (fc_format c))"
      "transparent (header_line ''class'' (fc_class_name c))"
      "transparent (header_line ''object'' (fc_object_name c))"
      "transparent (header_line ''location'' (dq @ fc_location c @ dq))"
    proof -
      have line: "transparent (header_line k v)"
        if "k \<in> set metadata_keys" "simple_value v" "CHR ''/'' \<notin> set v" for k v
        using that by (intro transparent_line simple_transparent) (auto simp: simple_value_def)
      show "transparent (header_line ''version'' (fc_version c))"
        "transparent (header_line ''format'' (fc_format c))"
        "transparent (header_line ''class'' (fc_class_name c))"
        "transparent (header_line ''object'' (fc_object_name c))"
        using assms by (auto intro!: line simp: metadata_keys_def)
      show "transparent (header_line ''location'' (dq @ fc_location c @ dq))"
        using assms(6) by (intro transparent_line transparent_quoted) (simp_all add: metadata_keys_def)
    qed
    then show ?thesis
      unfolding body_def by (cases "fc_location c = []") (auto intro!: transparent_append nlt)
  qed
  let ?after = "strip_from None (''}'' @ nl @ rest)"
  have after: "?after = ''}'' @ nl @ strip_from None rest"
    by (simp add: nl_def quote_chars_def)
  have clean: "strip_comments (render_foam_file_header c @ rest) =
      ''FoamFile'' @ nl @ ''{'' @ (body @ nl) @ ''}'' @ nl @ strip_from None rest"
  proof -
    have "render_foam_file_header c @ rest = ''FoamFile'' @ nl @ ''{'' @ (body @ nl) @ ''}'' @ nl @ rest"
      unfolding render_lines body_def by simp
    moreover have "strip_from None (''FoamFile'' @ nl @ ''{'' @ (body @ nl) @ ''}'' @ nl @ rest) =
        ''FoamFile'' @ nl @ ''{'' @ strip_from None ((body @ nl) @ ''}'' @ nl @ rest)"
      by (simp add: nl_def quote_chars_def)
    moreover have "strip_from None ((body @ nl) @ ''}'' @ nl @ rest) = (body @ nl) @ ?after"
      using bodyt unfolding transparent_def by blast
    ultimately show ?thesis unfolding strip_comments_def after by simp
  qed
  let ?text = "''{'' @ (body @ nl) @ ''}'' @ nl @ strip_from None rest"
  have start: "skip_ws (''FoamFile'' @ nl @ ?text) = ''FoamFile'' @ nl @ ?text"
    by (simp add: skip_ws_def is_space_def)
  have brace: "dropWhile (\<lambda>c. c \<noteq> CHR ''{'') (drop 8 (''FoamFile'' @ nl @ ?text)) = ?text"
    by (simp add: nl_def)
  have "delimiter_from (CHR ''{'') (CHR ''}'') None 1 ((body @ nl) @ ''}'' @ nl @ strip_from None rest) =
      Some (length (body @ nl))"
  proof -
    have "delimiter_from (CHR ''{'') (CHR ''}'') None 1 ((body @ nl) @ ''}'' @ nl @ strip_from None rest) =
      shift (length (body @ nl))
        (delimiter_from (CHR ''{'') (CHR ''}'') None 1 (''}'' @ nl @ strip_from None rest))"
      using bodyt unfolding transparent_def by blast
    then show ?thesis by (simp add: quote_chars_def)
  qed
  then have closing: "matching_delimiter (CHR ''{'') (CHR ''}'') ?text = Some (Suc (length (body @ nl)))"
    by (simp add: matching_delimiter_def quote_chars_def)
  have group: "take (Suc (length (body @ nl)) - 1) (tl ?text) = body @ nl"
    by simp
  have sw: "starts_with (''FoamFile'' @ nl @ ?text) ''FoamFile''" by simp
  have vals: "header_values None [] (body @ nl) = header_pairs c"
    unfolding body_def using assms by (intro header_lines_read)
  have ne: "?text \<noteq> []" by simp
  show ?thesis
    unfolding validate_foam_file_header_def assms(1) bind_result_simps Let_def clean start brace
      closing option.case group vals
    using sw ne header_of_pairs [of c] assms(3-5)
    by (simp add: simple_value_def)
qed


text \<open>The contract the resolver returns meets the reader's conditions.\<close>

lemma set_split_on: "w \<in> set (split_on c s) \<Longrightarrow> set w \<subseteq> set s"
proof (induction s arbitrary: w)
  case (Cons x xs)
  obtain v vs where sp: "split_on c xs = v # vs" by (cases "split_on c xs") auto
  with Cons.IH have "\<forall>u \<in> set (v # vs). set u \<subseteq> set xs" by simp
  with Cons.prems sp show ?case by (fastforce split: if_splits)
qed simp

lemma set_path_tail: "w \<in> set (path_tail p) \<Longrightarrow> set w \<subseteq> set p"
  by (auto simp: path_tail_def dest: set_split_on)

lemma set_join: "set (join sep ws) \<subseteq> set sep \<union> (\<Union>w \<in> set ws. set w)"
  by (induction sep ws rule: join.induct) auto

lemma slash_path_char [simp]: "path_char (CHR ''/'')"
  by (simp add: path_char_def)

lemma join_path_chars:
  assumes "list_all path_char p" "set ws \<subseteq> set (path_tail p)"
  shows "list_all path_char (join ''/'' ws)"
proof -
  have sub: "(\<Union>w \<in> set ws. set w) \<subseteq> set p" using assms(2) set_path_tail by blast
  have "set (join ''/'' ws) \<subseteq> {CHR ''/''} \<union> (\<Union>w \<in> set ws. set w)" using set_join [of "''/''" ws] by simp
  also have "\<dots> \<subseteq> {CHR ''/''} \<union> set p" using sub by (rule Un_mono [OF order_refl])
  finally have "\<forall>c \<in> set (join ''/'' ws). c = CHR ''/'' \<or> c \<in> set p" by blast
  with assms(1) show ?thesis using slash_path_char unfolding list_all_iff by metis
qed

lemma if_Inl_eq_Inr: "(if b then Inl e else r) = Inr x \<longleftrightarrow> \<not> b \<and> r = Inr x"
  by simp

lemma normalize_path_chars:
  assumes "list_all path_char path" "normalize_case_path path = Inr p"
  shows "p = posix_str path"
proof -
  have "map (\<lambda>c. if c = CHR 0x5C then CHR ''/'' else c) path = path"
    using assms(1) by (intro map_idI) (simp add: list_all_iff path_char_cases(3))
  then show ?thesis
    using assms(2) unfolding normalize_case_path_def strip_path [OF assms(1)] Let_def
    by (simp only: if_Inl_eq_Inr sum.inject)
qed

lemma class_name_simple:
  assumes "class_name_ok c"
  shows "simple_value c \<and> CHR ''/'' \<notin> set c"
proof -
  have "\<not> (is_alpha (CHR ''/'') \<or> is_digit (CHR ''/'') \<or> CHR ''/'' = CHR ''_'')"
    by (simp add: is_alpha_def is_digit_def)
  with assms show ?thesis
    by (auto simp: class_name_ok_def simple_value_def list_all_iff path_char_def)
qed

lemma inferred_class:
  assumes "infer_field_class_from_entries es = Some c"
  shows "c \<in> {''volScalarField'', ''volVectorField'', ''volSphericalTensorField'', ''volSymmTensorField'',
     ''volTensorField''}"
proof -
  have "infer_field_class_from_value v = Some c \<Longrightarrow> ?thesis" for v
    by (auto simp: infer_field_class_from_value_def value_kind_to_vol_class_def Let_def
        dest!: map_of_SomeD split: option.splits if_splits)
  with assms show ?thesis
    by (auto simp: infer_field_class_from_entries_def split: option.splits)
qed

lemma inferred_class_ok:
  "infer_field_class_from_entries es = Some c \<Longrightarrow> is_field_class c \<and> class_name_ok c"
  by (drule inferred_class)
    (auto simp: is_field_class_def mesh_associations_def field_shapes_def strip_def is_space_def
      class_name_ok_def is_alpha_def)

lemma resolved_class_ok:
  assumes "resolved_class p declared (infer_field_class_from_entries es) = Inr c"
    and "declared = [] \<or> class_name_ok declared"
  shows "class_name_ok c" "hd (split_on (CHR ''/'') p) = ''0'' \<Longrightarrow> is_field_class c"
proof -
  have dict: "class_name_ok ''dictionary''" by (simp add: class_name_ok_def is_alpha_def)
  show "class_name_ok c"
    using assms inferred_class_ok dict
    by (auto simp: resolved_class_def split: if_split_asm option.split_asm)
  show "hd (split_on (CHR ''/'') p) = ''0'' \<Longrightarrow> is_field_class c"
    using assms(1) inferred_class_ok
    by (auto simp: resolved_class_def split: if_split_asm option.split_asm)
qed

lemma contract_shape:
  assumes "resolve_foam_file_contract path entries cls = Inr (c, body)"
  shows "normalize_case_path path = Inr (fc_path c)" "class_name_ok (fc_class_name c)"
    "fc_object_name c = path_name (fc_path c)" "fc_location c = path_location (fc_path c)"
    "fc_format c = ''ascii''" "fc_version c = ''2.0''"
    "hd (split_on (CHR ''/'') (fc_path c)) = ''0'' \<Longrightarrow> is_field_class (fc_class_name c)"
proof -
  obtain p legacy body' where p: "normalize_case_path path = Inr p"
    and l: "split_entries entries [] = Inr (legacy, body')"
    using assms by (auto simp only: resolve_foam_file_contract_def bind_result_eq_Inr)
  define declared where "declared =
    (if strip (or_empty cls) = [] then or_empty (map_of legacy ''class'') else strip (or_empty cls))"
  obtain k where r: "resolved_class p declared (infer_field_class_from_entries body') = Inr k"
    and d: "declared = [] \<or> class_name_ok declared"
    and c: "c = \<lparr>fc_path = p, fc_class_name = k, fc_object_name = path_name p,
      fc_location = path_location p, fc_format = ''ascii'', fc_version = ''2.0''\<rparr>"
    using assms unfolding resolve_foam_file_contract_def p l bind_result_simps prod.case Let_def
      declared_def [symmetric] if_Inl_eq_Inr bind_result_eq_Inr by auto
  show "class_name_ok (fc_class_name c)" "hd (split_on (CHR ''/'') (fc_path c)) = ''0'' \<Longrightarrow> is_field_class (fc_class_name c)"
    using resolved_class_ok [OF r d] by (simp_all add: c)
  show "normalize_case_path path = Inr (fc_path c)" "fc_object_name c = path_name (fc_path c)"
    "fc_location c = path_location (fc_path c)" "fc_format c = ''ascii''" "fc_version c = ''2.0''"
    using p by (simp_all add: c)
qed

lemma hd_split_starts: "starts_with p ''0/'' \<Longrightarrow> hd (split_on (CHR ''/'') p) = ''0''"
proof -
  assume "starts_with p ''0/''"
  then obtain q where "p = ''0/'' @ q" by (auto simp: starts_with_def prefix_def)
  then show ?thesis by simp
qed

text \<open>
  C29: For a contract the resolver returned on a plain case path, the
  rendered header, put in front of any content, is read back by \<open>validate_foam_file_header\<close> with
  exactly the contract's version, format, class, location and object, is complete, and passes every
  check; the only failure left to the content is a field below \<open>0/\<close> whose value shape is not the
  declared class.
\<close>

theorem rendered_header_roundtrip:
  assumes "resolve_foam_file_contract path entries cls = Inr (c, body)"
    and "list_all path_char path" and "case_relative path"
  shows "\<exists>hv. validate_foam_file_header path (render_foam_file_header c @ rest) None None = Inr hv \<and>
     hv_path hv = posix_str path \<and> hv_header hv = header_of_contract c \<and>
     hv_valid hv = (hv_failures hv = []) \<and>
     set (hv_failures hv) \<subseteq>
       (if starts_with (posix_str path) ''0/'' then range (Class_Field_Mismatch (fc_class_name c)) else {})"
proof -
  note shape = contract_shape [OF assms(1)]
  have p: "fc_path c = posix_str path" using normalize_path_chars [OF assms(2) shape(1)] .
  have tail: "path_tail (fc_path c) = path_tail path" "path_tail path \<noteq> []"
    using case_relative_posix_str(2) [OF assms(3)] assms(3) by (simp_all add: p case_relative_def)
  have root: "path_root (fc_path c) = []"
    using case_relative_posix_str(1) [OF assms(3)] by (simp add: p case_relative_def)
  have obj: "fc_object_name c = last (path_tail path)" "last (path_tail path) \<in> set (path_tail path)"
    using tail by (simp_all add: shape(3) path_name_def)
  have name: "simple_value (fc_object_name c)" "CHR ''/'' \<notin> set (fc_object_name c)"
    using path_tail_plain [OF obj(2)] set_path_tail [OF obj(2)] assms(2)
    by (auto simp: simple_value_def obj(1) plain_component_def list_all_iff)
  have loc: "list_all path_char (fc_location c)"
    using join_path_chars [OF assms(2), of "butlast (path_tail path)"] tail root
    by (auto simp: shape(4) path_location_def path_parent_def dest: in_set_butlastD)
  have const: "simple_value (fc_version c)" "simple_value (fc_format c)"
    "CHR ''/'' \<notin> set (fc_version c)" "CHR ''/'' \<notin> set (fc_format c)"
    by (simp_all add: shape(5,6) simple_value_def path_char_def is_digit_def is_alpha_def)
  note cls = class_name_simple [OF shape(2)]
  have header: "header_of_values (header_pairs c) = header_of_contract c"
    using const cls name by (intro header_of_pairs) (simp_all add: simple_value_def)
  obtain hv where hv: "validate_foam_file_header path (render_foam_file_header c @ rest) None None = Inr hv"
    "hv_path hv = fc_path c" "hv_header hv = header_of_contract c" "hv_valid hv = (hv_failures hv = [])"
    "hv_failures hv = header_failures (fc_path c) (render_foam_file_header c @ rest) (header_pairs c) None
       (starts_with (fc_path c) ''0/'')"
    using validate_rendered [OF shape(1), of rest] const cls name loc by auto
  have "set (hv_failures hv) \<subseteq>
      (if starts_with (fc_path c) ''0/'' then range (Class_Field_Mismatch (fc_class_name c)) else {})"
    unfolding hv(5) header_failures_def header Let_def
    using cls name const shape(7) hd_split_starts
    by (auto simp: header_of_contract_def header_pairs_def or_empty_def shape(3-6) simple_value_def)
  with hv show ?thesis unfolding p by blast
qed

theorem rendered_header_roundtrip_witness:
  "\<exists>c hv. resolve_foam_file_contract ''0/U''
       [\<lparr>de_path = ''internalField'', de_value = ''uniform (1 0 0)''\<rparr>] None =
       Inr (c, [\<lparr>de_path = ''internalField'', de_value = ''uniform (1 0 0)''\<rparr>]) \<and>
     fc_class_name c = ''volVectorField'' \<and>
     validate_foam_file_header ''0/U''
       (render_foam_file_header c @ ''internalField uniform (1 0 0);'') None None = Inr hv \<and>
     hv_header hv = header_of_contract c"
proof -
  let ?e = "[\<lparr>de_path = ''internalField'', de_value = ''uniform (1 0 0)''\<rparr>]"
  let ?c = "\<lparr>fc_path = ''0/U'', fc_class_name = ''volVectorField'', fc_object_name = ''U'',
    fc_location = ''0'', fc_format = ''ascii'', fc_version = ''2.0''\<rparr>"
  have r: "resolve_foam_file_contract ''0/U'' ?e None = Inr (?c, ?e)" by code_simp
  moreover have "list_all path_char ''0/U''" "case_relative ''0/U''" by code_simp+
  ultimately show ?thesis
    using rendered_header_roundtrip [of "''0/U''" ?e None ?c ?e "''internalField uniform (1 0 0);''"] by fastforce
qed


end
