(* ===== verification/Block_Topology.thy ===== *)
theory Block_Topology
  imports Complex_Main Prelude "HOL-Library.Multiset"
begin

text \<open>
  The topology of a typed \<^verbatim>\<open>blockMeshDict\<close>, \<^verbatim>\<open>tools/block_mesh_topology.py\<close>: which blocks own a face,
  and the check that runs before blockMesh.  An issue carries the data its message shows.
\<close>

section \<open>The specification\<close>

text \<open>
  \<open>TypedBlockMeshFile\<close>.  The vertices of a block and of a face are lists of eight and of four indices;
  what the validators of the schema guarantee is \<open>spec_ok\<close>.
\<close>

record mesh_block =
  mb_vertices :: "nat list"
  mb_cells :: "nat list"
  mb_grading :: string

record mesh_edge =
  me_kind :: string
  me_start :: nat
  me_end :: nat
  me_definition :: string

record boundary_patch =
  bp_name :: string
  bp_type :: string
  bp_faces :: "nat list list"

record block_mesh_spec =
  bm_scale :: rat
  bm_scale_keyword :: string
  bm_vertices :: "(rat \<times> rat \<times> rat) list"
  bm_mesh_blocks :: "mesh_block list"
  bm_edges :: "mesh_edge list"
  bm_boundary :: "boundary_patch list"
  bm_merge_patch_pairs :: "(string \<times> string) list"

definition bm_blocks :: "block_mesh_spec \<Rightarrow> nat list list" where
  "bm_blocks spec = map mb_vertices (bm_mesh_blocks spec)"

definition spec_refs :: "block_mesh_spec \<Rightarrow> nat list" where
  "spec_refs spec =
     concat (bm_blocks spec) @ concat (map (\<lambda>e. [me_start e, me_end e]) (bm_edges spec)) @
     concat (map (\<lambda>p. concat (bp_faces p)) (bm_boundary spec))"

definition spec_ok :: "block_mesh_spec \<Rightarrow> bool" where
  "spec_ok spec \<longleftrightarrow>
     list_all (\<lambda>b. length (mb_vertices b) = 8 \<and> length (mb_cells b) = 3 \<and> list_all (\<lambda>n. 1 \<le> n) (mb_cells b))
       (bm_mesh_blocks spec) \<and>
     list_all (\<lambda>p. list_all (\<lambda>f. length f = 4) (bp_faces p)) (bm_boundary spec) \<and>
     list_all (\<lambda>i. i < length (bm_vertices spec)) (spec_refs spec) \<and>
     distinct (map bp_name (bm_boundary spec))"

section \<open>Owners of faces and edges of blocks\<close>

definition hex_face_slots :: "nat list list" where
  "hex_face_slots =
     [[0, 1, 2, 3], [4, 5, 6, 7], [0, 1, 5, 4], [1, 2, 6, 5], [2, 3, 7, 6], [3, 0, 4, 7]]"

definition hex_edge_slots :: "(nat \<times> nat) list" where
  "hex_edge_slots =
     [(0, 1), (1, 2), (2, 3), (3, 0), (4, 5), (5, 6), (6, 7), (7, 4), (0, 4), (1, 5), (2, 6), (3, 7)]"

definition canonical_face :: "nat list \<Rightarrow> nat list" where
  "canonical_face vertices = sort vertices"

definition canonical_edge :: "nat \<Rightarrow> nat \<Rightarrow> nat \<times> nat" where
  "canonical_edge first second = (if first < second then (first, second) else (second, first))"

record face_owner =
  fo_block_index :: nat
  fo_local_face_index :: nat
  fo_oriented_vertices :: "nat list"

record topology_ir =
  ir_face_owners :: "(nat list \<times> face_owner list) list"
  ir_block_edges :: "(nat \<times> nat) list"

text \<open>\<open>m.setdefault(k, []).append(v)\<close>\<close>

fun setdefault_append :: "'k \<Rightarrow> 'v \<Rightarrow> ('k \<times> 'v list) list \<Rightarrow> ('k \<times> 'v list) list" where
  "setdefault_append k v [] = [(k, [v])]"
| "setdefault_append k v ((k', vs) # m) =
     (if k = k' then (k', vs @ [v]) # m else (k', vs) # setdefault_append k v m)"

definition block_face_owners :: "nat \<Rightarrow> nat list \<Rightarrow> face_owner list" where
  "block_face_owners b vertices =
     map (\<lambda>(i, slots). \<lparr>fo_block_index = b, fo_local_face_index = i,
         fo_oriented_vertices = map (\<lambda>slot. vertices ! slot) slots\<rparr>)
       (zip [0..<length hex_face_slots] hex_face_slots)"

definition spec_face_owners :: "block_mesh_spec \<Rightarrow> face_owner list" where
  "spec_face_owners spec =
     concat (map (\<lambda>(b, vertices). block_face_owners b vertices)
       (zip [0..<length (bm_blocks spec)] (bm_blocks spec)))"

definition block_edges :: "nat list \<Rightarrow> (nat \<times> nat) list" where
  "block_edges vertices = map (\<lambda>(i, j). canonical_edge (vertices ! i) (vertices ! j)) hex_edge_slots"

definition from_spec :: "block_mesh_spec \<Rightarrow> topology_ir" where
  "from_spec spec =
     \<lparr>ir_face_owners = fold (\<lambda>owner. setdefault_append (canonical_face (fo_oriented_vertices owner)) owner)
        (spec_face_owners spec) [],
      ir_block_edges = concat (map block_edges (bm_blocks spec))\<rparr>"

section \<open>The check\<close>

datatype topology_issue =
    Degenerate_Block_Vertices nat "nat list"
  | Non_Manifold_Block_Face "nat list" "nat list"
  | Degenerate_Boundary_Face string nat "nat list"
  | Boundary_Face_Not_On_Block string nat "nat list"
  | Boundary_Face_Owned string nat "nat list" "nat list"
  | Boundary_Face_Assigned_Twice string nat "nat list" string nat
  | Degenerate_Block_Edge nat nat
  | Edge_Not_On_Block nat nat nat
  | Edge_Defined_Twice nat nat nat nat
  | Merge_Patch_Self_Pair nat string
  | Merge_Patch_Unknown_Patch nat "string list"

fun issue_code :: "topology_issue \<Rightarrow> string" where
  "issue_code (Degenerate_Block_Vertices b vs) = ''degenerate_block_vertices''"
| "issue_code (Non_Manifold_Block_Face f owners) = ''non_manifold_block_face''"
| "issue_code (Degenerate_Boundary_Face p i f) = ''degenerate_boundary_face''"
| "issue_code (Boundary_Face_Not_On_Block p i f) = ''boundary_face_not_on_block''"
| "issue_code (Boundary_Face_Owned p i f owners) =
     (if length owners = 2 then ''boundary_face_is_internal'' else ''boundary_face_non_manifold'')"
| "issue_code (Boundary_Face_Assigned_Twice p i f q j) = ''boundary_face_assigned_twice''"
| "issue_code (Degenerate_Block_Edge i v) = ''degenerate_block_edge''"
| "issue_code (Edge_Not_On_Block i v w) = ''edge_not_on_block''"
| "issue_code (Edge_Defined_Twice i v w j) = ''edge_defined_twice''"
| "issue_code (Merge_Patch_Self_Pair i p) = ''merge_patch_self_pair''"
| "issue_code (Merge_Patch_Unknown_Patch i ps) = ''merge_patch_unknown_patch''"

definition block_issues :: "block_mesh_spec \<Rightarrow> topology_issue list" where
  "block_issues spec =
     concat (map (\<lambda>(b, vertices).
       if length (remdups vertices) \<noteq> 8 then [Degenerate_Block_Vertices b vertices] else [])
       (zip [0..<length (bm_blocks spec)] (bm_blocks spec)))"

definition manifold_issues :: "topology_ir \<Rightarrow> topology_issue list" where
  "manifold_issues ir =
     concat (map (\<lambda>(face, owners).
       if length owners > 2 then [Non_Manifold_Block_Face face (map fo_block_index owners)] else [])
       (sort_key fst (ir_face_owners ir)))"

text \<open>The faces of the boundary in order, each with its patch and its index in the patch.\<close>

definition boundary_faces :: "block_mesh_spec \<Rightarrow> (string \<times> nat \<times> nat list) list" where
  "boundary_faces spec =
     concat (map (\<lambda>patch. map (\<lambda>(i, face). (bp_name patch, i, face))
       (zip [0..<length (bp_faces patch)] (bp_faces patch))) (bm_boundary spec))"

fun boundary_issues ::
  "topology_ir \<Rightarrow> (nat list \<times> string \<times> nat) list \<Rightarrow> (string \<times> nat \<times> nat list) list \<Rightarrow> topology_issue list"
where
  "boundary_issues ir assigned [] = []"
| "boundary_issues ir assigned ((patch, i, face) # faces) =
     (let key = canonical_face face; owners = get_default [] (map_of (ir_face_owners ir) key)
      in if length (remdups face) \<noteq> 4
         then Degenerate_Boundary_Face patch i face # boundary_issues ir assigned faces
         else if owners = []
         then Boundary_Face_Not_On_Block patch i face # boundary_issues ir assigned faces
         else if length owners \<noteq> 1
         then Boundary_Face_Owned patch i face (map fo_block_index owners) # boundary_issues ir assigned faces
         else case map_of assigned key of
           Some (previous_patch, previous_index) \<Rightarrow>
             Boundary_Face_Assigned_Twice patch i face previous_patch previous_index #
             boundary_issues ir assigned faces
         | None \<Rightarrow> boundary_issues ir ((key, patch, i) # assigned) faces)"

fun edge_issues ::
  "topology_ir \<Rightarrow> ((nat \<times> nat) \<times> nat) list \<Rightarrow> nat \<Rightarrow> mesh_edge list \<Rightarrow> topology_issue list" where
  "edge_issues ir defined n [] = []"
| "edge_issues ir defined n (e # es) =
     (if me_start e = me_end e
      then Degenerate_Block_Edge n (me_start e) # edge_issues ir defined (Suc n) es
      else
        let key = canonical_edge (me_start e) (me_end e)
        in (if key \<notin> set (ir_block_edges ir) then [Edge_Not_On_Block n (me_start e) (me_end e)] else []) @
           (case map_of defined key of
              Some i \<Rightarrow> Edge_Defined_Twice n (me_start e) (me_end e) i # edge_issues ir defined (Suc n) es
            | None \<Rightarrow> edge_issues ir ((key, n) # defined) (Suc n) es))"

definition merge_issues :: "block_mesh_spec \<Rightarrow> topology_issue list" where
  "merge_issues spec =
     concat (map (\<lambda>(i, first, second).
       (let missing = filter (\<lambda>name. name \<notin> set (map bp_name (bm_boundary spec))) [first, second]
        in (if first = second then [Merge_Patch_Self_Pair i first] else []) @
           (if missing \<noteq> [] then [Merge_Patch_Unknown_Patch i missing] else [])))
       (zip [0..<length (bm_merge_patch_pairs spec)] (bm_merge_patch_pairs spec)))"

definition validate_block_mesh_topology :: "block_mesh_spec \<Rightarrow> topology_ir \<times> topology_issue list" where
  "validate_block_mesh_topology spec =
     (let ir = from_spec spec
      in (ir, block_issues spec @ manifold_issues ir @ boundary_issues ir [] (boundary_faces spec) @
            edge_issues ir [] 0 (bm_edges spec) @ merge_issues spec))"

definition report_valid :: "topology_ir \<times> topology_issue list \<Rightarrow> bool" where
  "report_valid report \<longleftrightarrow> snd report = []"

section \<open>Owners by face\<close>

lemma map_of_setdefault_append:
  "map_of (setdefault_append k v m) k' =
     (if k' = k then Some (get_default [] (map_of m k) @ [v]) else map_of m k')"
  by (induction k v m rule: setdefault_append.induct) auto

lemma keys_setdefault_append:
  "map fst (setdefault_append k v m) = (if k \<in> fst ` set m then map fst m else map fst m @ [k])"
  by (induction k v m rule: setdefault_append.induct) auto

lemma map_of_grouped:
  "get_default [] (map_of (fold (\<lambda>x. setdefault_append (g x) x) xs m) k) =
     get_default [] (map_of m k) @ filter (\<lambda>x. g x = k) xs"
  by (induction xs arbitrary: m) (simp_all add: map_of_setdefault_append)

lemma distinct_grouped:
  "distinct (map fst m) \<Longrightarrow> distinct (map fst (fold (\<lambda>x. setdefault_append (g x) x) xs m))"
  by (induction xs arbitrary: m) (simp_all add: keys_setdefault_append)

lemma keys_grouped:
  "fst ` set (fold (\<lambda>x. setdefault_append (g x) x) xs m) = fst ` set m \<union> g ` set xs"
proof (induction xs arbitrary: m)
  case (Cons x xs)
  have "fst ` set (setdefault_append (g x) x m) = insert (g x) (fst ` set m)"
    using keys_setdefault_append [of "g x" x m] by (metis (no_types, opaque_lifting) insert_absorb list.set_map
        list.simps(15) rotate1.simps(2) set_rotate1)
  then show ?case by (simp add: Cons.IH)
qed simp

lemma owners_of:
  "get_default [] (map_of (ir_face_owners (from_spec spec)) face) =
     filter (\<lambda>owner. canonical_face (fo_oriented_vertices owner) = face) (spec_face_owners spec)"
  by (simp add: from_spec_def map_of_grouped)

lemma canonical_face_eq_iff: "canonical_face f = canonical_face g \<longleftrightarrow> mset f = mset g"
proof
  assume "canonical_face f = canonical_face g"
  then show "mset f = mset g" unfolding canonical_face_def by (metis mset_sort)
next
  assume "mset f = mset g"
  then show "canonical_face f = canonical_face g"
    unfolding canonical_face_def by (metis mset_sort properties_for_sort sorted_sort)
qed

text \<open>
  The number of block faces on the vertices of \<open>face\<close>, in any order: the faces of all blocks that are
  permutations of it.
\<close>

definition block_face :: "nat list \<Rightarrow> nat list \<Rightarrow> nat list" where
  "block_face vertices slots = map (\<lambda>slot. vertices ! slot) slots"

definition face_sharing :: "block_mesh_spec \<Rightarrow> nat list \<Rightarrow> nat" where
  "face_sharing spec face =
     sum_list (map (\<lambda>vertices. length (filter (\<lambda>slots. mset (block_face vertices slots) = mset face)
       hex_face_slots)) (bm_blocks spec))"

lemma length_filter_block_owners:
  "length (filter (\<lambda>owner. P (fo_oriented_vertices owner)) (block_face_owners b vertices)) =
     length (filter (\<lambda>slots. P (block_face vertices slots)) hex_face_slots)"
  by (simp add: block_face_owners_def hex_face_slots_def block_face_def)

lemma length_filter_concat: "length (filter P (concat xss)) = sum_list (map (\<lambda>xs. length (filter P xs)) xss)"
  by (induction xss) auto

lemma length_owners:
  "length (filter (\<lambda>owner. P (fo_oriented_vertices owner)) (spec_face_owners spec)) =
     sum_list (map (\<lambda>vertices. length (filter (\<lambda>slots. P (block_face vertices slots)) hex_face_slots))
       (bm_blocks spec))"
proof -
  let ?count = "\<lambda>vertices. length (filter (\<lambda>slots. P (block_face vertices slots)) hex_face_slots)"
  let ?blocks = "zip [0..<length (bm_blocks spec)] (bm_blocks spec)"
  have "length (filter (\<lambda>owner. P (fo_oriented_vertices owner))
      (concat (map (\<lambda>(b, vertices). block_face_owners b vertices) zs))) = sum_list (map ?count (map snd zs))" for zs
    by (induction zs) (auto simp: length_filter_block_owners)
  from this [of ?blocks] have "length (filter (\<lambda>owner. P (fo_oriented_vertices owner)) (spec_face_owners spec)) =
      sum_list (map ?count (map snd ?blocks))"
    by (simp only: spec_face_owners_def)
  moreover have "map snd ?blocks = bm_blocks spec" by simp
  ultimately show ?thesis by (simp only:)
qed

lemma owners_count:
  "length (get_default [] (map_of (ir_face_owners (from_spec spec)) (canonical_face face))) = face_sharing spec face"
  using length_owners [of "\<lambda>f. canonical_face f = canonical_face face"]
  by (simp add: owners_of face_sharing_def canonical_face_eq_iff)

lemma face_sharing_cong: "mset f = mset g \<Longrightarrow> face_sharing spec f = face_sharing spec g"
  by (simp add: face_sharing_def)

section \<open>What an accepted topology satisfies\<close>

lemma block_issues_Nil: "block_issues spec = [] \<longleftrightarrow> (\<forall>vertices \<in> set (bm_blocks spec). card (set vertices) = 8)"
proof -
  have "block_issues spec = [] \<longleftrightarrow>
    (\<forall>p \<in> set (zip [0..<length (bm_blocks spec)] (bm_blocks spec)). card (set (snd p)) = 8)"
    by (auto simp: block_issues_def length_remdups_card_conv split_def split: if_splits)
  also have "\<dots> \<longleftrightarrow> (\<forall>vertices \<in> snd ` set (zip [0..<length (bm_blocks spec)] (bm_blocks spec)). card (set vertices) = 8)"
    by blast
  finally show ?thesis by (metis list.set_map length_upt minus_nat.diff_0 map_snd_zip)
qed

lemma manifold_issues_Nil:
  "manifold_issues (from_spec spec) = [] \<longleftrightarrow> (\<forall>face. face_sharing spec face \<le> 2)"
proof -
  let ?m = "ir_face_owners (from_spec spec)"
  have dist: "distinct (map fst ?m)" by (simp add: from_spec_def distinct_grouped)
  have "manifold_issues (from_spec spec) = [] \<longleftrightarrow> (\<forall>(face, owners) \<in> set ?m. length owners \<le> 2)"
    by (auto simp: manifold_issues_def not_less split: prod.splits) (metis leI)
  also have "\<dots> \<longleftrightarrow> (\<forall>key. length (get_default [] (map_of ?m key)) \<le> 2)"
  proof
    assume all: "\<forall>(face, owners) \<in> set ?m. length owners \<le> 2"
    show "\<forall>key. length (get_default [] (map_of ?m key)) \<le> 2"
    proof
      fix key
      show "length (get_default [] (map_of ?m key)) \<le> 2"
        using all by (cases "map_of ?m key") (auto dest: map_of_SomeD)
    qed
  next
    assume all: "\<forall>key. length (get_default [] (map_of ?m key)) \<le> 2"
    show "\<forall>(face, owners) \<in> set ?m. length owners \<le> 2"
    proof (clarify)
      fix face owners
      assume "(face, owners) \<in> set ?m"
      with dist have "map_of ?m face = Some owners" by (simp add: map_of_eq_Some_iff)
      with all show "length owners \<le> 2" by (metis get_default_simps(2))
    qed
  qed
  also have "\<dots> \<longleftrightarrow> (\<forall>face. face_sharing spec face \<le> 2)"
  proof
    assume "\<forall>key. length (get_default [] (map_of ?m key)) \<le> 2"
    then show "\<forall>face. face_sharing spec face \<le> 2" using owners_count by metis
  next
    assume shared: "\<forall>face. face_sharing spec face \<le> 2"
    show "\<forall>key. length (get_default [] (map_of ?m key)) \<le> 2"
    proof
      fix key
      show "length (get_default [] (map_of ?m key)) \<le> 2"
      proof (cases "\<exists>owner \<in> set (spec_face_owners spec). canonical_face (fo_oriented_vertices owner) = key")
        case True
        then show ?thesis using shared owners_count by metis
      next
        case False
        then have "filter (\<lambda>owner. canonical_face (fo_oriented_vertices owner) = key) (spec_face_owners spec) = []"
          by (simp add: filter_empty_conv)
        then show ?thesis by (simp add: owners_of)
      qed
    qed
  qed
  finally show ?thesis .
qed

lemma boundary_issues_Nil:
  "boundary_issues (from_spec spec) assigned faces = [] \<longleftrightarrow>
     (\<forall>(p, i, face) \<in> set faces. card (set face) = 4 \<and> face_sharing spec face = 1) \<and>
     distinct (map (\<lambda>(p, i, face). mset face) faces) \<and>
     (\<forall>(p, i, face) \<in> set faces. canonical_face face \<notin> fst ` set assigned)"
proof (induction faces arbitrary: assigned)
  case (Cons f faces)
  obtain p i face where f: "f = (p, i, face)" by (metis prod_cases3)
  let ?owners = "get_default [] (map_of (ir_face_owners (from_spec spec)) (canonical_face face))"
  have owners: "?owners = [] \<longleftrightarrow> face_sharing spec face = 0" "length ?owners = face_sharing spec face"
    using owners_count [of spec face] by (simp_all flip: length_0_conv)
  show ?case
  proof (cases "card (set face) = 4 \<and> face_sharing spec face = 1 \<and> canonical_face face \<notin> fst ` set assigned")
    case True
    then have "map_of assigned (canonical_face face) = None" by (simp add: map_of_eq_None_iff)
    with True owners have eq: "boundary_issues (from_spec spec) assigned (f # faces) =
        boundary_issues (from_spec spec) ((canonical_face face, p, i) # assigned) faces"
      by (auto simp: f Let_def length_remdups_card_conv)
    have step: "boundary_issues (from_spec spec) assigned (f # faces) = [] \<longleftrightarrow>
        (\<forall>(p, i, face) \<in> set faces. card (set face) = 4 \<and> face_sharing spec face = 1) \<and>
        distinct (map (\<lambda>(p, i, face). mset face) faces) \<and>
        (\<forall>(p, i, face') \<in> set faces. mset face' \<noteq> mset face \<and> canonical_face face' \<notin> fst ` set assigned)"
      unfolding eq Cons.IH [of "(canonical_face face, p, i) # assigned"] by (auto simp: canonical_face_eq_iff split_def)
    have "mset face \<notin> (\<lambda>(p, i, face). mset face) ` set faces \<longleftrightarrow>
        (\<forall>(p, i, face') \<in> set faces. mset face' \<noteq> mset face)"
      by force
    with True show ?thesis unfolding step by (simp add: f split_def) blast
  next
    case False
    then have "boundary_issues (from_spec spec) assigned (f # faces) \<noteq> []"
      using owners by (auto simp: f Let_def length_remdups_card_conv map_of_eq_None_iff split: option.splits)
    with False show ?thesis by (auto simp: f)
  qed
qed simp

lemma canonical_edge_eq_iff: "canonical_edge a b = canonical_edge c d \<longleftrightarrow> {a, b} = {c, d}"
  by (auto simp: canonical_edge_def doubleton_eq_iff)

text \<open>An edge of a block joins two of its vertices along the hexahedron.\<close>

definition on_block_edge :: "block_mesh_spec \<Rightarrow> nat set \<Rightarrow> bool" where
  "on_block_edge spec ends \<longleftrightarrow>
     (\<exists>vertices \<in> set (bm_blocks spec). \<exists>(i, j) \<in> set hex_edge_slots. ends = {vertices ! i, vertices ! j})"

lemma block_edge_iff:
  "canonical_edge a b \<in> set (ir_block_edges (from_spec spec)) \<longleftrightarrow> on_block_edge spec {a, b}"
  by (auto simp: from_spec_def block_edges_def on_block_edge_def canonical_edge_eq_iff image_iff split_def)

lemma edge_issues_Nil:
  "edge_issues (from_spec spec) defined n es = [] \<longleftrightarrow>
     (\<forall>e \<in> set es. me_start e \<noteq> me_end e \<and> on_block_edge spec {me_start e, me_end e}) \<and>
     distinct (map (\<lambda>e. {me_start e, me_end e}) es) \<and>
     (\<forall>e \<in> set es. canonical_edge (me_start e) (me_end e) \<notin> fst ` set defined)"
proof (induction es arbitrary: defined n)
  case (Cons e es)
  let ?key = "canonical_edge (me_start e) (me_end e)"
  show ?case
  proof (cases "me_start e \<noteq> me_end e \<and> ?key \<notin> fst ` set defined")
    case True
    then have "map_of defined ?key = None" by (simp add: map_of_eq_None_iff)
    with True Cons.IH [of "(?key, n) # defined" "Suc n"] show ?thesis
      by (auto simp: Let_def block_edge_iff canonical_edge_eq_iff)
  next
    case False
    then have "edge_issues (from_spec spec) defined n (e # es) \<noteq> []"
      by (auto simp: Let_def map_of_eq_None_iff split: option.splits)
    with False show ?thesis by auto
  qed
qed simp

lemma merge_issues_Nil:
  "merge_issues spec = [] \<longleftrightarrow> (\<forall>(a, b) \<in> set (bm_merge_patch_pairs spec).
     a \<noteq> b \<and> a \<in> bp_name ` set (bm_boundary spec) \<and> b \<in> bp_name ` set (bm_boundary spec))"
proof -
  let ?pairs = "zip [0..<length (bm_merge_patch_pairs spec)] (bm_merge_patch_pairs spec)"
  have "merge_issues spec = [] \<longleftrightarrow> (\<forall>q \<in> set ?pairs. fst (snd q) \<noteq> snd (snd q) \<and>
      fst (snd q) \<in> bp_name ` set (bm_boundary spec) \<and> snd (snd q) \<in> bp_name ` set (bm_boundary spec))"
    by (auto simp: merge_issues_def Let_def split_def split: if_splits)
  also have "\<dots> \<longleftrightarrow> (\<forall>q \<in> snd ` set ?pairs. fst q \<noteq> snd q \<and>
      fst q \<in> bp_name ` set (bm_boundary spec) \<and> snd q \<in> bp_name ` set (bm_boundary spec))"
    by blast
  also have "snd ` set ?pairs = set (bm_merge_patch_pairs spec)"
    by (metis list.set_map length_upt minus_nat.diff_0 map_snd_zip)
  finally show ?thesis by (simp add: split_def)
qed

text \<open>
  The check reports nothing exactly when every block has eight different vertices, no face belongs to
  more than two block faces, every boundary face has four different vertices, lies on exactly one block
  face and is named once, every explicit edge joins two different vertices along an edge of a block and
  is defined once, and the merged patches are two different declared patches.
\<close>

theorem block_topology_valid:
  "report_valid (validate_block_mesh_topology spec) \<longleftrightarrow>
     (\<forall>vertices \<in> set (bm_blocks spec). card (set vertices) = 8) \<and>
     (\<forall>face. face_sharing spec face \<le> 2) \<and>
     (\<forall>(p, i, face) \<in> set (boundary_faces spec). card (set face) = 4 \<and> face_sharing spec face = 1) \<and>
     distinct (map (\<lambda>(p, i, face). mset face) (boundary_faces spec)) \<and>
     (\<forall>e \<in> set (bm_edges spec). me_start e \<noteq> me_end e \<and> on_block_edge spec {me_start e, me_end e}) \<and>
     distinct (map (\<lambda>e. {me_start e, me_end e}) (bm_edges spec)) \<and>
     (\<forall>(a, b) \<in> set (bm_merge_patch_pairs spec).
        a \<noteq> b \<and> a \<in> bp_name ` set (bm_boundary spec) \<and> b \<in> bp_name ` set (bm_boundary spec))"
  unfolding report_valid_def validate_block_mesh_topology_def Let_def snd_conv append_is_Nil_conv
    block_issues_Nil manifold_issues_Nil boundary_issues_Nil edge_issues_Nil merge_issues_Nil
  by simp

text \<open>A hexahedron with its six faces as one patch passes; two blocks on one face share it.\<close>

definition plain_block :: "nat list \<Rightarrow> mesh_block" where
  "plain_block vertices = \<lparr>mb_vertices = vertices, mb_cells = [1, 1, 1], mb_grading = ''simpleGrading (1 1 1)''\<rparr>"

definition one_block :: block_mesh_spec where
  "one_block = \<lparr>bm_scale = 1, bm_scale_keyword = ''scale'', bm_vertices = replicate 8 (0, 0, 0),
     bm_mesh_blocks = [plain_block [0..<8]],
     bm_edges = [\<lparr>me_kind = ''line'', me_start = 1, me_end = 0, me_definition = []\<rparr>],
     bm_boundary = [\<lparr>bp_name = ''walls'', bp_type = ''wall'', bp_faces = hex_face_slots\<rparr>],
     bm_merge_patch_pairs = []\<rparr>"

lemma one_block_valid: "spec_ok one_block \<and> report_valid (validate_block_mesh_topology one_block)"
  by code_simp

definition two_blocks :: block_mesh_spec where
  "two_blocks = \<lparr>bm_scale = 1, bm_scale_keyword = ''scale'', bm_vertices = replicate 12 (0, 0, 0),
     bm_mesh_blocks = [plain_block [0..<8], plain_block [4..<12]], bm_edges = [],
     bm_boundary = [\<lparr>bp_name = ''inlet'', bp_type = ''patch'', bp_faces = [[3, 2, 1, 0], [7, 6, 5, 4]]\<rparr>],
     bm_merge_patch_pairs = []\<rparr>"

lemma two_blocks_issue:
  "map issue_code (snd (validate_block_mesh_topology two_blocks)) = [''boundary_face_is_internal'']"
  by code_simp

end
