(* ===== verification/Foam_Serializer.thy ===== *)
theory Foam_Serializer
  imports Foam_File Block_Topology
begin

text \<open>
  The serializers of typed dictionaries and of block meshes in
  \<^verbatim>\<open>tools/foam_serializer.py\<close>, and the normalisation of duplicate entries of
  \<open>TypedFoamDictionaryFile\<close> in \<^verbatim>\<open>schemas/engineering.py\<close>.
\<close>

section \<open>Data\<close>

text \<open>The nested \<open>OrderedDict\<close> the serializer builds from dotted paths.\<close>

datatype foam_node = Scalar string | Block "(string \<times> foam_node) list"

datatype serialization_error =
    Contract_Error contract_error
  | Scalar_And_Block string string
  | Collides_With_Scalar string
  | Duplicate_Path string
  | Empty_Value string

record typed_dictionary_file =
  td_path :: string
  td_foam_class :: "string option"
  td_entries :: "dictionary_entry list"
  td_entry_conflicts :: "string list"

section \<open>Duplicate entries of a typed file\<close>

text \<open>\<open>text.endswith(";")\<close>: one trailing semicolon is dropped.\<close>

definition drop_semicolon :: "string \<Rightarrow> string" where
  "drop_semicolon s =
     (if ends_with s '';'' then rev (dropWhile is_space (rev (butlast s))) else s)"

definition canonical_value :: "string \<Rightarrow> string" where
  "canonical_value v = drop_semicolon (strip v)"

fun normalize_from ::
  "(string \<times> string) list \<Rightarrow> string list \<Rightarrow> dictionary_entry list \<Rightarrow>
     dictionary_entry list \<times> string list" where
  "normalize_from seen conflicts [] = ([], conflicts)"
| "normalize_from seen conflicts (e # es) =
     (let path = strip (de_path e); value = canonical_value (de_value e)
      in case map_of seen path of
           None \<Rightarrow>
             (let (kept, cs) = normalize_from ((path, value) # seen) conflicts es in (e # kept, cs))
         | Some prior \<Rightarrow>
             if value = prior then normalize_from seen conflicts es
             else normalize_from seen
               (if path \<noteq> [] \<and> path \<notin> set conflicts then conflicts @ [path] else conflicts) es)"

definition normalize_duplicate_entries :: "typed_dictionary_file \<Rightarrow> typed_dictionary_file" where
  "normalize_duplicate_entries f =
     (let (kept, conflicts) =
        normalize_from [] (filter (\<lambda>c. strip c \<noteq> []) (td_entry_conflicts f)) (td_entries f)
      in f\<lparr>td_entries := kept, td_entry_conflicts := take 40 conflicts\<rparr>)"

section \<open>Building the tree\<close>

definition dotted :: "string list \<Rightarrow> string" where
  "dotted parts = join ''.'' parts"

text \<open>The proper parents of the entries, each with the first entry below it.\<close>

definition parents_of :: "dictionary_entry \<Rightarrow> (string \<times> string) list" where
  "parents_of e =
     (let parts = split_on (CHR ''.'') (de_path e)
      in map (\<lambda>i. (dotted (take i parts), de_path e)) [1..<length parts])"

definition first_children :: "dictionary_entry list \<Rightarrow> (string \<times> string) list" where
  "first_children entries = concat (map parents_of entries)"

fun normalize_entries_from ::
  "(string \<times> string) list \<Rightarrow> dictionary_entry list \<Rightarrow> serialization_error + dictionary_entry list" where
  "normalize_entries_from children [] = Inr []"
| "normalize_entries_from children (e # es) =
     (case map_of children (de_path e) of
        None \<Rightarrow> bind_result (normalize_entries_from children es) (\<lambda>r. Inr (e # r))
      | Some child \<Rightarrow>
          if container_marker (de_value e) then normalize_entries_from children es
          else Inl (Scalar_And_Block (de_path e) child))"

definition normalize_entries ::
  "dictionary_entry list \<Rightarrow> serialization_error + dictionary_entry list" where
  "normalize_entries entries = normalize_entries_from (first_children entries) entries"

fun insert_at ::
  "string \<Rightarrow> string list \<Rightarrow> string \<Rightarrow> (string \<times> foam_node) list \<Rightarrow>
     serialization_error + (string \<times> foam_node) list" where
  "insert_at path [] value m = Inr m"
| "insert_at path [leaf] value m =
     (if leaf \<in> fst ` set m then Inl (Duplicate_Path path) else Inr (m @ [(leaf, Scalar value)]))"
| "insert_at path (c # d # cs) value m =
     (case map_of m c of
        None \<Rightarrow> bind_result (insert_at path (d # cs) value []) (\<lambda>sub. Inr (m @ [(c, Block sub)]))
      | Some (Scalar _) \<Rightarrow> Inl (Collides_With_Scalar c)
      | Some (Block sub) \<Rightarrow>
          bind_result (insert_at path (d # cs) value sub) (\<lambda>sub'. Inr (AList.update c (Block sub') m)))"

definition insert_entry ::
  "dictionary_entry \<Rightarrow> (string \<times> foam_node) list \<Rightarrow>
     serialization_error + (string \<times> foam_node) list" where
  "insert_entry e m = insert_at (de_path e) (split_on (CHR ''.'') (de_path e)) (de_value e) m"

fun insert_all ::
  "dictionary_entry list \<Rightarrow> (string \<times> foam_node) list \<Rightarrow>
     serialization_error + (string \<times> foam_node) list" where
  "insert_all [] m = Inr m"
| "insert_all (e # es) m = bind_result (insert_entry e m) (insert_all es)"

section \<open>Rendering\<close>

definition pad :: "nat \<Rightarrow> string" where
  "pad n = replicate n (CHR '' '')"

fun render_node :: "nat \<Rightarrow> string \<Rightarrow> foam_node \<Rightarrow> serialization_error + string list"
  and render_mapping :: "nat \<Rightarrow> (string \<times> foam_node) list \<Rightarrow> serialization_error + string list" where
  "render_node indent key (Block sub) =
     bind_result (render_mapping (indent + 4) sub) (\<lambda>inner.
       Inr ([pad indent @ key, pad indent @ ''{''] @ inner @ [pad indent @ ''}'']))"
| "render_node indent key (Scalar value) =
     (let rendered = strip value
      in if rendered = [] then Inl (Empty_Value key)
         else Inr [pad indent @ key @ '' '' @ drop_semicolon rendered @ '';''])"
| "render_mapping indent [] = Inr []"
| "render_mapping indent ((key, node) # m) =
     bind_result (render_node indent key node) (\<lambda>lines.
       bind_result (render_mapping indent m) (\<lambda>more. Inr (lines @ more)))"

definition rstrip :: "string \<Rightarrow> string" where
  "rstrip s = rev (dropWhile is_space (rev s))"

definition map_error :: "('e \<Rightarrow> 'f) \<Rightarrow> 'e + 'a \<Rightarrow> 'f + 'a" where
  "map_error f r = (case r of Inl e \<Rightarrow> Inl (f e) | Inr x \<Rightarrow> Inr x)"

definition serialize_foam_dictionary :: "typed_dictionary_file \<Rightarrow> serialization_error + string" where
  "serialize_foam_dictionary spec =
     bind_result (map_error Contract_Error
         (resolve_foam_file_contract (td_path spec) (td_entries spec) (td_foam_class spec)))
       (\<lambda>(contract, body_entries).
         bind_result (normalize_entries body_entries) (\<lambda>entries.
           bind_result (insert_all entries []) (\<lambda>root.
             bind_result (render_mapping 0 root) (\<lambda>lines.
               Inr (render_foam_file_header contract @ nl @ rstrip (join nl lines) @ nl)))))"

section \<open>Block meshes\<close>

fun nat_text :: "nat \<Rightarrow> string" where
  "nat_text n = (if n < 10 then [char_of (48 + n)] else nat_text (n div 10) @ [char_of (48 + n mod 10)])"

declare nat_text.simps [simp del]

text \<open>\<open>text.rstrip(";")\<close>\<close>

definition rstrip_semicolons :: "string \<Rightarrow> string" where
  "rstrip_semicolons s = rev (dropWhile (\<lambda>c. c = CHR '';'') (rev s))"

definition parens :: "string list \<Rightarrow> string" where
  "parens ws = ''('' @ join '' '' ws @ '')''"

datatype block_mesh_error = Topology_Failed "topology_issue list"

definition block_line :: "mesh_block \<Rightarrow> string" where
  "block_line b =
     ''    hex '' @ parens (map nat_text (mb_vertices b)) @ '' '' @ parens (map nat_text (mb_cells b)) @ '' '' @
     rstrip_semicolons (strip (mb_grading b))"

definition edge_line :: "mesh_edge \<Rightarrow> string" where
  "edge_line e =
     (let def = rstrip_semicolons (strip (me_definition e))
      in ''    '' @ me_kind e @ '' '' @ nat_text (me_start e) @ '' '' @ nat_text (me_end e) @
         (if def \<noteq> [] then '' '' @ def else []))"

definition patch_lines :: "boundary_patch \<Rightarrow> string list" where
  "patch_lines p =
     [''    '' @ bp_name p, ''    {'', ''        type '' @ rstrip_semicolons (strip (bp_type p)) @ '';'',
      ''        faces'', ''        (''] @
     map (\<lambda>face. ''            '' @ parens (map nat_text face)) (bp_faces p) @ [''        );'', ''    }'']"

definition block_mesh_header :: string where
  "block_mesh_header =
     rev (dropWhile (\<lambda>c. c = CHR 0x0A) (rev (render_foam_file_header
       \<lparr>fc_path = ''system/blockMeshDict'', fc_class_name = ''dictionary'',
        fc_object_name = ''blockMeshDict'', fc_location = ''system'', fc_format = ''ascii'',
        fc_version = ''2.0''\<rparr>)))"

text \<open>\<open>format(float(value), ".16g")\<close> of the standard library is the argument \<open>num\<close>.\<close>

definition serialize_block_mesh :: "(rat \<Rightarrow> string) \<Rightarrow> block_mesh_spec \<Rightarrow> block_mesh_error + string" where
  "serialize_block_mesh num spec =
     (let topology = validate_block_mesh_topology spec
      in if \<not> report_valid topology then Inl (Topology_Failed (snd topology))
         else Inr (join nl (
           [block_mesh_header, [], bm_scale_keyword spec @ '' '' @ num (bm_scale spec) @ '';'', [],
            ''vertices'', ''(''] @
           map (\<lambda>(x, y, z). ''    '' @ parens [num x, num y, num z]) (bm_vertices spec) @
           ['');'', [], ''blocks'', ''(''] @ map block_line (bm_mesh_blocks spec) @
           ['');'', [], ''edges'', ''(''] @ map edge_line (bm_edges spec) @
           ['');'', [], ''boundary'', ''(''] @ concat (map patch_lines (bm_boundary spec)) @
           ['');'', [], ''mergePatchPairs'', ''(''] @
           map (\<lambda>(first, second). ''    '' @ parens [first, second]) (bm_merge_patch_pairs spec) @
           ['');'', []])))"

section \<open>The tree of a typed dictionary\<close>

fun tree_value :: "(string \<times> foam_node) list \<Rightarrow> string list \<Rightarrow> string option" where
  "tree_value m [] = None"
| "tree_value m [c] = (case map_of m c of Some (Scalar v) \<Rightarrow> Some v | _ \<Rightarrow> None)"
| "tree_value m (c # d # cs) = (case map_of m c of Some (Block sub) \<Rightarrow> tree_value sub (d # cs) | _ \<Rightarrow> None)"

lemma tree_value_Nil [simp]: "tree_value [] cs = None"
  by (induction "[] :: (string \<times> foam_node) list" cs rule: tree_value.induct) simp_all

lemma insert_at_value:
  assumes "insert_at path cs v m = Inr m'" "cs \<noteq> []"
  shows "tree_value m' ds = (if ds = cs then Some v else tree_value m ds)"
  using assms
proof (induction path cs v m arbitrary: m' ds rule: insert_at.induct)
  case (2 path leaf v m)
  then have fresh: "map_of m leaf = None" and m': "m' = m @ [(leaf, Scalar v)]"
    by (auto simp: map_of_eq_None_iff split: if_splits)
  show ?case
    using fresh by (cases "(m, ds)" rule: tree_value.cases) (auto simp: m' map_add_def split: option.splits)
next
  case (3 path c d cs v m)
  show ?case
  proof (cases "map_of m c")
    case None
    with 3(3) obtain sub where sub: "insert_at path (d # cs) v [] = Inr sub" and m': "m' = m @ [(c, Block sub)]"
      by auto
    from 3(1) [OF None sub] None show ?thesis
      by (cases "(m, ds)" rule: tree_value.cases) (auto simp: m' map_add_def split: option.splits)
  next
    case (Some node)
    then obtain old sub where node: "node = Block old" and sub: "insert_at path (d # cs) v old = Inr sub"
      and m': "m' = AList.update c (Block sub) m"
      using 3(3) by (auto split: foam_node.splits)
    from 3(2) [OF Some node sub] Some node show ?thesis
      by (cases "(m, ds)" rule: tree_value.cases) (auto simp: m' update_conv')
  qed
qed simp

lemma insert_at_fresh:
  assumes "insert_at path cs v m = Inr m'" "cs \<noteq> []"
  shows "tree_value m cs = None"
  using assms
proof (induction path cs v m arbitrary: m' rule: insert_at.induct)
  case (2 path leaf v m)
  then have "map_of m leaf = None" by (auto simp: map_of_eq_None_iff split: if_splits)
  then show ?case by simp
next
  case (3 path c d cs v m)
  then show ?case by (auto split: option.splits foam_node.splits)
qed simp

lemma split_on_nonempty [simp]: "split_on c s \<noteq> []"
  by (induction c s rule: split_on.induct) (auto split: list.splits)

lemma insert_all_value:
  assumes "insert_all es m = Inr tree"
  shows "(tree_value tree cs = Some v \<longleftrightarrow>
      tree_value m cs = Some v \<or> (\<exists>e \<in> set es. split_on (CHR ''.'') (de_path e) = cs \<and> de_value e = v)) \<and>
    distinct (map (\<lambda>e. split_on (CHR ''.'') (de_path e)) es) \<and>
    (\<forall>e \<in> set es. tree_value m (split_on (CHR ''.'') (de_path e)) = None)"
  using assms
proof (induction es arbitrary: m)
  case (Cons e es)
  let ?p = "split_on (CHR ''.'') (de_path e)"
  from Cons.prems obtain mid where mid: "insert_entry e m = Inr mid" "insert_all es mid = Inr tree" by auto
  from mid(1) have ins: "insert_at (de_path e) ?p (de_value e) m = Inr mid" by (simp add: insert_entry_def)
  have mid_value: "tree_value mid ds = (if ds = ?p then Some (de_value e) else tree_value m ds)" for ds
    by (rule insert_at_value [OF ins]) simp
  have fresh: "tree_value m ?p = None" by (rule insert_at_fresh [OF ins]) simp
  from Cons.IH [OF mid(2)] fresh show ?case
    by (auto simp: mid_value split: if_splits)
qed simp

section \<open>Properties\<close>

text \<open>An authored entry stands for a block when another entry lies below its dotted path.\<close>

definition path_words :: "dictionary_entry \<Rightarrow> string list" where
  "path_words e = split_on (CHR ''.'') (de_path e)"

definition entry_below :: "dictionary_entry list \<Rightarrow> dictionary_entry \<Rightarrow> bool" where
  "entry_below es e \<longleftrightarrow> (\<exists>d \<in> set es. strict_prefix (path_words e) (path_words d))"

lemma parents_iff: "de_path e \<in> fst ` set (parents_of d) \<longleftrightarrow> strict_prefix (path_words e) (path_words d)"
proof
  assume "de_path e \<in> fst ` set (parents_of d)"
  then obtain i where i: "1 \<le> i" "i < length (path_words d)" "de_path e = join ''.'' (take i (path_words d))"
    by (auto simp: parents_of_def Let_def dotted_def path_words_def)
  have "path_words e = take i (path_words d)"
    unfolding path_words_def [of e] i(3)
    using i by (intro split_on_join) (auto simp: path_words_def dest!: in_set_takeD split_on_words)
  then show "strict_prefix (path_words e) (path_words d)"
    using i(2) by (metis length_take less_irrefl min.absorb4 strict_prefixI take_is_prefix)
next
  assume below: "strict_prefix (path_words e) (path_words d)"
  let ?i = "length (path_words e)"
  have i: "path_words e = take ?i (path_words d)" "?i < length (path_words d)" "1 \<le> ?i"
    using below by (auto simp: strict_prefix_def prefix_def path_words_def Suc_le_eq)
  have "de_path e = dotted (take ?i (path_words d))"
    using i(1) by (metis dotted_def join_split_on path_words_def)
  with i(2,3) show "de_path e \<in> fst ` set (parents_of d)"
    by (auto simp: parents_of_def Let_def path_words_def [of d] intro!: image_eqI [of _ _ "(_, de_path d)"])
qed

lemma first_children_iff: "map_of (first_children es) (de_path e) \<noteq> None \<longleftrightarrow> entry_below es e"
  unfolding entry_below_def parents_iff [symmetric]
  by (auto simp: map_of_eq_None_iff first_children_def image_iff)

lemma normalize_entries_Inr:
  assumes "normalize_entries es = Inr kept"
  shows "kept = filter (\<lambda>e. \<not> entry_below es e) es \<and> (\<forall>e \<in> set es. entry_below es e \<longrightarrow> container_marker (de_value e))"
proof -
  have "kept = filter (\<lambda>e. map_of children (de_path e) = None) ds \<and>
      (\<forall>e \<in> set ds. map_of children (de_path e) \<noteq> None \<longrightarrow> container_marker (de_value e))"
    if "normalize_entries_from children ds = Inr kept" for children ds kept
    using that by (induction children ds arbitrary: kept rule: normalize_entries_from.induct) (auto split: option.splits if_splits)
  from this [OF assms [unfolded normalize_entries_def]] show ?thesis
    using first_children_iff [of es] by (metis (mono_tags, lifting) filter_cong)
qed

text \<open>
  C31: when the entries of a typed dictionary can be nested, every entry with another below it is the
  bare marker of a block, the other entries have different paths, and the tree holds, below each dotted path,
  exactly the value authored for it and nothing else: no authored value is dropped or overwritten.
\<close>

theorem tree_holds_entries:
  assumes "normalize_entries es = Inr kept" "insert_all kept [] = Inr tree"
  shows "(\<forall>e \<in> set es. entry_below es e \<longrightarrow> container_marker (de_value e)) \<and>
    distinct (map path_words (filter (\<lambda>e. \<not> entry_below es e) es)) \<and>
    (\<forall>cs v. tree_value tree cs = Some v \<longleftrightarrow>
       (\<exists>e \<in> set es. \<not> entry_below es e \<and> path_words e = cs \<and> de_value e = v))"
  using insert_all_value [OF assms(2)] normalize_entries_Inr [OF assms(1)] by (auto simp: path_words_def [abs_def])

text \<open>
  C30: a block mesh is rendered exactly when every block has eight different vertices,
  no face belongs to more than two block faces, every boundary face has four different vertices, lies on
  exactly one block face and is named once, every explicit edge joins two different vertices along an
  edge of a block and is defined once, and merged patches are two different declared patches; neither
  the order in which a face lists its vertices nor the number format matters.
\<close>

theorem block_mesh_rendered_iff:
  "(\<exists>rendered. serialize_block_mesh num spec = Inr rendered) \<longleftrightarrow>
     (\<forall>vertices \<in> set (bm_blocks spec). card (set vertices) = 8) \<and>
     (\<forall>face. face_sharing spec face \<le> 2) \<and>
     (\<forall>(p, i, face) \<in> set (boundary_faces spec). card (set face) = 4 \<and> face_sharing spec face = 1) \<and>
     distinct (map (\<lambda>(p, i, face). mset face) (boundary_faces spec)) \<and>
     (\<forall>e \<in> set (bm_edges spec). me_start e \<noteq> me_end e \<and> on_block_edge spec {me_start e, me_end e}) \<and>
     distinct (map (\<lambda>e. {me_start e, me_end e}) (bm_edges spec)) \<and>
     (\<forall>(a, b) \<in> set (bm_merge_patch_pairs spec).
        a \<noteq> b \<and> a \<in> bp_name ` set (bm_boundary spec) \<and> b \<in> bp_name ` set (bm_boundary spec))"
  unfolding block_topology_valid [symmetric]
  by (simp add: serialize_block_mesh_def Let_def)

definition unit_cube :: block_mesh_spec where
  "unit_cube =
     \<lparr>bm_scale = 1, bm_scale_keyword = ''scale'',
      bm_vertices = [(0,0,0), (1,0,0), (1,1,0), (0,1,0), (0,0,1), (1,0,1), (1,1,1), (0,1,1)],
      bm_mesh_blocks = [\<lparr>mb_vertices = [0,1,2,3,4,5,6,7], mb_cells = [1,1,1], mb_grading = ''simpleGrading (1 1 1)''\<rparr>],
      bm_edges = [], bm_boundary = [\<lparr>bp_name = ''inlet'', bp_type = ''patch'', bp_faces = [[3,7,4,0]]\<rparr>],
      bm_merge_patch_pairs = []\<rparr>"

lemma block_mesh_rendered_iff_witness:
  "(\<exists>rendered. serialize_block_mesh (\<lambda>_. ''1'') unit_cube = Inr rendered) \<and>
   (\<forall>face. face_sharing unit_cube face \<le> 2) \<and> face_sharing unit_cube [3,7,4,0] = 1"
proof -
  have "report_valid (validate_block_mesh_topology unit_cube)" by code_simp
  then have rendered: "\<exists>rendered. serialize_block_mesh (\<lambda>_. ''1'') unit_cube = Inr rendered"
    by (simp add: serialize_block_mesh_def Let_def)
  note spec = block_mesh_rendered_iff [THEN iffD1, OF rendered]
  have "(''inlet'', 0, [3,7,4,0]) \<in> set (boundary_faces unit_cube)" by code_simp
  with spec rendered show ?thesis by fastforce
qed

definition nested_entries :: "dictionary_entry list" where
  "nested_entries = [\<lparr>de_path = ''inlet'', de_value = ''{}''\<rparr>, \<lparr>de_path = ''inlet.type'', de_value = ''patch''\<rparr>,
     \<lparr>de_path = ''inlet.value'', de_value = ''uniform 0''\<rparr>]"

lemma tree_holds_entries_witness:
  "\<exists>tree. insert_all (tl nested_entries) [] = Inr tree \<and> tree_value tree [''inlet'', ''type''] = Some ''patch'' \<and>
     container_marker ''{}''"
proof -
  let ?r = "insert_all (tl nested_entries) []"
  have kept: "normalize_entries nested_entries = Inr (tl nested_entries)" by code_simp
  have "\<not> isl ?r" by code_simp
  then obtain tree where tree: "?r = Inr tree" by (cases ?r) auto
  note spec = tree_holds_entries [OF kept tree]
  have "\<exists>e \<in> set nested_entries. \<not> entry_below nested_entries e \<and> path_words e = [''inlet'', ''type''] \<and> de_value e = ''patch''"
    unfolding entry_below_def strict_prefix_def by code_simp
  then have "tree_value tree [''inlet'', ''type''] = Some ''patch''" using spec by blast
  moreover have "\<exists>e \<in> set nested_entries. entry_below nested_entries e \<and> de_value e = ''{}''"
    unfolding entry_below_def strict_prefix_def by code_simp
  then have "container_marker ''{}''" using spec by metis
  ultimately show ?thesis using tree by blast
qed

end
