(* ===== verification/Case_Build.thy ===== *)
theory Case_Build
  imports Dependency_Order
begin

text \<open>
  The build graph of a frozen case candidate, \<open>compile_case_build_graph\<close> of
  \<^verbatim>\<open>engineering/case_build_graph.py\<close>: the manifest of required files split into authored, produced
  by a native command, and missing; the dictionaries and surfaces to validate; and the pipeline of
  native commands, filtered, completed with inferred mesh consumers, ordered, and closed by the
  final mesh checks.
\<close>

section \<open>Data\<close>

text \<open>The fields of \<open>ExecuteCasePlanAction\<close> the compiler reads.\<close>

record case_plan_action =
  ea_plan :: engineering_plan
  ea_native_pipeline :: "native_command list"
  ea_mesh_commands :: "string list"
  ea_validate_dictionaries :: "string list"
  ea_surface_checks :: "string list"

datatype graph_warning =
    Hint_Not_Permitted string
  | Hint_Input_Absent string string
  | Stale_Validation_Hint string

record case_build_graph =
  bg_required_paths :: "string list"
  bg_authored_paths :: "string list"
  bg_authored_required_paths :: "string list"
  bg_deferred_native_required_paths :: "string list"
  bg_missing_required_paths :: "string list"
  bg_dictionary_paths :: "string list"
  bg_surface_paths :: "string list"
  bg_native_pipeline :: "native_command list"
  bg_failures :: "graph_failure list"
  bg_warnings :: "graph_warning list"

definition graph_valid :: "case_build_graph \<Rightarrow> bool" where
  "graph_valid g \<longleftrightarrow> bg_failures g = []"

definition non_dictionary_extensions :: "string list" where
  "non_dictionary_extensions =
     [''.stl'', ''.obj'', ''.off'', ''.vtk'', ''.vtp'', ''.csv'', ''.dat'', ''.emesh'', ''.gz'']"

definition surface_extensions :: "string list" where
  "surface_extensions = [''.stl'', ''.obj'', ''.off'', ''.vtk'', ''.vtp'']"

definition is_dictionary_path :: "string \<Rightarrow> bool" where
  "is_dictionary_path p \<longleftrightarrow> lower (path_suffix p) \<notin> set non_dictionary_extensions"

definition is_surface_path :: "string \<Rightarrow> bool" where
  "is_surface_path p \<longleftrightarrow> lower (path_suffix p) \<in> set surface_extensions"

section \<open>Helpers\<close>

definition invocation_token :: "native_command \<Rightarrow> string \<times> string list \<times> role" where
  "invocation_token item = (nc_command item, nc_arguments item, nc_role item)"

definition dedupe_invocations :: "native_command list \<Rightarrow> native_command list" where
  "dedupe_invocations items = dedupe_by invocation_token items"

definition path_is_within :: "string \<Rightarrow> string \<Rightarrow> bool" where
  "path_is_within path root \<longleftrightarrow>
     (let p = rstrip_chars ''/'' (posix_str path); r = rstrip_chars ''/'' (posix_str root)
      in p = r \<or> starts_with p (r @ ''/''))"

text \<open>The output roots one invocation declares; none when it cannot be bound to one scope.\<close>

definition output_roots :: "scope_source \<Rightarrow> native_command \<Rightarrow> string list" where
  "output_roots src item =
     (let templates = ct_mesh_dependency_outputs (native_tool_contract (nc_command item))
      in if templates = [] then []
         else case scope_for_native_arguments src (nc_arguments item) of
           Inl _ \<Rightarrow> []
         | Inr sc \<Rightarrow> map (\<lambda>t. render_scope_template t sc) templates)"

definition deferred_native_required_paths ::
  "scope_source \<Rightarrow> string list \<Rightarrow> native_command list \<Rightarrow> string list" where
  "deferred_native_required_paths src required pipeline =
     (let roots = dict_fromkeys (concat (map (output_roots src) pipeline))
      in filter (\<lambda>p. list_ex (path_is_within p) roots) required)"

text \<open>\<open>NativeOpenFOAMCommand(command=command, role="mesh")\<close> with its pattern and length.\<close>

definition command_name_ok :: "string \<Rightarrow> bool" where
  "command_name_ok c \<longleftrightarrow>
     c \<noteq> [] \<and> is_alpha (hd c) \<and> length c \<le> 160 \<and>
     list_all (\<lambda>x. is_alpha x \<or> is_digit x \<or> x \<in> set ''_.+-'') c"

definition mesh_hint :: "string \<Rightarrow> native_command result" where
  "mesh_hint cmd =
     (if command_name_ok cmd then Inr (mk_command cmd [] Role_Mesh) else Inl (Invalid_Command_Name cmd))"

definition native_hints :: "case_plan_action \<Rightarrow> native_command list result" where
  "native_hints ex =
     (if ea_native_pipeline ex \<noteq> [] then Inr (ea_native_pipeline ex)
      else map_result mesh_hint (ea_mesh_commands ex))"

section \<open>Compiling the graph\<close>

definition documentary :: "native_command \<Rightarrow> bool" where
  "documentary item \<longleftrightarrow>
     nc_command item \<in> {''foamDictionary'', ''surfaceCheck''} \<or>
     ct_controller_finalizer (native_tool_contract (nc_command item))"

definition invocation_key :: "native_command \<Rightarrow> (string \<times> string option) result" where
  "invocation_key item =
     bind_result (native_command_region (nc_arguments item)) (\<lambda>r. Inr (nc_command item, r))"

text \<open>The hints that may run, and the consumers inferred for what they leave open.\<close>

definition merge_inferred ::
  "native_command list \<Rightarrow> native_command list \<Rightarrow> native_command list result" where
  "merge_inferred strategy inferred =
     bind_result (map_result invocation_key strategy) (\<lambda>explicit_keys.
       bind_result (map_result (\<lambda>item. bind_result (invocation_key item) (\<lambda>k. Inr (k, item))) inferred)
         (\<lambda>keyed. Inr (dedupe_invocations
           (strategy @ map snd (filter (\<lambda>(k, item). k \<notin> set explicit_keys) keyed)))))"

datatype screened =
    Screened_Failure graph_failure
  | Screened_Warning graph_warning
  | Screened_Kept native_command

definition screen_invocation :: "string list \<Rightarrow> native_command \<Rightarrow> screened" where
  "screen_invocation authored item =
     (case required_dictionary (nc_command item) (nc_arguments item) of
        Inl e \<Rightarrow> Screened_Failure (Invalid_Native_Invocation (nc_command item) e)
      | Inr req \<Rightarrow>
          if \<not> command_permitted (nc_command item) Authoring
          then Screened_Warning (Hint_Not_Permitted (nc_command item))
          else (case req of
              Some path \<Rightarrow>
                if path \<noteq> [] \<and> path \<notin> set authored
                then Screened_Warning (Hint_Input_Absent (nc_command item) path) else Screened_Kept item
            | None \<Rightarrow> Screened_Kept item))"

definition screened_failures :: "screened list \<Rightarrow> graph_failure list" where
  "screened_failures xs = concat (map (\<lambda>x. case x of Screened_Failure f \<Rightarrow> [f] | _ \<Rightarrow> []) xs)"

definition screened_warnings :: "screened list \<Rightarrow> graph_warning list" where
  "screened_warnings xs = concat (map (\<lambda>x. case x of Screened_Warning w \<Rightarrow> [w] | _ \<Rightarrow> []) xs)"

definition screened_kept :: "screened list \<Rightarrow> native_command list" where
  "screened_kept xs = concat (map (\<lambda>x. case x of Screened_Kept c \<Rightarrow> [c] | _ \<Rightarrow> []) xs)"

definition failure_of :: "(value_error \<Rightarrow> graph_failure) \<Rightarrow> 'a list result \<Rightarrow> graph_failure list" where
  "failure_of f r = (case r of Inl e \<Rightarrow> [f e] | Inr _ \<Rightarrow> [])"

definition value_of :: "'a list result \<Rightarrow> 'a list" where
  "value_of r = (case r of Inl _ \<Rightarrow> [] | Inr xs \<Rightarrow> xs)"

definition stale_hints :: "string list \<Rightarrow> case_plan_action \<Rightarrow> graph_warning list" where
  "stale_hints authored ex =
     map Stale_Validation_Hint
       (filter (\<lambda>h. h \<notin> set authored) (ea_validate_dictionaries ex @ ea_surface_checks ex))"

definition compile_case_build_graph ::
  "case_plan_action \<Rightarrow> string list \<Rightarrow> case_build_graph result" where
  "compile_case_build_graph ex authored =
     (let src = Of_Plan (ea_plan ex); required = dict_fromkeys (plan_required_case_files (ea_plan ex))
      in bind_result (native_hints ex) (\<lambda>hints.
        let proposed = dedupe_invocations (filter (\<lambda>item. \<not> documentary item) hints);
            consumers = auto_mesh_consumers src authored
        in bind_result (merge_inferred proposed (map snd (value_of consumers))) (\<lambda>strategy.
          let screened = map (screen_invocation authored) strategy;
              (executable, ordering_failures) = stable_dependency_order src (screened_kept screened);
              deferred = deferred_native_required_paths src
                (filter (\<lambda>p. p \<notin> set authored) required) executable;
              missing = filter (\<lambda>p. p \<notin> set authored \<and> p \<notin> set deferred) required;
              checks = final_mesh_validation_commands src None
          in Inr \<lparr>bg_required_paths = required, bg_authored_paths = authored,
                  bg_authored_required_paths = filter (\<lambda>p. p \<in> set authored) required,
                  bg_deferred_native_required_paths = deferred,
                  bg_missing_required_paths = missing,
                  bg_dictionary_paths = filter is_dictionary_path authored,
                  bg_surface_paths = filter is_surface_path authored,
                  bg_native_pipeline = executable @ value_of checks,
                  bg_failures = dict_fromkeys
                    ((if required = [] then [Manifest_Empty] else []) @
                     failure_of Consumers_Not_Compiled consumers @
                     screened_failures screened @ ordering_failures @
                     (if missing = [] then [] else [Manifest_Incomplete missing]) @
                     failure_of Validation_Not_Compiled checks),
                  bg_warnings = dict_fromkeys (screened_warnings screened @ stale_hints authored ex)\<rparr>)))"

section \<open>Lemmas\<close>

lemma screen_invocation_kept:
  "screen_invocation authored item = Screened_Kept c \<longleftrightarrow>
     c = item \<and> command_permitted (nc_command item) Authoring \<and>
     (\<exists>req. required_dictionary (nc_command item) (nc_arguments item) = Inr req \<and>
        (\<forall>p. req = Some p \<longrightarrow> p = [] \<or> p \<in> set authored))"
proof (cases "required_dictionary (nc_command item) (nc_arguments item)")
  case (Inr req)
  then show ?thesis by (cases req) (auto simp: screen_invocation_def)
qed (simp add: screen_invocation_def)

lemma in_screened_kept: "c \<in> set (screened_kept xs) \<longleftrightarrow> Screened_Kept c \<in> set xs"
  by (force simp: screened_kept_def split: screened.splits)

lemma screened_kept_set:
  "item \<in> set (screened_kept (map (screen_invocation authored) xs)) \<longleftrightarrow>
     item \<in> set xs \<and> command_permitted (nc_command item) Authoring \<and>
     (\<exists>req. required_dictionary (nc_command item) (nc_arguments item) = Inr req \<and>
        (\<forall>p. req = Some p \<longrightarrow> p = [] \<or> p \<in> set authored))"
  unfolding in_screened_kept
  by (simp only: set_map image_iff eq_commute [of "Screened_Kept item"] screen_invocation_kept) blast

lemma graph_fields:
  assumes "compile_case_build_graph ex authored = Inr g"
  obtains strategy hints where
    "native_hints ex = Inr hints"
    "merge_inferred (dedupe_invocations (filter (\<lambda>item. \<not> documentary item) hints))
       (map snd (value_of (auto_mesh_consumers (Of_Plan (ea_plan ex)) authored))) = Inr strategy"
    "bg_required_paths g = dict_fromkeys (plan_required_case_files (ea_plan ex))"
    "bg_authored_required_paths g = filter (\<lambda>p. p \<in> set authored) (bg_required_paths g)"
    "bg_deferred_native_required_paths g = deferred_native_required_paths (Of_Plan (ea_plan ex))
       (filter (\<lambda>p. p \<notin> set authored) (bg_required_paths g))
       (fst (stable_dependency_order (Of_Plan (ea_plan ex))
         (screened_kept (map (screen_invocation authored) strategy))))"
    "bg_missing_required_paths g =
       filter (\<lambda>p. p \<notin> set authored \<and> p \<notin> set (bg_deferred_native_required_paths g)) (bg_required_paths g)"
    "bg_native_pipeline g =
       fst (stable_dependency_order (Of_Plan (ea_plan ex))
         (screened_kept (map (screen_invocation authored) strategy))) @
       map (\<lambda>sc. mk_command ''checkMesh'' (region_arguments sc) Role_Mesh_Validation)
         (execution_scopes (Of_Plan (ea_plan ex)))"
    "set (bg_failures g) =
       set (if bg_required_paths g = [] then [Manifest_Empty] else []) \<union>
       set (failure_of Consumers_Not_Compiled (auto_mesh_consumers (Of_Plan (ea_plan ex)) authored)) \<union>
       set (screened_failures (map (screen_invocation authored) strategy)) \<union>
       set (snd (stable_dependency_order (Of_Plan (ea_plan ex))
         (screened_kept (map (screen_invocation authored) strategy)))) \<union>
       set (if bg_missing_required_paths g = [] then [] else [Manifest_Incomplete (bg_missing_required_paths g)])"
proof -
  let ?src = "Of_Plan (ea_plan ex)"
  obtain hints where h: "native_hints ex = Inr hints"
    using assms by (auto simp: compile_case_build_graph_def Let_def)
  obtain strategy where s:
    "merge_inferred (dedupe_invocations (filter (\<lambda>item. \<not> documentary item) hints))
       (map snd (value_of (auto_mesh_consumers ?src authored))) = Inr strategy"
    using assms h by (auto simp: compile_case_build_graph_def Let_def)
  obtain executable ordering where o:
    "stable_dependency_order ?src (screened_kept (map (screen_invocation authored) strategy)) =
      (executable, ordering)" by fastforce
  have checks: "final_mesh_validation_commands ?src None =
      Inr (map (\<lambda>sc. mk_command ''checkMesh'' (region_arguments sc) Role_Mesh_Validation) (execution_scopes ?src))"
    by (simp add: final_mesh_validation_commands_eq selected_scopes_def)
  have g: "Inr g = compile_case_build_graph ex authored" using assms by simp
  note g = g [unfolded compile_case_build_graph_def Let_def h bind_result_simps s prod.case o checks sum.inject]
  show ?thesis
    by (rule that [OF h s]) (simp_all only: g o fst_conv snd_conv case_build_graph.select_convs
      set_dict_fromkeys set_append value_of_def failure_of_def sum.case list.set Un_empty_right Un_assoc)
qed
definition waits_for :: "scope_source \<Rightarrow> native_command \<Rightarrow> native_command \<Rightarrow> bool" where
  "waits_for src consumer producer \<longleftrightarrow>
     (\<exists>t \<in> set (snd (call_labels src producer)). t \<in> set (fst (call_labels src consumer)))"

lemma native_edge_waits:
  "native_edge src calls p c \<longleftrightarrow>
     p < length calls \<and> c < length calls \<and> p \<noteq> c \<and> waits_for src (calls ! c) (calls ! p)"
  by (auto simp: label_edge_def waits_for_def list_ex_iff)

lemma ordered_no_wait:
  assumes "snd (stable_dependency_order src calls) = []"
    and "i < j" "j < length (fst (stable_dependency_order src calls))"
  shows "\<not> waits_for src (fst (stable_dependency_order src calls) ! i) (fst (stable_dependency_order src calls) ! j)"
proof
  obtain ord where o: "distinct ord" "set ord = {..<length calls}" "greedy (native_edge src calls) ord"
    "fst (stable_dependency_order src calls) = map (\<lambda>i. calls ! i) ord"
    using stable_order_witnessed [OF assms(1)] .
  assume w: "waits_for src (fst (stable_dependency_order src calls) ! i) (fst (stable_dependency_order src calls) ! j)"
  have ij: "i < length ord" "j < length ord" using assms(2,3) o(4) by simp_all
  then have "ord ! i < length calls" "ord ! j < length calls" using o(2) nth_mem by blast+
  moreover have "ord ! i \<noteq> ord ! j" using o(1) ij assms(2) by (simp add: nth_eq_iff_index_eq)
  ultimately have "native_edge src calls (ord ! j) (ord ! i)"
    using w ij by (simp add: native_edge_waits o(4))
  then have "ord ! j \<in> set (take i ord)" using o(3) ij(1) by (auto simp: greedy_def)
  then obtain k where "k < i" "ord ! k = ord ! j" by (auto simp: in_set_conv_nth)
  with o(1) ij assms(2) show False by (simp add: nth_eq_iff_index_eq)
qed

lemma ordered_set:
  "set (fst (stable_dependency_order src calls)) = set calls"
proof (cases rule: native_kahn_cases [of calls src])
  case (ordered ord deg)
  then have "set ord = {..<length calls}"
    using native_order_full [OF ordered(1)] native_order.kahn_order_spec(1,2) [of "map (call_labels src) calls" ord deg]
    by auto
  moreover have "(\<lambda>i. calls ! i) ` {..<length calls} = set calls"
    by (auto simp: set_conv_nth)
  ultimately show ?thesis using ordered(3) by simp
qed auto

text \<open>
  The compiled graph splits the plan's required files into the authored ones,
  those below a declared output of a command of the compiled pipeline, and the missing ones; a
  graph without failures has no missing file and at least one required file.
\<close>

theorem manifest_partition:
  assumes "compile_case_build_graph ex authored = Inr g"
  shows "set (bg_required_paths g) = set (plan_required_case_files (ea_plan ex)) \<and>
     set (bg_required_paths g) = set (bg_authored_required_paths g) \<union>
       set (bg_deferred_native_required_paths g) \<union> set (bg_missing_required_paths g) \<and>
     set (bg_authored_required_paths g) \<subseteq> set authored \<and>
     set (bg_deferred_native_required_paths g) \<inter> set authored = {} \<and>
     (\<forall>p \<in> set (bg_deferred_native_required_paths g). \<exists>item \<in> set (bg_native_pipeline g). \<exists>sc.
        scope_for_native_arguments (Of_Plan (ea_plan ex)) (nc_arguments item) = Inr sc \<and>
        (\<exists>t \<in> set (ct_mesh_dependency_outputs (native_tool_contract (nc_command item))).
           path_is_within p (render_scope_template t sc))) \<and>
     (graph_valid g \<longrightarrow> bg_missing_required_paths g = [] \<and> bg_required_paths g \<noteq> [])"
proof -
  obtain strategy hints where f:
    "bg_required_paths g = dict_fromkeys (plan_required_case_files (ea_plan ex))"
    "bg_authored_required_paths g = filter (\<lambda>p. p \<in> set authored) (bg_required_paths g)"
    "bg_deferred_native_required_paths g = deferred_native_required_paths (Of_Plan (ea_plan ex))
       (filter (\<lambda>p. p \<notin> set authored) (bg_required_paths g))
       (fst (stable_dependency_order (Of_Plan (ea_plan ex))
         (screened_kept (map (screen_invocation authored) strategy))))"
    "bg_missing_required_paths g =
       filter (\<lambda>p. p \<notin> set authored \<and> p \<notin> set (bg_deferred_native_required_paths g)) (bg_required_paths g)"
    "set (fst (stable_dependency_order (Of_Plan (ea_plan ex))
         (screened_kept (map (screen_invocation authored) strategy)))) \<subseteq> set (bg_native_pipeline g)"
    "set (if bg_required_paths g = [] then [Manifest_Empty] else []) \<subseteq> set (bg_failures g)"
    "set (if bg_missing_required_paths g = [] then [] else [Manifest_Incomplete (bg_missing_required_paths g)])
      \<subseteq> set (bg_failures g)"
    by (rule graph_fields [OF assms]) (auto split: if_splits)
  have d: "set (bg_deferred_native_required_paths g) \<subseteq> set (bg_required_paths g) - set authored"
    by (auto simp: f(3) deferred_native_required_paths_def)
  have "\<exists>item \<in> set (bg_native_pipeline g). \<exists>sc.
        scope_for_native_arguments (Of_Plan (ea_plan ex)) (nc_arguments item) = Inr sc \<and>
        (\<exists>t \<in> set (ct_mesh_dependency_outputs (native_tool_contract (nc_command item))).
           path_is_within p (render_scope_template t sc))"
    if p: "p \<in> set (bg_deferred_native_required_paths g)" for p
  proof -
    obtain item root where "item \<in> set (bg_native_pipeline g)"
      "root \<in> set (output_roots (Of_Plan (ea_plan ex)) item)" "path_is_within p root"
      using p f(5) unfolding f(3) deferred_native_required_paths_def by (auto simp: list_ex_iff)
    then show ?thesis
      by (intro bexI [of _ item]) (auto simp: output_roots_def Let_def eq_commute [of "Inr _"] split: if_splits sum.splits)
  qed
  then show ?thesis
    using d f(6,7) by (auto simp: f(1,2,4) graph_valid_def split: if_splits)
qed

lemma ordered_distinct:
  assumes "distinct (map f calls)"
  shows "distinct (map f (fst (stable_dependency_order src calls)))"
proof (cases rule: native_kahn_cases [of calls src])
  case (ordered ord deg)
  then have ord: "set ord = {..<length calls}" "distinct ord"
    using native_order_full [OF ordered(1)] native_order.kahn_order_spec(1,2) [of "map (call_labels src) calls" ord deg]
    by auto
  have "inj_on (\<lambda>i. f (calls ! i)) (set ord)"
    using assms unfolding ord(1) by (auto intro!: inj_onI dest: nth_eq_iff_index_eq [of "map f calls"])
  then show ?thesis using ordered(3) ord(2) by (simp add: distinct_map comp_def)
qed (use assms in auto)

text \<open>
  Which invocations a bundle may run, and which it is to run: the proposed ones that are not documentary, and
  the inferred consumers of the authored files whose command and region no proposed one has.
\<close>

definition runnable :: "string list \<Rightarrow> native_command \<Rightarrow> bool" where
  "runnable authored item \<longleftrightarrow> command_permitted (nc_command item) Authoring \<and>
     (\<exists>req. required_dictionary (nc_command item) (nc_arguments item) = Inr req \<and>
       (\<forall>p. req = Some p \<longrightarrow> p = [] \<or> p \<in> set authored))"

definition wanted ::
  "native_command list \<Rightarrow> (execution_scope \<times> native_command) list \<Rightarrow> native_command \<Rightarrow> bool" where
  "wanted hints consumers item \<longleftrightarrow>
     item \<in> set hints \<and> \<not> documentary item \<or>
     item \<in> snd ` set consumers \<and>
       (\<forall>h \<in> set hints. documentary h \<or> nc_command h \<noteq> nc_command item \<or>
          native_command_region (nc_arguments h) \<noteq> native_command_region (nc_arguments item))"

lemma screened_kept_runnable:
  "screened_kept (map (screen_invocation authored) xs) = filter (runnable authored) xs"
proof -
  have "(case screen_invocation authored item of Screened_Kept c \<Rightarrow> [c] | _ \<Rightarrow> []) =
      (if runnable authored item then [item] else [])" for item
  proof (cases "runnable authored item")
    case True
    then have "screen_invocation authored item = Screened_Kept item"
      unfolding screen_invocation_kept runnable_def by blast
    with True show ?thesis by simp
  next
    case False
    then have "screen_invocation authored item \<noteq> Screened_Kept c" for c
      unfolding screen_invocation_kept runnable_def by blast
    with False show ?thesis by (cases "screen_invocation authored item") auto
  qed
  then show ?thesis by (induction xs) (simp_all add: screened_kept_def)
qed

lemma invocation_key_Inr:
  "invocation_key item = Inr k \<longleftrightarrow> fst k = nc_command item \<and> native_command_region (nc_arguments item) = Inr (snd k)"
  by (cases k; cases "native_command_region (nc_arguments item)") (auto simp: invocation_key_def)

lemma token_fields:
  "invocation_token a = invocation_token b \<Longrightarrow>
     nc_command a = nc_command b \<and> nc_arguments a = nc_arguments b \<and> runnable authored a = runnable authored b"
  by (simp add: invocation_token_def runnable_def)

lemma snd_filter_keys: "x \<in> snd ` set (filter (\<lambda>(k, i). P k) ps) \<longleftrightarrow> (\<exists>k. (k, x) \<in> set ps \<and> P k)"
  by (induction ps) auto

lemma merge_inferred_tokens:
  assumes "merge_inferred (dedupe_invocations (filter (\<lambda>item. \<not> documentary item) hints)) (map snd consumers) = Inr strategy"
  shows "distinct (map invocation_token strategy) \<and>
    invocation_token ` set strategy = invocation_token ` {item. wanted hints consumers item}"
proof -
  let ?proposed = "filter (\<lambda>item. \<not> documentary item) hints"
  from assms obtain keys keyed where keys: "map_result invocation_key (dedupe_invocations ?proposed) = Inr keys"
    and keyed: "map_result (\<lambda>item. bind_result (invocation_key item) (\<lambda>k. Inr (k, item))) (map snd consumers) = Inr keyed"
    and strategy: "strategy = dedupe_invocations (dedupe_invocations ?proposed @
      map snd (filter (\<lambda>(k, item). k \<notin> set keys) keyed))"
    by (auto simp: merge_inferred_def)
  have tokens: "invocation_token ` set (dedupe_invocations ?proposed) = invocation_token ` set ?proposed"
    by (simp add: dedupe_invocations_def keys_dedupe_by)
  have key_set: "k \<in> set keys \<longleftrightarrow> (\<exists>h \<in> set ?proposed. invocation_key h = Inr k)" for k
  proof -
    have "k \<in> set keys \<longleftrightarrow> (\<exists>h \<in> set (dedupe_invocations ?proposed). invocation_key h = Inr k)"
      using map_result_Inr_set [OF keys] by blast
    also have "\<dots> \<longleftrightarrow> (\<exists>h \<in> set ?proposed. invocation_key h = Inr k)"
    proof
      assume "\<exists>h \<in> set (dedupe_invocations ?proposed). invocation_key h = Inr k"
      then show "\<exists>h \<in> set ?proposed. invocation_key h = Inr k"
        using set_dedupe_by_subset [of invocation_token ?proposed] unfolding dedupe_invocations_def by blast
    next
      assume "\<exists>h \<in> set ?proposed. invocation_key h = Inr k"
      then obtain h where h: "h \<in> set ?proposed" "invocation_key h = Inr k" by blast
      from h(1) have "invocation_token h \<in> invocation_token ` set (dedupe_invocations ?proposed)" unfolding tokens by (rule imageI)
      then obtain h' where h': "h' \<in> set (dedupe_invocations ?proposed)" "invocation_token h = invocation_token h'" by blast
      have "invocation_key h' = Inr k" using token_fields [OF h'(2)] h(2) by (simp add: invocation_key_def)
      with h'(1) show "\<exists>h \<in> set (dedupe_invocations ?proposed). invocation_key h = Inr k" by blast
    qed
    finally show ?thesis .
  qed
  have keyed_set: "(k, item) \<in> set keyed \<longleftrightarrow> item \<in> snd ` set consumers \<and> invocation_key item = Inr k" for k item
  proof
    assume "(k, item) \<in> set keyed"
    then show "item \<in> snd ` set consumers \<and> invocation_key item = Inr k"
      using map_result_Inr_set [OF keyed] by (auto simp: bind_result_eq_Inr)
  next
    assume "item \<in> snd ` set consumers \<and> invocation_key item = Inr k"
    then show "(k, item) \<in> set keyed" using map_result_defined [OF keyed, of item] by auto
  qed
  have defined: "\<exists>k. invocation_key item = Inr k" if "item \<in> snd ` set consumers" for item
    using map_result_defined [OF keyed, of item] that by (auto simp: bind_result_eq_Inr)
  have "item \<in> snd ` set (filter (\<lambda>(k, item). k \<notin> set keys) keyed) \<longleftrightarrow>
      item \<in> snd ` set consumers \<and> (\<forall>h \<in> set hints. documentary h \<or> nc_command h \<noteq> nc_command item \<or>
        native_command_region (nc_arguments h) \<noteq> native_command_region (nc_arguments item))" for item
  proof (cases "item \<in> snd ` set consumers")
    case True
    then obtain k where k: "invocation_key item = Inr k" using defined by blast
    then have "(k', item) \<in> set keyed \<longleftrightarrow> k' = k" for k' using True by (auto simp: keyed_set)
    then have "item \<in> snd ` set (filter (\<lambda>(k, item). k \<notin> set keys) keyed) \<longleftrightarrow> k \<notin> set keys"
      unfolding snd_filter_keys by simp
    moreover have "invocation_key h = Inr k \<longleftrightarrow> nc_command h = nc_command item \<and>
        native_command_region (nc_arguments h) = native_command_region (nc_arguments item)" for h
      using k by (auto simp: invocation_key_Inr)
    ultimately show ?thesis using True key_set [of k] by auto
  next
    case False
    then have "(k', item) \<notin> set keyed" for k' by (simp add: keyed_set)
    then show ?thesis using False unfolding snd_filter_keys by simp
  qed
  then have "invocation_token ` (set ?proposed \<union> snd ` set (filter (\<lambda>(k, item). k \<notin> set keys) keyed)) =
      invocation_token ` {item. wanted hints consumers item}"
    by (intro arg_cong [of _ _ "image _"]) (auto simp: wanted_def)
  then show ?thesis
    by (simp add: strategy dedupe_invocations_def keys_dedupe_by distinct_dedupe_by image_Un)
qed

text \<open>
  C24: The pipeline of a valid graph is an executable part followed by one final mesh
  check per scope.  The invocations of the executable part are, each once, exactly those that are wanted (proposed
  and not documentary, or inferred from the authored files where nothing proposed has the command and region) and
  that an authoring turn is permitted to run with the dictionary they need among the authored files; and no
  command waits for a label that a later one produces.
\<close>

theorem pipeline_spec:
  assumes "compile_case_build_graph ex authored = Inr g" and "graph_valid g"
  shows "\<exists>hints consumers executable.
     native_hints ex = Inr hints \<and> auto_mesh_consumers (Of_Plan (ea_plan ex)) authored = Inr consumers \<and>
     bg_native_pipeline g = executable @
       map (\<lambda>sc. mk_command ''checkMesh'' (region_arguments sc) Role_Mesh_Validation)
         (execution_scopes (Of_Plan (ea_plan ex))) \<and>
     distinct (map invocation_token executable) \<and>
     invocation_token ` set executable = invocation_token ` {item. wanted hints consumers item \<and> runnable authored item} \<and>
     (\<forall>j < length executable. \<forall>i < j. \<not> waits_for (Of_Plan (ea_plan ex)) (executable ! i) (executable ! j))"
proof -
  obtain strategy hints where h: "native_hints ex = Inr hints" and
    m: "merge_inferred (dedupe_invocations (filter (\<lambda>item. \<not> documentary item) hints))
       (map snd (value_of (auto_mesh_consumers (Of_Plan (ea_plan ex)) authored))) = Inr strategy" and
    p: "bg_native_pipeline g =
       fst (stable_dependency_order (Of_Plan (ea_plan ex))
         (screened_kept (map (screen_invocation authored) strategy))) @
       map (\<lambda>sc. mk_command ''checkMesh'' (region_arguments sc) Role_Mesh_Validation)
         (execution_scopes (Of_Plan (ea_plan ex)))" and
    o: "set (snd (stable_dependency_order (Of_Plan (ea_plan ex))
         (screened_kept (map (screen_invocation authored) strategy)))) \<subseteq> set (bg_failures g)" and
    q: "set (failure_of Consumers_Not_Compiled (auto_mesh_consumers (Of_Plan (ea_plan ex)) authored)) \<subseteq> set (bg_failures g)"
    by (rule graph_fields [OF assms(1)]) blast
  let ?calls = "screened_kept (map (screen_invocation authored) strategy)"
  let ?executable = "fst (stable_dependency_order (Of_Plan (ea_plan ex)) ?calls)"
  have ok: "snd (stable_dependency_order (Of_Plan (ea_plan ex)) ?calls) = []"
    using o assms(2) by (simp add: graph_valid_def)
  obtain consumers where c: "auto_mesh_consumers (Of_Plan (ea_plan ex)) authored = Inr consumers"
    using q assms(2) by (cases "auto_mesh_consumers (Of_Plan (ea_plan ex)) authored") (simp_all add: failure_of_def graph_valid_def)
  have t: "distinct (map invocation_token strategy)"
    "invocation_token ` set strategy = invocation_token ` {item. wanted hints consumers item}"
    using merge_inferred_tokens [of hints consumers strategy] m c by (simp_all add: value_of_def)
  note calls = screened_kept_runnable [of authored strategy]
  have "distinct (map invocation_token ?executable)"
    using t(1) by (intro ordered_distinct) (auto simp: calls distinct_map intro: inj_on_subset)
  moreover have "invocation_token ` set ?executable =
      invocation_token ` {item. wanted hints consumers item \<and> runnable authored item}"
  proof -
    have sub: "invocation_token ` {x \<in> A. runnable authored x} \<subseteq> invocation_token ` {x \<in> B. runnable authored x}"
      if "invocation_token ` A \<subseteq> invocation_token ` B" for A B
    proof (rule image_subsetI)
      fix x assume x: "x \<in> {x \<in> A. runnable authored x}"
      with that obtain y where y: "y \<in> B" "invocation_token x = invocation_token y" by blast
      with token_fields [OF y(2), of authored] x show "invocation_token x \<in> invocation_token ` {x \<in> B. runnable authored x}"
        by (intro image_eqI [of _ _ y]) simp_all
    qed
    have "invocation_token ` {x \<in> set strategy. runnable authored x} =
        invocation_token ` {x \<in> {item. wanted hints consumers item}. runnable authored x}"
      using t(2) by (intro subset_antisym sub) simp_all
    then show ?thesis by (simp add: ordered_set calls)
  qed
  ultimately show ?thesis
    using h c p ordered_no_wait [OF ok]
    by (intro exI [of _ hints] exI [of _ consumers] exI [of _ ?executable]) simp
qed

lemma required_dictionary_Inl:
  assumes "required_dictionary cmd args = Inl e"
  shows "native_command_region args = Inl e"
proof (cases "native_command_region args")
  case (Inl d)
  with assms show ?thesis by (simp add: required_dictionary_def split: option.splits)
next
  case (Inr region)
  have "(case (required, region) of
          (Some req, Some reg) \<Rightarrow>
            (case path_parts req of
               [p0, p1] \<Rightarrow> if p0 = ''system'' then Inr (Some (''system/'' @ reg @ ''/'' @ p1)) else Inr required
             | _ \<Rightarrow> Inr required)
        | _ \<Rightarrow> Inr required) \<noteq> Inl e" for required :: "string option"
    by (simp split: option.split list.split)
  with Inr assms show ?thesis
    by (simp add: required_dictionary_def Let_def split: option.splits)
qed

lemma merged_keys:
  assumes "merge_inferred proposed inferred = Inr strategy" "item \<in> set strategy"
  shows "\<exists>k. invocation_key item = Inr k"
proof -
  obtain ks keyed where k: "map_result invocation_key proposed = Inr ks"
    "map_result (\<lambda>item. bind_result (invocation_key item) (\<lambda>k. Inr (k, item))) inferred = Inr keyed"
    "strategy = dedupe_invocations (proposed @ map snd (filter (\<lambda>(k, item). k \<notin> set ks) keyed))"
    using assms(1) by (auto simp: merge_inferred_def)
  then have "item \<in> set proposed \<or> item \<in> snd ` set keyed"
    using assms(2) set_dedupe_by_subset [of invocation_token] by (fastforce simp: dedupe_invocations_def)
  then show ?thesis
  proof
    assume "item \<in> set proposed"
    then show ?thesis using map_result_defined [OF k(1)] by blast
  next
    assume "item \<in> snd ` set keyed"
    then show ?thesis unfolding map_result_Inr_set [OF k(2)] by auto
  qed
qed

lemma screen_invocation_failure:
  "screen_invocation authored item = Screened_Failure f \<longleftrightarrow>
     (\<exists>e. required_dictionary (nc_command item) (nc_arguments item) = Inl e \<and>
        f = Invalid_Native_Invocation (nc_command item) e)"
proof (cases "required_dictionary (nc_command item) (nc_arguments item)")
  case (Inr req)
  then show ?thesis by (cases req) (simp_all add: screen_invocation_def)
qed (auto simp: screen_invocation_def)

lemma in_screened_failures: "f \<in> set (screened_failures xs) \<longleftrightarrow> Screened_Failure f \<in> set xs"
  by (force simp: screened_failures_def split: screened.splits)

lemma screened_invalid:
  assumes "f \<in> set (screened_failures (map (screen_invocation authored) xs))"
  shows "\<exists>item \<in> set xs. \<exists>e. invocation_key item = Inl e"
proof -
  obtain item where i: "item \<in> set xs" "screen_invocation authored item = Screened_Failure f"
    using assms by (auto simp: in_screened_failures)
  then obtain e where "required_dictionary (nc_command item) (nc_arguments item) = Inl e"
    unfolding screen_invocation_failure by blast
  then have "native_command_region (nc_arguments item) = Inl e" by (rule required_dictionary_Inl)
  with i(1) show ?thesis by (intro bexI [of _ item]) (simp_all add: invocation_key_def)
qed

lemma ordering_not_invalid:
  "Invalid_Native_Invocation cmd e \<notin> set (snd (stable_dependency_order src calls))"
proof (cases rule: native_kahn_cases [of calls src])
  case (ordered ord deg)
  then show ?thesis
    by (simp add: stable_dependency_order_def Let_def binding_failures_def split: sum.splits if_splits)
qed (auto simp: binding_failures_def split: sum.splits)

text \<open>
  C25: A proposed command with a malformed region selector does not become a
  failure of the graph: compiling raises.  In a compiled graph no failure reports an invalid native
  invocation, so the branch of the source that builds that message is never taken.
\<close>

theorem malformed_region_raises:
  "(\<forall>hints item e. native_hints ex = Inr hints \<and> item \<in> set hints \<and> \<not> documentary item \<and>
      native_command_region (nc_arguments item) = Inl e \<longrightarrow>
      (\<exists>e'. compile_case_build_graph ex authored = Inl e')) \<and>
   (\<forall>g cmd e. compile_case_build_graph ex authored = Inr g \<longrightarrow>
      Invalid_Native_Invocation cmd e \<notin> set (bg_failures g))"
proof (intro conjI allI impI, elim conjE)
  fix hints item e
  assume h: "native_hints ex = Inr hints" "item \<in> set hints" "\<not> documentary item"
    "native_command_region (nc_arguments item) = Inl e"
  let ?proposed = "dedupe_invocations (filter (\<lambda>item. \<not> documentary item) hints)"
  have "invocation_token item \<in> invocation_token ` set ?proposed"
    unfolding dedupe_invocations_def keys_dedupe_by using h(2,3) by auto
  then obtain item' where i: "item' \<in> set ?proposed" "nc_arguments item' = nc_arguments item"
    by (auto simp: invocation_token_def)
  then have "invocation_key item' = Inl e" using h(4) by (simp add: invocation_key_def)
  then obtain e' where "map_result invocation_key ?proposed = Inl e'"
    using map_result_raises i(1) by metis
  then show "\<exists>e'. compile_case_build_graph ex authored = Inl e'"
    by (simp add: compile_case_build_graph_def Let_def h(1) merge_inferred_def)
next
  fix g cmd e
  assume g: "compile_case_build_graph ex authored = Inr g"
  show "Invalid_Native_Invocation cmd e \<notin> set (bg_failures g)"
  proof (rule graph_fields [OF g])
    fix strategy hints
    assume m: "merge_inferred (dedupe_invocations (filter (\<lambda>item. \<not> documentary item) hints))
        (map snd (value_of (auto_mesh_consumers (Of_Plan (ea_plan ex)) authored))) = Inr strategy"
      and f: "set (bg_failures g) =
       set (if bg_required_paths g = [] then [Manifest_Empty] else []) \<union>
       set (failure_of Consumers_Not_Compiled (auto_mesh_consumers (Of_Plan (ea_plan ex)) authored)) \<union>
       set (screened_failures (map (screen_invocation authored) strategy)) \<union>
       set (snd (stable_dependency_order (Of_Plan (ea_plan ex))
         (screened_kept (map (screen_invocation authored) strategy)))) \<union>
       set (if bg_missing_required_paths g = [] then [] else [Manifest_Incomplete (bg_missing_required_paths g)])"
    have "Invalid_Native_Invocation cmd e \<notin> set (screened_failures (map (screen_invocation authored) strategy))"
    proof
      assume "Invalid_Native_Invocation cmd e \<in> set (screened_failures (map (screen_invocation authored) strategy))"
      then obtain item e' where "item \<in> set strategy" "invocation_key item = Inl e'"
        using screened_invalid by blast
      then show False using merged_keys [OF m] by fastforce
    qed
    then show ?thesis
      unfolding f using ordering_not_invalid by (auto simp: failure_of_def split: sum.splits)
  qed
qed

declare auto_consumer_contracts_eq [code] finalizer_contracts_eq [code]

definition cavity_action :: "native_command list \<Rightarrow> case_plan_action" where
  "cavity_action pipeline =
     \<lparr>ea_plan = root_plan [''system/controlDict'', ''system/blockMeshDict'', ''constant/polyMesh''],
      ea_native_pipeline = pipeline, ea_mesh_commands = [],
      ea_validate_dictionaries = [''system/stale''], ea_surface_checks = []\<rparr>"

definition cavity_paths :: "string list" where
  "cavity_paths = [''system/controlDict'', ''system/blockMeshDict'', ''constant/triSurface/wing.STL'']"

definition cavity_graph :: case_build_graph where
  "cavity_graph = projr (compile_case_build_graph (cavity_action []) cavity_paths)"

lemma cavity_compiled: "compile_case_build_graph (cavity_action []) cavity_paths = Inr cavity_graph"
proof -
  have "\<not> isl (compile_case_build_graph (cavity_action []) cavity_paths)" by code_simp
  then show ?thesis by (cases "compile_case_build_graph (cavity_action []) cavity_paths") (auto simp: cavity_graph_def)
qed

theorem manifest_partition_witness:
  "bg_deferred_native_required_paths cavity_graph = [''constant/polyMesh''] \<and>
   bg_missing_required_paths cavity_graph = [] \<and>
   set (bg_required_paths cavity_graph) =
     {''system/controlDict'', ''system/blockMeshDict'', ''constant/polyMesh''}"
proof -
  have "bg_deferred_native_required_paths cavity_graph = [''constant/polyMesh'']" "graph_valid cavity_graph"
    by code_simp+
  then show ?thesis
    using manifest_partition [OF cavity_compiled] by (simp add: cavity_action_def root_plan_def)
qed

theorem pipeline_spec_witness:
  "\<exists>consumers. auto_mesh_consumers (Of_Plan (ea_plan (cavity_action []))) cavity_paths = Inr consumers \<and>
     invocation_token (mk_command ''blockMesh'' [] Role_Mesh) \<in>
       invocation_token ` {item. wanted [] consumers item \<and> runnable cavity_paths item}"
proof -
  have v: "graph_valid cavity_graph" by code_simp
  have p: "bg_native_pipeline cavity_graph =
      [mk_command ''blockMesh'' [] Role_Mesh, mk_command ''checkMesh'' [] Role_Mesh_Validation]" by code_simp
  have c: "map (\<lambda>sc. mk_command ''checkMesh'' (region_arguments sc) Role_Mesh_Validation)
      (execution_scopes (Of_Plan (ea_plan (cavity_action [])))) = [mk_command ''checkMesh'' [] Role_Mesh_Validation]"
    by code_simp
  have h: "native_hints (cavity_action []) = Inr []" by code_simp
  from pipeline_spec [OF cavity_compiled v] obtain consumers executable where
    "auto_mesh_consumers (Of_Plan (ea_plan (cavity_action []))) cavity_paths = Inr consumers"
    "executable @ [mk_command ''checkMesh'' [] Role_Mesh_Validation] =
      [mk_command ''blockMesh'' [] Role_Mesh, mk_command ''checkMesh'' [] Role_Mesh_Validation]"
    "invocation_token ` set executable = invocation_token ` {item. wanted [] consumers item \<and> runnable cavity_paths item}"
    unfolding p c h by auto
  then show ?thesis by auto
qed

theorem malformed_region_raises_witness:
  "\<exists>e. compile_case_build_graph
     (cavity_action [mk_command ''blockMesh'' [''-region''] Role_Mesh]) cavity_paths = Inl e"
proof -
  let ?c = "mk_command ''blockMesh'' [''-region''] Role_Mesh"
  have "native_hints (cavity_action [?c]) = Inr [?c]" "\<not> documentary ?c"
    "native_command_region (nc_arguments ?c) = Inl Region_Name_Missing" by code_simp+
  then show ?thesis using malformed_region_raises [of "cavity_action [?c]" cavity_paths] by force
qed

end
