(* ===== verification/Mesh_Dependencies.thy ===== *)
theory Mesh_Dependencies
  imports Case_Seals Foam_Parser Execution_Scopes
begin

text \<open>
  The dependency graph of mesh evidence, \<open>MeshDependencyGraph\<close> of
  \<^verbatim>\<open>contracts/mesh_dependencies.py\<close>: a history of native operations, each with the earlier producers
  it depends on, kept in a registry file; the files a region's mesh depends on, through the
  operations and through literal includes; and the digest of them.

  SHA-256 of the JSON text of the operations and of a digest record are the arguments \<open>osha\<close> and
  \<open>gsha\<close>.  A Python set is a list here, read as the set of its elements; what the source sorts is
  sorted.  \<open>Path.resolve\<close> is the file system's: the argument \<open>realpath\<close> maps the directory of a file
  and the text of an include to the components below the case directory, or to \<open>None\<close> when the
  target is not below it.
\<close>

section \<open>Operations and the registry file\<close>

record mesh_operation =
  mo_id :: nat
  mo_inputs :: "string list"
  mo_outputs :: "string list"
  mo_parents :: "nat list"
  mo_regions :: "string list"
  mo_command :: string
  mo_arguments :: "string list"
  mo_conservative :: bool

text \<open>The file \<^verbatim>\<open>mesh-dependencies.json\<close> with what \<open>stat\<close> says of it.\<close>

record registry_file =
  rf_symlink :: bool
  rf_bytes :: nat
  rf_version :: int
  rf_operations :: "mesh_operation list"
  rf_sha256 :: string

record mesh_graph =
  mg_operations :: "mesh_operation list"
  mg_file :: "registry_file option"
  mg_tmp_symlink :: bool

datatype graph_error =
    Graph_Value value_error
  | Graph_Workspace workspace_error
  | Unsafe_Registry
  | Registry_Mismatch
  | Unsafe_Temporary

type_synonym 'a graph_result = "graph_error + 'a"

definition of_value :: "'a result \<Rightarrow> 'a graph_result" where
  "of_value r = (case r of Inl e \<Rightarrow> Inl (Graph_Value e) | Inr x \<Rightarrow> Inr x)"

definition of_workspace :: "'a ws_result \<Rightarrow> 'a graph_result" where
  "of_workspace r = (case r of Inl e \<Rightarrow> Inl (Graph_Workspace e) | Inr x \<Rightarrow> Inr x)"

lemma of_value_eq [simp]:
  "of_value r = Inr x \<longleftrightarrow> r = Inr x" "of_value (Inr x) = Inr x" "of_value (Inl e) = Inl (Graph_Value e)"
  by (cases r; simp add: of_value_def)+

lemma of_workspace_eq [simp]:
  "of_workspace r = Inr x \<longleftrightarrow> r = Inr x" "of_workspace (Inr x) = Inr x"
  "of_workspace (Inl e) = Inl (Graph_Workspace e)"
  by (cases r; simp add: of_workspace_def)+

text \<open>\<open>_overlap\<close>: the trailing slashes of the other path are dropped before the prefix test.\<close>

definition overlap :: "string \<Rightarrow> string \<Rightarrow> bool" where
  "overlap a b \<longleftrightarrow>
     a = b \<or> starts_with a (rstrip_chars ''/'' b @ ''/'') \<or> starts_with b (rstrip_chars ''/'' a @ ''/'')"

definition dependency_path :: "string \<Rightarrow> string result" where
  "dependency_path path =
     (let parts = path_parts path
      in if parts = [] \<or> starts_with path ''/'' \<or> ''..'' \<in> set parts \<or>
           hd parts \<notin> {''0'', ''constant'', ''system''}
         then Inl (Unsafe_Dependency_Path path) else Inr (rstrip_chars ''/'' path))"

section \<open>Loading\<close>

fun check_operations :: "nat \<Rightarrow> mesh_operation list \<Rightarrow> unit result" where
  "check_operations index [] = Inr ()"
| "check_operations index (node # nodes) =
     (if mo_id node \<noteq> index \<or> list_ex (\<lambda>p. index \<le> p) (mo_parents node) then Inl Not_A_Chronological_Dag
      else bind_result (map_result dependency_path (mo_inputs node @ mo_outputs node)) (\<lambda>_.
        check_operations (Suc index) nodes))"

definition load_graph ::
  "(mesh_operation list \<Rightarrow> string) \<Rightarrow> registry_file option \<Rightarrow> bool \<Rightarrow> mesh_graph graph_result" where
  "load_graph osha file tmp_symlink =
     (case file of
        None \<Rightarrow> Inr \<lparr>mg_operations = [], mg_file = None, mg_tmp_symlink = tmp_symlink\<rparr>
      | Some f \<Rightarrow>
          if rf_symlink f \<or> int (rf_bytes f) > 16000000 then Inl Unsafe_Registry
          else if rf_version f \<noteq> 1 \<or> rf_sha256 f \<noteq> osha (rf_operations f) then Inl Registry_Mismatch
          else bind_result (of_value (check_operations 0 (rf_operations f))) (\<lambda>_.
            Inr \<lparr>mg_operations = rf_operations f, mg_file = file, mg_tmp_symlink = tmp_symlink\<rparr>))"

section \<open>Registering an operation\<close>

text \<open>
  \<open>jsize\<close> is the size of the JSON text written for the operations.  The operation is appended to
  the history in memory before the temporary file is looked at.
\<close>

definition producers :: "mesh_operation list \<Rightarrow> string list \<Rightarrow> nat list" where
  "producers ops inputs =
     map mo_id (filter (\<lambda>node. list_ex (\<lambda>p. list_ex (overlap p) (mo_outputs node)) inputs) ops)"

definition write_registry ::
  "(mesh_operation list \<Rightarrow> string) \<Rightarrow> (mesh_operation list \<Rightarrow> nat) \<Rightarrow> mesh_operation list \<Rightarrow> registry_file" where
  "write_registry osha jsize ops =
     \<lparr>rf_symlink = False, rf_bytes = jsize ops, rf_version = 1, rf_operations = ops, rf_sha256 = osha ops\<rparr>"

definition register ::
  "(mesh_operation list \<Rightarrow> string) \<Rightarrow> (mesh_operation list \<Rightarrow> nat) \<Rightarrow> mesh_graph \<Rightarrow>
     string list \<Rightarrow> string list \<Rightarrow> string list \<Rightarrow> string \<Rightarrow> string list \<Rightarrow> bool \<Rightarrow>
     unit graph_result \<times> mesh_graph" where
  "register osha jsize g ins outs regions cmd args conservative =
     (case (map_result dependency_path ins, map_result dependency_path outs) of
        (Inl e, _) \<Rightarrow> (Inl (Graph_Value e), g)
      | (Inr _, Inl e) \<Rightarrow> (Inl (Graph_Value e), g)
      | (Inr is, Inr os) \<Rightarrow>
          let inputs = sorted_set is; outputs = sorted_set os; ops = mg_operations g
          in if outputs = [] then (Inl (Graph_Value Operation_Without_Outputs), g)
             else if int (length ops) \<ge> 10000 then (Inl (Graph_Value Dependency_History_Full), g)
             else
               let node = \<lparr>mo_id = length ops, mo_inputs = inputs, mo_outputs = outputs,
                     mo_parents = producers ops inputs, mo_regions = sorted_set regions,
                     mo_command = cmd, mo_arguments = args, mo_conservative = conservative\<rparr>;
                   g' = g\<lparr>mg_operations := ops @ [node]\<rparr>
               in if mg_tmp_symlink g then (Inl Unsafe_Temporary, g')
                  else (Inr (), g'\<lparr>mg_file := Some (write_registry osha jsize (ops @ [node]))\<rparr>))"

section \<open>Recording a native command\<close>

definition native_targets ::
  "scope_source option \<Rightarrow> string list \<Rightarrow> execution_scope list result" where
  "native_targets plan args =
     (let scopes = (case plan of None \<Rightarrow> [] | Some src \<Rightarrow> execution_scopes src)
      in bind_result (native_command_region args) (\<lambda>region.
           case region of
             Some r \<Rightarrow>
               (case filter (\<lambda>sc. scope_name sc = Some r) scopes of
                  [sc] \<Rightarrow> Inr [sc]
                | _ \<Rightarrow> Inl Undeclared_Execution_Scope)
           | None \<Rightarrow> Inr (if scopes \<noteq> [] then scopes else [named_scope None])))"

definition rendered_templates :: "string list \<Rightarrow> execution_scope list \<Rightarrow> string list" where
  "rendered_templates templates targets =
     dict_fromkeys (concat (map (\<lambda>sc. map (\<lambda>t. render_scope_template t sc) templates) targets))"

definition record_native ::
  "(mesh_operation list \<Rightarrow> string) \<Rightarrow> (mesh_operation list \<Rightarrow> nat) \<Rightarrow> mesh_graph \<Rightarrow>
     string \<Rightarrow> string list \<Rightarrow> scope_source option \<Rightarrow> unit graph_result \<times> mesh_graph" where
  "record_native osha jsize g cmd args plan =
     (case native_targets plan args of
        Inl e \<Rightarrow> (Inl (Graph_Value e), g)
      | Inr targets \<Rightarrow>
          let contract = native_tool_contract cmd;
              conservative = (ct_mesh_dependency_inputs contract = []);
              inputs = (if conservative then [''0'', ''system'', ''constant'']
                else rendered_templates (ct_mesh_dependency_inputs contract) targets);
              declared = rendered_templates (ct_mesh_dependency_outputs contract) targets;
              outputs = (if declared = []
                then map (\<lambda>sc. sp_constant_dir (scope_paths sc) @ ''/polyMesh'') targets else declared)
          in register osha jsize g inputs outputs
               (map (\<lambda>sc. get_default [] (scope_name sc)) targets) cmd args conservative)"

section \<open>The dependencies of a region\<close>

definition parents_at :: "mesh_operation list \<Rightarrow> nat \<Rightarrow> nat list" where
  "parents_at ops i = (if i < length ops then mo_parents (ops ! i) else [])"

definition add_parent :: "nat \<Rightarrow> nat list \<times> nat list \<Rightarrow> nat list \<times> nat list" where
  "add_parent p st =
     (let (selected, todo) = st
      in if p \<in> set selected then st else (selected @ [p], todo @ [p]))"

definition all_parents :: "mesh_operation list \<Rightarrow> nat set" where
  "all_parents ops = (\<Union>n \<in> set ops. set (mo_parents n))"

lemma add_parent_simps:
  "p \<in> set selected \<Longrightarrow> add_parent p (selected, todo) = (selected, todo)"
  "p \<notin> set selected \<Longrightarrow> add_parent p (selected, todo) = (selected @ [p], todo @ [p])"
  by (simp_all add: add_parent_def)

lemma fold_add_parent:
  "fold add_parent ps (selected, todo) = (s', t') \<Longrightarrow>
     set s' = set selected \<union> set ps \<and> (\<exists>new. t' = todo @ new \<and> s' = selected @ new \<and>
       set new = set ps - set selected \<and> distinct new)"
proof (induction ps arbitrary: selected todo)
  case (Cons p ps)
  show ?case
  proof (cases "p \<in> set selected")
    case True
    with Cons show ?thesis by (auto simp: add_parent_simps)
  next
    case False
    then have "fold add_parent ps (selected @ [p], todo @ [p]) = (s', t')"
      using Cons.prems by (simp add: add_parent_simps)
    from Cons.IH [OF this] obtain new where
      "t' = (todo @ [p]) @ new" "s' = (selected @ [p]) @ new" "set new = set ps - set (selected @ [p])"
      "distinct new" "set s' = set (selected @ [p]) \<union> set ps" by blast
    with False show ?thesis by (intro conjI exI [of _ "p # new"]) auto
  qed
qed simp

lemma parents_at_subset: "set (parents_at ops i) \<subseteq> all_parents ops"
  by (auto simp: parents_at_def all_parents_def) (use nth_mem in blast)

lemma finite_all_parents [simp]: "finite (all_parents ops)"
  by (simp add: all_parents_def)

lemma ancestors_decrease:
  assumes "fold add_parent (parents_at ops i) (selected, todo) = (s', t')"
  shows "card (all_parents ops - set s') < card (all_parents ops - set selected) \<or>
    s' = selected \<and> t' = todo"
proof -
  obtain new where n: "t' = todo @ new" "s' = selected @ new"
    "set new = set (parents_at ops i) - set selected"
    using fold_add_parent [OF assms] by blast
  show ?thesis
  proof (cases "new = []")
    case False
    then obtain x where "x \<in> set new" by (cases new) auto
    with n parents_at_subset have "x \<in> all_parents ops - set selected" "x \<in> set s'" by auto
    then have "all_parents ops - set s' \<subset> all_parents ops - set selected" using n(2) by auto
    then show ?thesis by (simp add: psubset_card_mono)
  qed (use n in simp)
qed

text \<open>The worklist \<open>todo\<close> is a stack: \<open>pop\<close> takes its last element.\<close>

function select_ancestors :: "mesh_operation list \<Rightarrow> nat list \<Rightarrow> nat list \<Rightarrow> nat list" where
  "select_ancestors ops selected todo =
     (if todo = [] then selected
      else let (s', t') = fold add_parent (parents_at ops (last todo)) (selected, butlast todo)
           in select_ancestors ops s' t')"
  by pat_completeness auto
termination
proof (relation "measures [\<lambda>(ops, selected, todo). card (all_parents ops - set selected),
    \<lambda>(ops, selected, todo). length todo]", goal_cases)
  case (2 ops selected todo x s' t')
  then have "fold add_parent (parents_at ops (last todo)) (selected, butlast todo) = (s', t')" by simp
  from ancestors_decrease [OF this] 2(1) show ?case by (cases todo) auto
qed simp

declare select_ancestors.simps [simp del]

definition sink :: "string \<Rightarrow> string" where
  "sink region = (if region = [] then ''constant/polyMesh'' else ''constant/'' @ region @ ''/polyMesh'')"

definition selected_roots :: "mesh_operation list \<Rightarrow> string \<Rightarrow> nat list" where
  "selected_roots ops region =
     map mo_id (filter (\<lambda>n. region \<in> set (mo_regions n) \<or> list_ex (overlap (sink region)) (mo_outputs n)) ops)"

definition selected_operations :: "mesh_operation list \<Rightarrow> string \<Rightarrow> nat list" where
  "selected_operations ops region =
     (let roots = selected_roots ops region in select_ancestors ops roots roots)"

definition operation_paths :: "mesh_operation list \<Rightarrow> nat list \<Rightarrow> string list" where
  "operation_paths ops selected = concat (map (\<lambda>i. mo_inputs (ops ! i) @ mo_outputs (ops ! i)) selected)"

section \<open>Literal includes\<close>

text \<open>
  \<open>#include(?:IfPresent)?\s+"([^"\n]+)"\<close> at the start of a text: the name and the rest after the
  match.
\<close>

definition include_here :: "string \<Rightarrow> (string \<times> string) option" where
  "include_here s =
     (if \<not> starts_with s ''#include'' then None
      else
        let t = drop 8 s; t' = (if starts_with t ''IfPresent'' then drop 9 t else t);
            ws = takeWhile is_space t'; r = dropWhile is_space t'
        in if ws = [] \<or> \<not> starts_with r [CHR 0x22] then None
           else let name = takeWhile (\<lambda>c. c \<noteq> CHR 0x22 \<and> c \<noteq> CHR 0x0A) (tl r);
                    rest = drop (length name) (tl r)
                in if name = [] \<or> \<not> starts_with rest [CHR 0x22] then None else Some (name, tl rest))"

lemma include_here_rest: "include_here s = Some (name, rest) \<Longrightarrow> length rest < length s"
proof -
  assume "include_here s = Some (name, rest)"
  then obtain k m where r: "rest = tl (drop k (tl (dropWhile is_space (drop m s))))" "m \<ge> 8"
    and s: "starts_with s ''#include''"
    by (auto simp: include_here_def Let_def split: if_splits)
  have "length (dropWhile is_space (drop m s)) \<le> length s - 8"
    using length_dropWhile_le [of is_space "drop m s"] r(2) by simp
  moreover have "8 \<le> length s" using s by (auto simp: starts_with_def prefix_def)
  ultimately show ?thesis unfolding r(1) length_tl length_drop by linarith
qed

function include_names :: "string \<Rightarrow> string list" where
  "include_names [] = []"
| "include_names (c # cs) =
     (case include_here (c # cs) of
        None \<Rightarrow> include_names cs
      | Some (name, rest) \<Rightarrow> name # include_names rest)"
  by pat_completeness auto
termination
  by (relation "measure length") (auto dest: include_here_rest)

definition include_child ::
  "(string list \<Rightarrow> string \<Rightarrow> string list option) \<Rightarrow> string list \<Rightarrow> string \<Rightarrow> string result" where
  "include_child realpath dir raw =
     (case realpath dir raw of
        None \<Rightarrow> Inl (Include_Escapes_Case raw)
      | Some parts \<Rightarrow>
          let child = posix_join parts in bind_result (dependency_path child) (\<lambda>_. Inr child))"

text \<open>The includes of a file: none unless it is small enough and decodes.\<close>

definition file_includes :: "workspace \<Rightarrow> string list \<Rightarrow> string list" where
  "file_includes w q =
     (case map_of (ws_files w) q of
        None \<Rightarrow> []
      | Some bytes \<Rightarrow>
          if int (length bytes) > 2000000 then []
          else case utf8_decode bytes of
            None \<Rightarrow> []
          | Some txt \<Rightarrow> include_names (strip_comments (universal_newlines txt)))"

definition include_children ::
  "(string list \<Rightarrow> string \<Rightarrow> string list option) \<Rightarrow> workspace \<Rightarrow> string \<Rightarrow> string list graph_result" where
  "include_children realpath w relative =
     bind_result (of_workspace (resolve_case_path w relative False)) (\<lambda>q.
       of_value (map_result (include_child realpath (butlast q)) (file_includes w q)))"

definition all_children ::
  "(string list \<Rightarrow> string \<Rightarrow> string list option) \<Rightarrow> workspace \<Rightarrow> string set" where
  "all_children realpath w =
     (\<Union>q \<in> fst ` set (ws_files w). {c. \<exists>raw \<in> set (file_includes w q). include_child realpath (butlast q) raw = Inr c})"

lemma finite_all_children [simp]: "finite (all_children realpath w)"
proof -
  have "finite {c. \<exists>raw \<in> set (file_includes w q). include_child realpath (butlast q) raw = Inr c}" for q
    by (rule finite_subset [of _ "(\<lambda>raw. projr (include_child realpath (butlast q) raw)) ` set (file_includes w q)"])
      (auto simp: image_iff, metis sum.sel(2))
  then show ?thesis by (auto simp: all_children_def)
qed

lemma include_children_subset:
  assumes "include_children realpath w relative = Inr cs"
  shows "set cs \<subseteq> all_children realpath w"
proof -
  obtain q where m: "map_result (include_child realpath (butlast q)) (file_includes w q) = Inr cs"
    using assms by (auto simp: include_children_def)
  show ?thesis
  proof (cases "map_of (ws_files w) q")
    case None
    then show ?thesis using m by (simp add: file_includes_def)
  next
    case (Some b)
    then have "q \<in> fst ` set (ws_files w)" by (metis fst_conv image_eqI map_of_SomeD)
    then show ?thesis using map_result_Inr_set [OF m] by (auto simp: all_children_def)
  qed
qed

text \<open>\<open>seen\<close> holds the visited paths; the result is the paths added, in reverse order.\<close>

function follow_includes ::
  "(string list \<Rightarrow> string \<Rightarrow> string list option) \<Rightarrow> workspace \<Rightarrow> string list \<Rightarrow> string list \<Rightarrow>
     string list \<Rightarrow> string list graph_result" where
  "follow_includes realpath w found seen todo =
     (if todo = [] then Inr found
      else if last todo \<in> set seen then follow_includes realpath w found seen (butlast todo)
      else case include_children realpath w (last todo) of
        Inl e \<Rightarrow> Inl e
      | Inr cs \<Rightarrow> follow_includes realpath w (found @ cs) (last todo # seen) (butlast todo @ cs))"
  by pat_completeness auto
termination
proof (relation "measures [\<lambda>(realpath, w, found, seen, todo). card ((set todo \<union> all_children realpath w) - set seen),
      \<lambda>(realpath, w, found, seen, todo). length todo]", goal_cases)
  case (2 realpath w found seen todo)
  have "set (butlast todo) \<union> all_children realpath w - set seen \<subseteq>
      set todo \<union> all_children realpath w - set seen"
    by (auto dest: in_set_butlastD)
  then have "card (set (butlast todo) \<union> all_children realpath w - set seen) \<le>
      card (set todo \<union> all_children realpath w - set seen)"
    by (intro card_mono) simp_all
  with 2 show ?case by auto
next
  case (3 realpath w found seen todo cs)
  have "last todo \<in> set todo" using 3(1) by simp
  then have "set (butlast todo @ cs) \<union> all_children realpath w - set (last todo # seen) \<subset>
      set todo \<union> all_children realpath w - set seen"
    using 3(2) include_children_subset [OF 3(3)] by (auto dest: in_set_butlastD)
  then have "card (set (butlast todo @ cs) \<union> all_children realpath w - set (last todo # seen)) <
      card (set todo \<union> all_children realpath w - set seen)"
    by (intro psubset_card_mono) simp_all
  then show ?case by simp
qed simp

declare follow_includes.simps [simp del]

definition dependencies ::
  "(string \<Rightarrow> string) \<Rightarrow> (string list \<Rightarrow> string \<Rightarrow> string list option) \<Rightarrow> workspace \<Rightarrow>
     mesh_operation list \<Rightarrow> string \<Rightarrow> (string list \<times> mesh_operation list) graph_result" where
  "dependencies sha realpath w ops region =
     (let selected = selected_operations ops region;
          paths = dict_fromkeys (sink region # operation_paths ops selected)
      in bind_result (of_workspace (execution_file_seals sha w)) (\<lambda>seals.
        let sealed = filter (\<lambda>p. list_ex (\<lambda>root. starts_with p (root @ ''/'')) paths) (map fs_path seals)
        in bind_result (follow_includes realpath w [] [] (paths @ sealed)) (\<lambda>found.
             Inr (dict_fromkeys (paths @ found), map (\<lambda>i. ops ! i) (sort selected)))))"

section \<open>The digest\<close>

record digest_record =
  dr_region :: string
  dr_nodes :: "mesh_operation list"
  dr_artifacts :: "(string \<times> (string \<times> string) list option) list"

definition path_artifacts ::
  "file_seal list \<Rightarrow> string \<Rightarrow> string \<times> (string \<times> string) list option" where
  "path_artifacts seals path =
     (let matches = sort (map (\<lambda>s. (fs_path s, fs_sha256 s))
        (filter (\<lambda>s. fs_path s = path \<or> starts_with (fs_path s) (path @ ''/'')) seals))
      in (path, if matches = [] then None else Some matches))"

definition mesh_digest ::
  "(digest_record \<Rightarrow> string) \<Rightarrow> (string \<Rightarrow> string) \<Rightarrow> (string list \<Rightarrow> string \<Rightarrow> string list option) \<Rightarrow>
     workspace \<Rightarrow> mesh_operation list \<Rightarrow> string \<Rightarrow> string graph_result" where
  "mesh_digest gsha sha realpath w ops region =
     bind_result (dependencies sha realpath w ops region) (\<lambda>(paths, nodes).
       bind_result (of_workspace (execution_file_seals sha w)) (\<lambda>seals.
         Inr (gsha \<lparr>dr_region = region, dr_nodes = nodes,
           dr_artifacts = map (path_artifacts seals) (sorted_set paths)\<rparr>)))"

section \<open>Lemmas\<close>

lemma split_on_snoc: "split_on c (s @ [c]) = split_on c s @ [[]]"
proof (induction s)
  case (Cons x xs)
  then show ?case by (cases "split_on c xs") auto
qed simp

lemma path_tail_rstrip: "path_tail (rstrip_chars ''/'' p) = path_tail p"
proof (induction p rule: rev_induct)
  case (snoc x xs)
  show ?case
  proof (cases "x = CHR ''/''")
    case True
    with snoc show ?thesis by (simp add: rstrip_chars_snoc path_tail_def split_on_snoc)
  next
    case False
    then show ?thesis by (simp add: rstrip_chars_id)
  qed
qed (simp add: rstrip_chars_def)

lemma rstrip_chars_prefix: "prefix (rstrip_chars cs s) s"
proof (induction s rule: rev_induct)
  case (snoc x xs)
  then show ?case
    by (cases "x \<in> set cs") (simp_all add: rstrip_chars_snoc rstrip_chars_id prefix_order.order_trans)
qed (simp add: rstrip_chars_def)

lemma rstrip_chars_idem: "rstrip_chars cs (rstrip_chars cs s) = rstrip_chars cs s"
proof (induction s rule: rev_induct)
  case (snoc x xs)
  then show ?case
    by (cases "x \<in> set cs") (simp_all add: rstrip_chars_snoc rstrip_chars_id)
qed (simp add: rstrip_chars_def)

lemma path_root_relative: "\<not> starts_with p ''/'' \<Longrightarrow> path_root p = []"
  by (auto simp: path_root_def starts_with_def prefix_def)

lemma dependency_path_idem:
  assumes "dependency_path p = Inr q"
  shows "dependency_path q = Inr q"
proof -
  have q: "q = rstrip_chars ''/'' p" and rel: "\<not> starts_with p ''/''"
    using assms by (auto simp: dependency_path_def Let_def split: if_splits)
  have rel': "\<not> starts_with q ''/''"
    using rel rstrip_chars_prefix [of "''/''" p] unfolding q starts_with_def
    by (meson prefix_order.order_trans)
  have "path_parts q = path_parts p"
    using path_tail_rstrip [of p] path_root_relative [OF rel] path_root_relative [OF rel']
    by (simp add: path_parts_def q)
  with assms rel' rel show ?thesis
    by (auto simp: dependency_path_def Let_def q rstrip_chars_idem split: if_splits)
qed

lemma map_result_idem:
  assumes "map_result f xs = Inr ys" "\<And>x y. f x = Inr y \<Longrightarrow> f y = Inr y" "set zs \<subseteq> set ys"
  shows "map_result f zs = Inr zs"
proof -
  have "f z = Inr z" if "z \<in> set zs" for z
    using that assms(2,3) map_result_Inr_set [OF assms(1)] by auto
  then show ?thesis using map_result_total [of zs f id] by simp
qed

lemma check_operations_append:
  "check_operations k (xs @ ys) =
     bind_result (check_operations k xs) (\<lambda>_. check_operations (k + length xs) ys)"
proof (induction xs arbitrary: k)
  case (Cons x xs)
  then show ?case
    by (cases "map_result dependency_path (mo_inputs x @ mo_outputs x)") simp_all
qed simp

lemma check_operations_nth:
  assumes "check_operations k ops = Inr ()" "i < length ops"
  shows "mo_id (ops ! i) = k + i" "\<forall>p \<in> set (mo_parents (ops ! i)). p < k + i"
proof -
  have "check_operations k ops = Inr () \<Longrightarrow> i < length ops \<Longrightarrow>
      mo_id (ops ! i) = k + i \<and> (\<forall>p \<in> set (mo_parents (ops ! i)). p < k + i)"
  proof (induction ops arbitrary: k i)
    case (Cons x ops)
    show ?case
    proof (cases i)
      case 0
      with Cons.prems show ?thesis by (auto simp: list_ex_iff not_le split: if_splits)
    next
      case (Suc j)
      with Cons.prems Cons.IH [of "Suc k" j] show ?thesis by (auto split: if_splits)
    qed
  qed simp
  with assms show "mo_id (ops ! i) = k + i" "\<forall>p \<in> set (mo_parents (ops ! i)). p < k + i" by auto
qed

lemma producers_below:
  assumes "check_operations 0 ops = Inr ()" "p \<in> set (producers ops inputs)"
  shows "p < length ops"
  using assms(2) check_operations_nth(1) [OF assms(1)] by (auto simp: producers_def in_set_conv_nth)

definition registered ::
  "(mesh_operation list \<Rightarrow> string) \<Rightarrow> (mesh_operation list \<Rightarrow> nat) \<Rightarrow> mesh_graph \<Rightarrow> mesh_graph \<Rightarrow>
     mesh_operation \<Rightarrow> bool" where
  "registered osha jsize g g' node \<longleftrightarrow>
     mg_operations g' = mg_operations g @ [node] \<and> mo_id node = length (mg_operations g) \<and>
     mo_parents node = producers (mg_operations g) (mo_inputs node) \<and>
     mg_file g' = Some (write_registry osha jsize (mg_operations g')) \<and>
     mg_tmp_symlink g' = mg_tmp_symlink g"

lemma register_Inr:
  assumes "register osha jsize g ins outs regions cmd args c = (Inr (), g')"
  shows "\<exists>node. registered osha jsize g g' node \<and>
     map_result dependency_path (mo_inputs node @ mo_outputs node) = Inr (mo_inputs node @ mo_outputs node) \<and>
     length (mg_operations g) < 10000 \<and>
     mo_inputs node = sorted_set (projr (map_result dependency_path ins)) \<and>
     mo_outputs node = sorted_set (projr (map_result dependency_path outs))"
proof -
  obtain ps qs where p: "map_result dependency_path ins = Inr ps"
    and q: "map_result dependency_path outs = Inr qs"
    using assms by (auto simp: register_def split: sum.splits)
  have "map_result dependency_path (sorted_set ps) = Inr (sorted_set ps)"
    "map_result dependency_path (sorted_set qs) = Inr (sorted_set qs)"
    using map_result_idem [OF p] map_result_idem [OF q] dependency_path_idem by simp_all
  then have m: "\<forall>x \<in> set (sorted_set ps @ sorted_set qs). dependency_path x = Inr x"
    by (auto simp: map_result_Inr_iff list_all2_same)
  then have "map_result dependency_path (sorted_set ps @ sorted_set qs) =
      Inr (sorted_set ps @ sorted_set qs)"
    using map_result_total [of "sorted_set ps @ sorted_set qs" dependency_path id] by simp
  then show ?thesis
    using assms p q by (auto simp: register_def Let_def registered_def split: if_splits)
qed
text \<open>The edges of the history, from an operation to its earlier producers.\<close>

definition producer_edges :: "mesh_operation list \<Rightarrow> (nat \<times> nat) set" where
  "producer_edges ops = {(i, p). p \<in> set (parents_at ops i)}"

lemma select_ancestors_spec:
  assumes "set todo \<subseteq> set selected"
    and "\<forall>i \<in> set selected. i \<in> set todo \<or> set (parents_at ops i) \<subseteq> set selected"
  shows "set (select_ancestors ops selected todo) = (producer_edges ops)\<^sup>* `` set selected"
  using assms
proof (induction ops selected todo rule: select_ancestors.induct)
  case (1 ops selected todo)
  show ?case
  proof (cases "todo = []")
    case True
    then have "(producer_edges ops) `` set selected \<subseteq> set selected"
      using 1(3) by (auto simp: producer_edges_def)
    with True show ?thesis
      by (simp add: select_ancestors.simps Image_closed_trancl)
  next
    case False
    obtain s' t' where st: "fold add_parent (parents_at ops (last todo)) (selected, butlast todo) = (s', t')"
      by fastforce
    then obtain new where n: "t' = butlast todo @ new" "s' = selected @ new"
      "set new = set (parents_at ops (last todo)) - set selected"
      using fold_add_parent by blast
    have todo: "set todo = insert (last todo) (set (butlast todo))"
      using False by (metis append_butlast_last_id list.set(1,2) set_append sup_bot_left sup_commute insert_is_Un)
    have "set (select_ancestors ops s' t') = (producer_edges ops)\<^sup>* `` set s'"
    proof (rule "1.IH" [OF False refl st [symmetric], unfolded st])
      show "set t' \<subseteq> set s'" using 1(2) n by (auto dest: in_set_butlastD)
      show "\<forall>i \<in> set s'. i \<in> set t' \<or> set (parents_at ops i) \<subseteq> set s'"
        using 1(3) n todo by auto
    qed
    moreover have "(producer_edges ops)\<^sup>* `` set s' = (producer_edges ops)\<^sup>* `` set selected"
    proof
      have "set new \<subseteq> (producer_edges ops)\<^sup>* `` set selected"
      proof
        fix x assume "x \<in> set new"
        with n(3) have "(last todo, x) \<in> producer_edges ops" by (simp add: producer_edges_def)
        moreover have "last todo \<in> set selected" using 1(2) False by auto
        ultimately show "x \<in> (producer_edges ops)\<^sup>* `` set selected" by blast
      qed
      then show "(producer_edges ops)\<^sup>* `` set s' \<subseteq> (producer_edges ops)\<^sup>* `` set selected"
        unfolding n(2) by (auto intro: rtrancl_trans)
    qed (auto simp: n(2))
    ultimately show ?thesis
      using False st by (subst select_ancestors.simps) simp
  qed
qed

text \<open>
  C23: The operations a region's evidence depends on are exactly the
  operations of the region, or with an output overlapping its \<open>polyMesh\<close>, together with all their
  transitive producers.
\<close>

theorem selected_operations_spec:
  "set (selected_operations ops region) =
     {p. \<exists>n \<in> set ops. (region \<in> set (mo_regions n) \<or> (\<exists>out \<in> set (mo_outputs n). overlap (sink region) out)) \<and>
        (mo_id n, p) \<in> (producer_edges ops)\<^sup>*}"
proof -
  have "set (selected_operations ops region) = (producer_edges ops)\<^sup>* `` set (selected_roots ops region)"
    by (simp add: selected_operations_def Let_def select_ancestors_spec)
  also have "set (selected_roots ops region) =
      {mo_id n | n. n \<in> set ops \<and> (region \<in> set (mo_regions n) \<or> (\<exists>out \<in> set (mo_outputs n). overlap (sink region) out))}"
    by (auto simp: selected_roots_def list_ex_iff)
  finally show ?thesis by auto
qed

text \<open>
  C22: Registering an operation on a well-formed history appends one node whose
  identifier is its position and whose parents are exactly the earlier operations with an output
  overlapping one of its inputs; every parent is older, and the registry file that was written is
  loaded again as the same history whenever it is within the loader's size limit.
\<close>

theorem register_keeps_dag:
  assumes "check_operations 0 (mg_operations g) = Inr ()"
    and "register osha jsize g ins outs regions cmd args c = (Inr (), g')"
  shows "check_operations 0 (mg_operations g') = Inr () \<and>
     (\<exists>node. mg_operations g' = mg_operations g @ [node] \<and> mo_id node = length (mg_operations g) \<and>
        set (mo_parents node) = {mo_id n | n. n \<in> set (mg_operations g) \<and>
          (\<exists>p \<in> set (mo_inputs node). \<exists>q \<in> set (mo_outputs n). overlap p q)} \<and>
        (\<forall>p \<in> set (mo_parents node). p < mo_id node)) \<and>
     (jsize (mg_operations g') \<le> 16000000 \<longrightarrow>
        load_graph osha (mg_file g') (mg_tmp_symlink g') = Inr g')"
proof -
  obtain node where r: "registered osha jsize g g' node"
    and m: "map_result dependency_path (mo_inputs node @ mo_outputs node) = Inr (mo_inputs node @ mo_outputs node)"
    using register_Inr [OF assms(2)] by blast
  then have ops: "mg_operations g' = mg_operations g @ [node]" "mo_id node = length (mg_operations g)"
    "mo_parents node = producers (mg_operations g) (mo_inputs node)"
    "mg_file g' = Some (write_registry osha jsize (mg_operations g'))"
    by (simp_all add: registered_def)
  have below: "\<forall>p \<in> set (mo_parents node). p < mo_id node"
    using producers_below [OF assms(1)] ops(2,3) by simp
  then have chk: "check_operations 0 (mg_operations g') = Inr ()"
    using assms(1) m ops(2) by (simp add: ops(1) check_operations_append list_ex_iff not_le)
  have "jsize (mg_operations g') \<le> 16000000 \<longrightarrow>
      load_graph osha (mg_file g') (mg_tmp_symlink g') = Inr g'"
    using chk ops(4) by (simp add: load_graph_def write_registry_def)
  moreover have "set (mo_parents node) = {mo_id n | n. n \<in> set (mg_operations g) \<and>
      (\<exists>p \<in> set (mo_inputs node). \<exists>q \<in> set (mo_outputs n). overlap p q)}"
    by (auto simp: ops(3) producers_def list_ex_iff)
  ultimately show ?thesis using chk below ops(1,2) by blast
qed

definition sample_history :: mesh_graph where
  "sample_history =
     snd (record_native (\<lambda>_. ''digest'') length \<lparr>mg_operations = [], mg_file = None, mg_tmp_symlink = False\<rparr>
       ''blockMesh'' [] None)"

theorem register_keeps_dag_witness:
  "\<exists>g'. check_operations 0 (mg_operations sample_history) = Inr () \<and>
     register (\<lambda>_. ''digest'') length sample_history [''constant/polyMesh''] [''constant/polyMesh''] []
       ''topoSet'' [] False = (Inr (), g') \<and>
     map mo_parents (mg_operations g') = [[], [0]] \<and>
     load_graph (\<lambda>_. ''digest'') (mg_file g') False = Inr g'"
proof -
  let ?r = "register (\<lambda>_. ''digest'') length sample_history [''constant/polyMesh''] [''constant/polyMesh'']
    [] ''topoSet'' [] False"
  have c: "check_operations 0 (mg_operations sample_history) = Inr ()" by code_simp
  have r: "fst ?r = Inr ()" "map mo_parents (mg_operations (snd ?r)) = [[], [0]]"
    "mg_tmp_symlink (snd ?r) = False" "length (mg_operations (snd ?r)) = 2"
    by code_simp+
  then have "?r = (Inr (), snd ?r)" by (metis prod.collapse)
  from register_keeps_dag [OF c this] c this r show ?thesis by fastforce
qed

section \<open>A region's dependencies are closed\<close>

lemma follow_includes_closed:
  assumes "follow_includes realpath w found seen todo = Inr r"
    and "set found \<subseteq> set seen \<union> set todo"
    and "\<forall>s \<in> set seen. \<exists>cs. include_children realpath w s = Inr cs \<and> set cs \<subseteq> set found"
  shows "set found \<subseteq> set r \<and>
     (\<forall>s \<in> set seen \<union> set todo \<union> set r. \<exists>cs. include_children realpath w s = Inr cs \<and> set cs \<subseteq> set r)"
  using assms
proof (induction realpath w found seen todo rule: follow_includes.induct)
  case (1 realpath w found seen todo)
  consider (stop) "todo = []" | (old) "todo \<noteq> []" "last todo \<in> set seen"
    | (new) "todo \<noteq> []" "last todo \<notin> set seen" by blast
  then show ?case
  proof cases
    case stop
    then have "r = found" using 1(3) by (simp add: follow_includes.simps)
    with 1(4,5) stop show ?thesis by auto
  next
    case old
    have set: "set todo = insert (last todo) (set (butlast todo))"
      using old(1) by (metis append_butlast_last_id list.set(1,2) set_append sup_bot_left sup_commute insert_is_Un)
    have "follow_includes realpath w found seen (butlast todo) = Inr r"
      using 1(3) old by (simp add: follow_includes.simps [of _ _ _ _ todo])
    from "1.IH"(1) [OF old this _ 1(5)] show ?thesis using 1(4) old set by auto
  next
    case new
    have set: "set todo = insert (last todo) (set (butlast todo))"
      using new(1) by (metis append_butlast_last_id list.set(1,2) set_append sup_bot_left sup_commute insert_is_Un)
    obtain cs where cs: "include_children realpath w (last todo) = Inr cs"
      using 1(3) new by (auto simp: follow_includes.simps [of _ _ _ _ todo] split: sum.splits)
    then have step: "follow_includes realpath w (found @ cs) (last todo # seen) (butlast todo @ cs) = Inr r"
      using 1(3) new by (simp add: follow_includes.simps [of _ _ _ _ todo])
    have "set (found @ cs) \<subseteq> set r \<and>
        (\<forall>s \<in> set (last todo # seen) \<union> set (butlast todo @ cs) \<union> set r.
          \<exists>cs. include_children realpath w s = Inr cs \<and> set cs \<subseteq> set r)"
    proof (rule "1.IH"(2) [OF new cs step])
      show "set (found @ cs) \<subseteq> set (last todo # seen) \<union> set (butlast todo @ cs)"
        using 1(4) set by auto
      show "\<forall>s \<in> set (last todo # seen). \<exists>cs'. include_children realpath w s = Inr cs' \<and>
          set cs' \<subseteq> set (found @ cs)"
        using 1(5) cs by simp (meson le_supI1)
    qed
    with set show ?thesis by auto
  qed
qed

text \<open>
  When the dependencies of a region are found, they contain the region's
  \<open>polyMesh\<close> and every input and output of the selected operations, and they are closed under the
  literal includes of the files they name: every include of a dependency is a dependency.
\<close>

theorem dependencies_closed:
  assumes "dependencies sha realpath w ops region = Inr (paths, nodes)"
  shows "sink region \<in> set paths \<and>
     (\<forall>i \<in> set (selected_operations ops region). set (mo_inputs (ops ! i)) \<union> set (mo_outputs (ops ! i)) \<subseteq> set paths) \<and>
     nodes = map (\<lambda>i. ops ! i) (sort (selected_operations ops region)) \<and>
     (\<forall>p \<in> set paths. \<exists>cs. include_children realpath w p = Inr cs \<and> set cs \<subseteq> set paths)"
proof -
  define base where "base = dict_fromkeys (sink region # operation_paths ops (selected_operations ops region))"
  obtain sealed found where f: "follow_includes realpath w [] [] (base @ sealed) = Inr found"
    and r: "paths = dict_fromkeys (base @ found)" "nodes = map (\<lambda>i. ops ! i) (sort (selected_operations ops region))"
    using assms by (auto simp: dependencies_def Let_def base_def)
  have "\<forall>s \<in> set (base @ sealed) \<union> set found.
      \<exists>cs. include_children realpath w s = Inr cs \<and> set cs \<subseteq> set found"
    using follow_includes_closed [OF f] by simp
  then have "\<forall>p \<in> set paths. \<exists>cs. include_children realpath w p = Inr cs \<and> set cs \<subseteq> set paths"
    unfolding r by fastforce
  then show ?thesis
    using r by (auto simp: base_def operation_paths_def)
qed

definition include_case :: workspace where
  "include_case =
     new_workspace\<lparr>ws_files :=
       [([''system'', ''blockMeshDict''], ''#include '' @ [CHR 0x22] @ ''../constant/size'' @ [CHR 0x22]),
        ([''constant'', ''size''], ''n 4;'')]\<rparr>"

definition lexical_path :: "string list \<Rightarrow> string \<Rightarrow> string list option" where
  "lexical_path dir raw = (if starts_with raw ''../'' then Some (split_on (CHR ''/'') (drop 3 raw)) else None)"

theorem dependencies_closed_witness:
  "\<exists>paths nodes. dependencies (\<lambda>_. ''h'') lexical_path include_case (mg_operations sample_history) [] =
       Inr (paths, nodes) \<and>
     ''constant/size'' \<in> set paths \<and> sink [] \<in> set paths"
proof -
  let ?d = "dependencies (\<lambda>_. ''h'') lexical_path include_case (mg_operations sample_history) []"
  have "\<not> isl ?d \<and> ''constant/size'' \<in> set (fst (projr ?d))" by code_simp
  then obtain paths nodes where d: "?d = Inr (paths, nodes)" "''constant/size'' \<in> set paths"
    by (cases ?d) auto
  then show ?thesis using dependencies_closed [OF d(1)] by blast
qed

end
