(* ===== verification/Mesh_Consumers.thy ===== *)
theory Mesh_Consumers
  imports Mesh_Dependencies
begin

text \<open>
  What a change of the case means for its meshes, the second half of
  \<^verbatim>\<open>contracts/execution_scopes.py\<close> and the path rules of \<^verbatim>\<open>engineering/native_scope.py\<close>: the
  scopes whose mesh evidence a change invalidates, the downstream consumers that must run again,
  found to a fixed point, and the evidence a run of the solver needs.

  The environment \<open>mesh_env\<close> holds what the mesh dependency graph takes from outside: the digests,
  \<open>Path.resolve\<close> and the registry file.
\<close>

section \<open>Path rules of native scopes\<close>

definition mesh_system_dictionaries :: "string list" where
  "mesh_system_dictionaries =
     [''blockMeshDict'', ''snappyHexMeshDict'', ''surfaceFeatureExtractDict'', ''surfaceFeaturesDict'',
      ''createPatchDict'', ''topoSetDict'', ''setFieldsDict'', ''decomposeParDict'']"

definition system_dictionary_scope :: "string \<Rightarrow> string \<Rightarrow> string option" where
  "system_dictionary_scope filename path =
     (let parts = path_parts path
      in if parts = [''system'', filename] then Some []
         else if length parts = 3 \<and> parts ! 0 = ''system'' \<and> parts ! 2 = filename then Some (parts ! 1)
         else None)"

definition system_dictionary_scopes :: "string list \<Rightarrow> string \<Rightarrow> string list" where
  "system_dictionary_scopes paths filename =
     dict_fromkeys (concat (map (\<lambda>p. case system_dictionary_scope filename p of None \<Rightarrow> [] | Some n \<Rightarrow> [n]) paths))"

definition scoped_arguments :: "string \<Rightarrow> string list \<Rightarrow> string list" where
  "scoped_arguments region extra = (if region \<noteq> [] then [''-region'', region] else []) @ extra"

definition invocation_region :: "native_command \<Rightarrow> string result" where
  "invocation_region item =
     bind_result (native_command_region (nc_arguments item)) (\<lambda>r. Inr (get_default [] r))"

definition declared_named_regions :: "scope_source \<Rightarrow> string list" where
  "declared_named_regions src =
     concat (map (\<lambda>sc. case scope_name sc of None \<Rightarrow> [] | Some n \<Rightarrow> [n]) (execution_scopes src))"

definition mesh_directory :: "string \<Rightarrow> bool" where
  "mesh_directory p \<longleftrightarrow> p \<in> {''polyMesh'', ''triSurface'', ''geometry''}"

definition mesh_affecting_path :: "string \<Rightarrow> bool" where
  "mesh_affecting_path path =
     (let parts = path_parts path
      in if parts = [] then False
         else if hd parts = ''system'' \<and> last parts \<in> set mesh_system_dictionaries \<and> length parts \<in> {2, 3}
         then True
         else if hd parts = ''constant'' then
           length parts \<ge> 2 \<and> mesh_directory (parts ! 1) \<or> length parts \<ge> 3 \<and> mesh_directory (parts ! 2)
         else False)"

definition final_check_mesh_commands :: "scope_source \<Rightarrow> native_command list result" where
  "final_check_mesh_commands src = final_mesh_validation_commands src None"

section \<open>Scopes affected by a change\<close>

record mesh_env =
  me_sha :: "string \<Rightarrow> string"
  me_operations_sha :: "mesh_operation list \<Rightarrow> string"
  me_digest_sha :: "digest_record \<Rightarrow> string"
  me_realpath :: "string list \<Rightarrow> string \<Rightarrow> string list option"
  me_registry :: "registry_file option"

definition region_of :: "execution_scope \<Rightarrow> string" where
  "region_of sc = get_default [] (scope_name sc)"

definition open_graph :: "mesh_env \<Rightarrow> mesh_graph graph_result" where
  "open_graph env = load_graph (me_operations_sha env) (me_registry env) False"

definition scope_dependencies ::
  "mesh_env \<Rightarrow> workspace \<Rightarrow> mesh_graph \<Rightarrow> execution_scope \<Rightarrow> string list graph_result" where
  "scope_dependencies env w g sc =
     bind_result (dependencies (me_sha env) (me_realpath env) w (mg_operations g) (region_of sc))
       (\<lambda>(paths, nodes). Inr paths)"

definition touches :: "string list \<Rightarrow> string list \<Rightarrow> bool" where
  "touches changed deps \<longleftrightarrow> list_ex (\<lambda>p. list_ex (path_overlap p) deps) changed"

definition touched_scope ::
  "mesh_env \<Rightarrow> workspace \<Rightarrow> mesh_graph \<Rightarrow> string list \<Rightarrow> execution_scope \<Rightarrow> string list graph_result" where
  "touched_scope env w g changed sc =
     bind_result (scope_dependencies env w g sc) (\<lambda>deps.
       Inr (if touches changed deps then [scope_key sc] else []))"

definition invocation_scopes ::
  "execution_scope list \<Rightarrow> native_command \<Rightarrow> string list result" where
  "invocation_scopes scopes item =
     (if ct_effect (native_tool_contract (nc_command item)) \<notin> {Eff_Mesh, Eff_Decomposition} then Inr []
      else bind_result (native_command_region (nc_arguments item)) (\<lambda>region.
        case region of
          None \<Rightarrow> Inr (map scope_key scopes)
        | Some r \<Rightarrow>
            (case filter (\<lambda>sc. scope_name sc = Some r) scopes of
               [sc] \<Rightarrow> Inr [scope_key sc]
             | _ \<Rightarrow> Inl (Undeclared_Mesh_Scope r))))"

definition affected_mesh_scope_keys ::
  "mesh_env \<Rightarrow> workspace \<Rightarrow> scope_source \<Rightarrow> string list \<Rightarrow> native_command list \<Rightarrow> string list graph_result" where
  "affected_mesh_scope_keys env w src changed_paths invocations =
     (let changed = map posix_str changed_paths; scopes = execution_scopes src
      in bind_result (open_graph env) (\<lambda>g.
         bind_result (map_result (touched_scope env w g changed) scopes) (\<lambda>by_path.
         bind_result (of_value (map_result (invocation_scopes scopes) invocations)) (\<lambda>by_call.
           Inr (dict_fromkeys (concat by_path @ concat by_call))))))"

section \<open>Downstream consumers to a fixed point\<close>

type_synonym candidate = "execution_scope option \<times> native_command"

definition delta_consumer_contracts :: "native_contract list" where
  "delta_consumer_contracts = filter ct_controller_delta_consumer registered_contracts"

definition global_candidate :: "string list \<Rightarrow> native_contract \<Rightarrow> candidate list" where
  "global_candidate paths c =
     (case ct_required_dictionary c of
        None \<Rightarrow> []
      | Some d \<Rightarrow> if d \<in> set paths then [(None, mk_command (ct_command c) (ct_default_arguments c) Role_Mesh)] else [])"

definition scoped_candidate ::
  "string list \<Rightarrow> native_contract \<Rightarrow> execution_scope \<Rightarrow> candidate list result" where
  "scoped_candidate paths c sc =
     (if scope_name sc = None then Inr []
      else bind_result (contract_arguments (ct_command c) sc) (\<lambda>args.
        bind_result (required_dictionary (ct_command c) args) (\<lambda>d.
          Inr (case d of
                 None \<Rightarrow> []
               | Some p \<Rightarrow> if p \<in> set paths then [(Some sc, mk_command (ct_command c) args Role_Mesh)] else []))))"

definition contract_candidates ::
  "scope_source \<Rightarrow> string list \<Rightarrow> native_contract \<Rightarrow> candidate list result" where
  "contract_candidates src paths c =
     (if ct_scope_arguments c = [] then Inr (global_candidate paths c)
      else bind_result (map_result (scoped_candidate paths c) (execution_scopes src)) (\<lambda>xs.
        Inr (global_candidate paths c @ concat xs)))"

definition delta_candidates :: "scope_source \<Rightarrow> string list \<Rightarrow> candidate list result" where
  "delta_candidates src paths =
     bind_result (auto_mesh_consumers src paths) (\<lambda>consumers.
       bind_result (map_result (contract_candidates src paths) delta_consumer_contracts) (\<lambda>extra.
         Inr (map (\<lambda>(sc, c). (Some sc, c)) consumers @ concat extra)))"

definition scope_templates :: "execution_scope option \<Rightarrow> string list \<Rightarrow> string list" where
  "scope_templates sc templates =
     (case sc of None \<Rightarrow> templates | Some s \<Rightarrow> map (\<lambda>t. render_scope_template t s) templates)"

definition output_paths :: "execution_scope option \<Rightarrow> native_command \<Rightarrow> string list" where
  "output_paths sc item =
     scope_templates sc (ct_mesh_dependency_outputs (native_tool_contract (nc_command item)))"

text \<open>\<open>-dict\<close> overrides the default dictionary; it is not an additional input.\<close>

definition default_dictionary :: "execution_scope option \<Rightarrow> string \<Rightarrow> string option result" where
  "default_dictionary sc cmd =
     (case sc of
        None \<Rightarrow> Inr (ct_required_dictionary (native_tool_contract cmd))
      | Some s \<Rightarrow> bind_result (contract_arguments cmd s) (required_dictionary cmd))"

definition input_paths :: "execution_scope option \<Rightarrow> native_command \<Rightarrow> string list result" where
  "input_paths sc item =
     (let values = scope_templates sc (ct_mesh_dependency_inputs (native_tool_contract (nc_command item)))
      in bind_result (default_dictionary sc (nc_command item)) (\<lambda>default.
         bind_result (required_dictionary (nc_command item) (nc_arguments item)) (\<lambda>actual.
           Inr (case (actual, default) of
                  (Some a, Some d) \<Rightarrow>
                    if a \<noteq> [] \<and> d \<noteq> [] then map (\<lambda>v. if v = d then a else v) values else values
                | _ \<Rightarrow> values))))"

type_synonym token = "string \<times> string list"

definition call_token :: "native_command \<Rightarrow> token" where
  "call_token item = (nc_command item, nc_arguments item)"

definition call_key :: "native_command \<Rightarrow> (string \<times> string option) result" where
  "call_key item =
     bind_result (native_command_region (nc_arguments item)) (\<lambda>r. Inr (nc_command item, r))"

definition names_scope :: "native_contract \<Rightarrow> bool" where
  "names_scope c \<longleftrightarrow>
     list_ex (\<lambda>t. sublist ''{scope'' t \<or> sublist ''{constant_dir}'' t \<or> sublist ''{system_dir}'' t)
       (ct_mesh_dependency_inputs c @ ct_mesh_dependency_outputs c)"

definition explicit_outputs :: "scope_source \<Rightarrow> native_command \<Rightarrow> string list result" where
  "explicit_outputs src item =
     (if names_scope (native_tool_contract (nc_command item)) then
        bind_result (scope_for_native_arguments src (nc_arguments item)) (\<lambda>sc. Inr (output_paths (Some sc) item))
      else Inr (output_paths None item))"

text \<open>One pass over the candidates: what it selects changes \<open>dirty\<close> for the candidates after it.\<close>

fun scan_candidates ::
  "candidate list \<Rightarrow> native_command list \<times> token list \<times> string list \<Rightarrow>
     (native_command list \<times> token list \<times> string list) result" where
  "scan_candidates [] st = Inr st"
| "scan_candidates ((sc, item) # cs) (selected, seen, dirty) =
     (if call_token item \<in> set seen then scan_candidates cs (selected, seen, dirty)
      else bind_result (input_paths sc item) (\<lambda>inputs.
        if touches dirty inputs
        then scan_candidates cs (selected @ [item], call_token item # seen, dirty @ output_paths sc item)
        else scan_candidates cs (selected, seen, dirty)))"

lemma scan_candidates_grow:
  assumes "scan_candidates cs (selected, seen, dirty) = Inr (selected', seen', dirty')"
  shows "\<exists>new. selected' = selected @ new \<and> set seen' = set seen \<union> call_token ` set new \<and>
     call_token ` set new \<subseteq> call_token ` (snd ` set cs) - set seen \<and> set dirty \<subseteq> set dirty' \<and>
     distinct (map call_token new) \<and> (new = [] \<longrightarrow> seen' = seen \<and> dirty' = dirty)"
  using assms
proof (induction cs "(selected, seen, dirty)" arbitrary: selected seen dirty rule: scan_candidates.induct)
  case (2 sc item cs selected seen dirty)
  have sub: "call_token ` (snd ` set cs) - set seen \<subseteq> call_token ` (snd ` set ((sc, item) # cs)) - set seen"
    by auto
  show ?case
  proof (cases "call_token item \<in> set seen")
    case True
    then have "scan_candidates cs (selected, seen, dirty) = Inr (selected', seen', dirty')" using 2(4) by simp
    from 2(1) [OF True this] obtain new where n: "selected' = selected @ new"
        "set seen' = set seen \<union> call_token ` set new"
        "call_token ` set new \<subseteq> call_token ` (snd ` set cs) - set seen" "set dirty \<subseteq> set dirty'"
        "distinct (map call_token new)" "new = [] \<longrightarrow> seen' = seen \<and> dirty' = dirty" by blast
      show ?thesis using n subset_trans [OF n(3) sub] by (intro exI [of _ new] conjI)
  next
    case False
    obtain inputs where i: "input_paths sc item = Inr inputs" using 2(4) False by auto
    show ?thesis
    proof (cases "touches dirty inputs")
      case True
      have "scan_candidates cs (selected @ [item], call_token item # seen, dirty @ output_paths sc item) =
          Inr (selected', seen', dirty')"
        using 2(4) False i True by simp
      from 2(2) [OF False i True this] obtain new where n: "selected' = (selected @ [item]) @ new"
        "set seen' = set (call_token item # seen) \<union> call_token ` set new"
        "call_token ` set new \<subseteq> call_token ` (snd ` set cs) - set (call_token item # seen)"
        "set (dirty @ output_paths sc item) \<subseteq> set dirty'" "distinct (map call_token new)" by blast
      have "call_token ` set (item # new) \<subseteq> call_token ` (snd ` set ((sc, item) # cs)) - set seen"
        using n(3) False by (simp only: list.set image_insert snd_conv) blast
      moreover have "call_token item \<notin> call_token ` set new" using n(3) by auto
      ultimately show ?thesis
        by (intro exI [of _ "item # new"]) (use n in \<open>simp add: image_image\<close>)
    next
      case no: False
      have "scan_candidates cs (selected, seen, dirty) = Inr (selected', seen', dirty')"
        using 2(4) False i no by simp
      from 2(3) [OF False i no this] obtain new where n: "selected' = selected @ new"
        "set seen' = set seen \<union> call_token ` set new"
        "call_token ` set new \<subseteq> call_token ` (snd ` set cs) - set seen" "set dirty \<subseteq> set dirty'"
        "distinct (map call_token new)" "new = [] \<longrightarrow> seen' = seen \<and> dirty' = dirty" by blast
      show ?thesis using n subset_trans [OF n(3) sub] by (intro exI [of _ new] conjI)
    qed
  qed
qed simp

lemma scan_candidates_progress:
  assumes "scan_candidates cs (selected, seen, dirty) = Inr (selected', seen', dirty')"
    and "selected' \<noteq> selected"
  shows "card (call_token ` (snd ` set cs) - set seen') < card (call_token ` (snd ` set cs) - set seen)"
proof -
  obtain new where n: "selected' = selected @ new" "set seen' = set seen \<union> call_token ` set new"
    "call_token ` set new \<subseteq> call_token ` (snd ` set cs) - set seen"
    using scan_candidates_grow [OF assms(1)] by blast
  with assms(2) obtain x where "x \<in> set new" by (cases new) auto
  with n have "call_token x \<in> call_token ` (snd ` set cs) - set seen" "call_token x \<in> set seen'" by blast+
  with n(2) have "call_token ` (snd ` set cs) - set seen' \<subset> call_token ` (snd ` set cs) - set seen" by blast
  then show ?thesis by (intro psubset_card_mono) simp_all
qed

function consumer_rounds ::
  "candidate list \<Rightarrow> native_command list \<times> token list \<times> string list \<Rightarrow>
     (native_command list \<times> token list \<times> string list) result" where
  "consumer_rounds cs (selected, seen, dirty) =
     bind_result (scan_candidates cs (selected, seen, dirty)) (\<lambda>(selected', seen', dirty').
       if selected' = selected then Inr (selected, seen, dirty)
       else consumer_rounds cs (selected', seen', dirty'))"
  by pat_completeness auto
termination
  by (relation "measure (\<lambda>(cs, selected, seen, dirty). card (call_token ` (snd ` set cs) - set seen))")
    (auto dest: scan_candidates_progress)

declare consumer_rounds.simps [simp del]

definition open_candidates ::
  "(string \<times> string option) list \<Rightarrow> candidate list \<Rightarrow> candidate list result" where
  "open_candidates keys candidates =
     bind_result (map_result (\<lambda>c. bind_result (call_key (snd c)) (\<lambda>k. Inr (k, c))) candidates) (\<lambda>keyed.
       Inr (map snd (filter (\<lambda>(k, c). k \<notin> set keys) keyed)))"

definition auto_consumers_for_delta ::
  "scope_source \<Rightarrow> string list \<Rightarrow> string list \<Rightarrow> native_command list \<Rightarrow> native_command list result" where
  "auto_consumers_for_delta src available changed_paths explicit =
     bind_result (delta_candidates src available) (\<lambda>candidates.
     bind_result (map_result (explicit_outputs src) explicit) (\<lambda>outs.
     bind_result (map_result call_key explicit) (\<lambda>keys.
     bind_result (open_candidates keys candidates) (\<lambda>open_cs.
     bind_result (consumer_rounds open_cs
         ([], map call_token explicit, map posix_str changed_paths @ concat outs)) (\<lambda>(selected, seen, dirty).
       Inr selected)))))"

section \<open>Mesh evidence\<close>

text \<open>The fields of \<open>MeshEvidence\<close> its verdict reads.\<close>

record mesh_evidence =
  ev_command_succeeded :: bool
  ev_mesh_ok :: bool
  ev_cell_count :: "int option"
  ev_negative_volume_cells :: "int option"

definition evidence_passed :: "mesh_evidence \<Rightarrow> bool" where
  "evidence_passed e \<longleftrightarrow>
     ev_command_succeeded e \<and> ev_mesh_ok e \<and> ev_cell_count e \<noteq> None \<and>
     ev_negative_volume_cells e \<in> {None, Some 0}"

record mesh_state =
  ms_evidence_by_scope :: "(string \<times> mesh_evidence) list"
  ms_manifest_by_scope :: "(string \<times> string) list"
  ms_mesh_evidence :: "mesh_evidence option"
  ms_region_mesh_evidence :: "(string \<times> mesh_evidence) list"
  ms_region_mesh_manifests :: "(string \<times> string) list"

datatype evidence_failure =
    Evidence_Missing string
  | Evidence_Not_Passed string
  | Cell_Count_Exceeds int string int
  | Evidence_Stale string

definition scope_mesh_digest :: "mesh_env \<Rightarrow> workspace \<Rightarrow> execution_scope \<Rightarrow> string graph_result" where
  "scope_mesh_digest env w sc =
     bind_result (open_graph env) (\<lambda>g.
       mesh_digest (me_digest_sha env) (me_sha env) (me_realpath env) w (mg_operations g) (region_of sc))"

definition scope_label :: "execution_scope \<Rightarrow> string" where
  "scope_label sc = (case scope_name sc of None \<Rightarrow> ''root'' | Some n \<Rightarrow> if n = [] then ''root'' else n)"

definition scope_evidence_failures ::
  "mesh_env \<Rightarrow> workspace \<Rightarrow> mesh_state \<Rightarrow> int \<Rightarrow> execution_scope \<Rightarrow> evidence_failure list graph_result" where
  "scope_evidence_failures env w st max_mesh_cells sc =
     (case map_of (ms_evidence_by_scope st) (scope_key sc) of
        None \<Rightarrow> Inr [Evidence_Missing (scope_label sc)]
      | Some e \<Rightarrow>
          if \<not> evidence_passed e then Inr [Evidence_Not_Passed (scope_label sc)]
          else bind_result (scope_mesh_digest env w sc) (\<lambda>expected.
            Inr ((case ev_cell_count e of
                    None \<Rightarrow> []
                  | Some n \<Rightarrow> if n > max_mesh_cells
                      then [Cell_Count_Exceeds n (scope_label sc) max_mesh_cells] else []) @
                 (if map_of (ms_manifest_by_scope st) (scope_key sc) \<noteq> Some expected
                  then [Evidence_Stale (scope_label sc)] else []))))"

definition current_mesh_evidence_failures ::
  "mesh_env \<Rightarrow> workspace \<Rightarrow> mesh_state \<Rightarrow> scope_source \<Rightarrow> int \<Rightarrow> evidence_failure list graph_result" where
  "current_mesh_evidence_failures env w st src max_mesh_cells =
     bind_result (map_result (scope_evidence_failures env w st max_mesh_cells) (execution_scopes src))
       (\<lambda>fs. Inr (concat fs))"

definition region_entries :: "(string \<times> 'a) list \<Rightarrow> (string \<times> 'a) list" where
  "region_entries m =
     map (\<lambda>(k, v). (drop (length ''region:'') k, v)) (filter (\<lambda>(k, v). starts_with k ''region:'') m)"

definition sync_legacy_mesh_state :: "mesh_state \<Rightarrow> mesh_state" where
  "sync_legacy_mesh_state st =
     st\<lparr>ms_mesh_evidence := map_of (ms_evidence_by_scope st) ''root'',
        ms_region_mesh_evidence := region_entries (ms_evidence_by_scope st),
        ms_region_mesh_manifests := region_entries (ms_manifest_by_scope st)\<rparr>"

section \<open>The consumers of a change\<close>

text \<open>
  What a change reaches, as a specification: the changed paths, and the outputs of every candidate
  one of whose inputs overlaps something reached.
\<close>

inductive reached :: "candidate list \<Rightarrow> string set \<Rightarrow> string \<Rightarrow> bool"
  for cs :: "candidate list" and start :: "string set"
where
  start: "p \<in> start \<Longrightarrow> reached cs start p"
| derived: "\<lbrakk>(sc, item) \<in> set cs; input_paths sc item = Inr ins; d \<in> set ins; reached cs start p;
     path_overlap p d; q \<in> set (output_paths sc item)\<rbrakk> \<Longrightarrow> reached cs start q"

definition triggered :: "candidate list \<Rightarrow> string set \<Rightarrow> execution_scope option \<Rightarrow> native_command \<Rightarrow> bool" where
  "triggered cs start sc item \<longleftrightarrow>
     (\<exists>ins. input_paths sc item = Inr ins \<and> (\<exists>d \<in> set ins. \<exists>p. reached cs start p \<and> path_overlap p d))"

definition consumer_inv ::
  "candidate list \<Rightarrow> string set \<Rightarrow> token set \<Rightarrow> native_command list \<times> token list \<times> string list \<Rightarrow> bool" where
  "consumer_inv cs start explicit st \<longleftrightarrow>
     (case st of (selected, seen, dirty) \<Rightarrow>
        set seen = explicit \<union> call_token ` set selected \<and> start \<subseteq> set dirty \<and>
        (\<forall>p \<in> set dirty. reached cs start p) \<and> distinct (map call_token selected) \<and>
        call_token ` set selected \<inter> explicit = {} \<and>
        (\<forall>item \<in> set selected. \<exists>sc. (sc, item) \<in> set cs \<and> triggered cs start sc item \<and>
           set (output_paths sc item) \<subseteq> set dirty))"

lemma touches_iff: "touches dirty ins \<longleftrightarrow> (\<exists>p \<in> set dirty. \<exists>d \<in> set ins. path_overlap p d)"
  by (simp add: touches_def list_ex_iff)

lemma consumer_inv_select:
  assumes "consumer_inv cs0 start explicit (selected, seen, dirty)" "(sc, item) \<in> set cs0"
    and "call_token item \<notin> set seen" "input_paths sc item = Inr ins" "touches dirty ins"
  shows "consumer_inv cs0 start explicit
    (selected @ [item], call_token item # seen, dirty @ output_paths sc item)"
proof -
  obtain p d where pd: "p \<in> set dirty" "d \<in> set ins" "path_overlap p d"
    using assms(5) by (auto simp: touches_iff)
  then have r: "reached cs0 start p" using assms(1) by (auto simp: consumer_inv_def)
  then have t: "triggered cs0 start sc item"
    using assms(4) pd by (auto simp: triggered_def)
  have outs: "\<forall>q \<in> set (output_paths sc item). reached cs0 start q"
    using reached.derived [OF assms(2,4) pd(2) r pd(3)] by blast
  have seen: "set seen = explicit \<union> call_token ` set selected"
    using assms(1) by (simp add: consumer_inv_def)
  have "call_token item \<notin> call_token ` set selected" "call_token item \<notin> explicit"
    using assms(3) by (simp_all add: seen)
  moreover have "\<forall>i \<in> set (selected @ [item]). \<exists>s. (s, i) \<in> set cs0 \<and> triggered cs0 start s i \<and>
      set (output_paths s i) \<subseteq> set (dirty @ output_paths sc item)"
  proof
    fix i assume "i \<in> set (selected @ [item])"
    then consider "i \<in> set selected" | "i = item" by auto
    then show "\<exists>s. (s, i) \<in> set cs0 \<and> triggered cs0 start s i \<and>
      set (output_paths s i) \<subseteq> set (dirty @ output_paths sc item)"
    proof cases
      case 1
      then obtain s where "(s, i) \<in> set cs0" "triggered cs0 start s i" "set (output_paths s i) \<subseteq> set dirty"
        using assms(1) by (auto simp: consumer_inv_def)
      then show ?thesis by (intro exI [of _ s]) auto
    qed (use assms(2) t in auto)
  qed
  ultimately show ?thesis
    using assms(1) outs by (auto simp: consumer_inv_def)
qed

lemma scan_candidates_inv:
  assumes "scan_candidates cs (selected, seen, dirty) = Inr st'"
    and "consumer_inv cs0 start explicit (selected, seen, dirty)" "set cs \<subseteq> set cs0"
  shows "consumer_inv cs0 start explicit st'"
  using assms
proof (induction cs "(selected, seen, dirty)" arbitrary: selected seen dirty rule: scan_candidates.induct)
  case (2 sc item cs selected seen dirty)
  show ?case
  proof (cases "call_token item \<in> set seen")
    case True
    with 2(1) [OF True] 2(4-6) show ?thesis by simp
  next
    case False
    obtain ins where i: "input_paths sc item = Inr ins" using 2(4) False by auto
    show ?thesis
    proof (cases "touches dirty ins")
      case True
      with 2(4) False i have "scan_candidates cs
          (selected @ [item], call_token item # seen, dirty @ output_paths sc item) = Inr st'" by simp
      then show ?thesis
        using 2(2) [OF False i True] consumer_inv_select [OF 2(5) _ False i True] 2(6) by simp
    next
      case no: False
      with 2(3) [OF False i no] 2(4-6) False i show ?thesis by simp
    qed
  qed
qed simp

text \<open>A pass that selects nothing leaves no open candidate touched.\<close>

lemma scan_candidates_idle:
  assumes "scan_candidates cs (selected, seen, dirty) = Inr (selected, seen', dirty')"
  shows "\<forall>(sc, item) \<in> set cs. call_token item \<in> set seen \<or>
    (\<exists>ins. input_paths sc item = Inr ins \<and> \<not> touches dirty ins)"
  using assms
proof (induction cs "(selected, seen, dirty)" arbitrary: selected seen dirty rule: scan_candidates.induct)
  case (2 sc item cs selected seen dirty)
  show ?case
  proof (cases "call_token item \<in> set seen")
    case True
    with 2(1) [OF True] 2(4) show ?thesis by simp
  next
    case False
    obtain ins where i: "input_paths sc item = Inr ins" using 2(4) False by auto
    show ?thesis
    proof (cases "touches dirty ins")
      case True
      with 2(4) False i have "scan_candidates cs
          (selected @ [item], call_token item # seen, dirty @ output_paths sc item) =
          Inr (selected, seen', dirty')" by simp
      from scan_candidates_grow [OF this] show ?thesis by auto
    next
      case no: False
      with 2(3) [OF False i no] 2(4) False i show ?thesis by auto
    qed
  qed
qed simp

lemma consumer_rounds_inv:
  assumes "consumer_rounds cs (selected, seen, dirty) = Inr (selected', seen', dirty')"
    and "consumer_inv cs start explicit (selected, seen, dirty)"
  shows "consumer_inv cs start explicit (selected', seen', dirty') \<and>
    (\<forall>(sc, item) \<in> set cs. call_token item \<in> set seen' \<or>
      (\<exists>ins. input_paths sc item = Inr ins \<and> \<not> touches dirty' ins))"
  using assms
proof (induction cs "(selected, seen, dirty)" arbitrary: selected seen dirty rule: consumer_rounds.induct)
  case (1 cs selected seen dirty)
  obtain s1 e1 d1 where scan: "scan_candidates cs (selected, seen, dirty) = Inr (s1, e1, d1)"
    using 1(2) by (auto simp: consumer_rounds.simps [of cs selected])
  show ?case
  proof (cases "s1 = selected")
    case True
    then have "(selected', seen', dirty') = (selected, seen, dirty)"
      using 1(2) scan by (simp add: consumer_rounds.simps [of cs selected])
    then show ?thesis
      using scan_candidates_idle [OF scan [unfolded True]] 1(3) by simp
  next
    case False
    then have "consumer_rounds cs (s1, e1, d1) = Inr (selected', seen', dirty')"
      using 1(2) scan by (simp add: consumer_rounds.simps [of cs selected])
    then show ?thesis
      using 1(1) [OF scan refl refl False] scan_candidates_inv [OF scan 1(3) subset_refl] by simp
  qed
qed

lemma distinct_tokens_unique:
  assumes "distinct (map (call_token \<circ> snd) cs)" "(s1, i1) \<in> set cs" "(s2, i2) \<in> set cs"
    and "call_token i1 = call_token i2"
  shows "s1 = s2 \<and> i1 = i2"
  using assms by (metis (no_types, lifting) comp_apply distinct_map inj_onD prod.inject snd_conv)

lemma consumers_complete:
  assumes "consumer_inv cs start explicit (selected, seen, dirty)"
    and "\<forall>(sc, item) \<in> set cs. call_token item \<in> set seen \<or>
      (\<exists>ins. input_paths sc item = Inr ins \<and> \<not> touches dirty ins)"
    and "distinct (map (call_token \<circ> snd) cs)" "\<forall>c \<in> set cs. call_token (snd c) \<notin> explicit"
  shows "set selected = {item. \<exists>sc. (sc, item) \<in> set cs \<and> triggered cs start sc item}"
proof -
  have seen: "set seen = explicit \<union> call_token ` set selected" and start: "start \<subseteq> set dirty"
    and sel: "\<forall>item \<in> set selected. \<exists>sc. (sc, item) \<in> set cs \<and> triggered cs start sc item \<and>
           set (output_paths sc item) \<subseteq> set dirty"
    using assms(1) by (simp_all add: consumer_inv_def)
  have chosen: "item \<in> set selected \<and> set (output_paths sc item) \<subseteq> set dirty"
    if c: "(sc, item) \<in> set cs" "input_paths sc item = Inr ins" "d \<in> set ins" "p \<in> set dirty" "path_overlap p d"
    for sc item ins d p
  proof -
    have "touches dirty ins" using c by (auto simp: touches_iff)
    then have "call_token item \<in> set seen" using assms(2) c(1,2) by fastforce
    moreover have "call_token item \<notin> explicit" using assms(4) c(1) by fastforce
    ultimately obtain i where i: "i \<in> set selected" "call_token i = call_token item"
      unfolding seen by auto
    then obtain s where "(s, i) \<in> set cs" "set (output_paths s i) \<subseteq> set dirty" using sel by blast
    with distinct_tokens_unique [OF assms(3) this(1) c(1) i(2)] i(1) show ?thesis by simp
  qed
  have dirty: "p \<in> set dirty" if "reached cs start p" for p
    using that
  proof induction
    case (derived sc item ins d p q)
    then show ?case using chosen [of sc item ins d p] by auto
  qed (use start in auto)
  show ?thesis
  proof (intro set_eqI iffI)
    fix item assume "item \<in> {item. \<exists>sc. (sc, item) \<in> set cs \<and> triggered cs start sc item}"
    then obtain sc ins d p where "(sc, item) \<in> set cs" "input_paths sc item = Inr ins" "d \<in> set ins"
      "reached cs start p" "path_overlap p d" by (auto simp: triggered_def)
    with chosen [of sc item ins d p] dirty show "item \<in> set selected" by blast
  qed (use sel in blast)
qed

text \<open>
  C26: When the candidates of a change are distinct invocations, none of which was
  proposed explicitly, the consumers selected for the change are exactly the candidates one of whose
  inputs overlaps something the change reaches: the changed paths, the outputs of the explicit
  commands, and, to any depth, the outputs of the consumers reached.  No invocation is selected
  twice.
\<close>

theorem delta_consumers_spec:
  assumes "auto_consumers_for_delta src available changed explicit = Inr selected"
    and "delta_candidates src available = Inr candidates"
    and "map_result (explicit_outputs src) explicit = Inr outs" "map_result call_key explicit = Inr keys"
    and "open_candidates keys candidates = Inr cs"
    and "distinct (map (call_token \<circ> snd) cs)"
    and "\<forall>c \<in> set cs. call_token (snd c) \<notin> call_token ` set explicit"
  shows "set selected = {item. \<exists>sc. (sc, item) \<in> set cs \<and>
       triggered cs (set (map posix_str changed @ concat outs)) sc item} \<and>
     distinct (map call_token selected)"
proof -
  let ?start = "map posix_str changed @ concat outs"
  obtain seen dirty where r: "consumer_rounds cs ([], map call_token explicit, ?start) = Inr (selected, seen, dirty)"
    using assms(1) by (auto simp: auto_consumers_for_delta_def assms(2-5))
  have "consumer_inv cs (set ?start) (call_token ` set explicit) ([], map call_token explicit, ?start)"
    by (auto simp: consumer_inv_def intro: reached.start)
  note inv = consumer_rounds_inv [OF r this]
  have "distinct (map call_token selected)" using inv by (simp add: consumer_inv_def)
  moreover have "set selected = {item. \<exists>sc. (sc, item) \<in> set cs \<and> triggered cs (set ?start) sc item}"
    using consumers_complete [OF conjunct1 [OF inv] conjunct2 [OF inv] assms(6,7)] .
  ultimately show ?thesis by simp
qed

text \<open>
  C27: The mesh evidence of a plan has no failure exactly when every declared scope
  has passing \<open>checkMesh\<close> evidence within the cell limit whose recorded manifest is the current
  digest of the scope's mesh dependencies.
\<close>

theorem mesh_evidence_spec:
  "current_mesh_evidence_failures env w st src max_cells = Inr [] \<longleftrightarrow>
     (\<forall>sc \<in> set (execution_scopes src). \<exists>e n d.
        map_of (ms_evidence_by_scope st) (scope_key sc) = Some e \<and> evidence_passed e \<and>
        ev_cell_count e = Some n \<and> n \<le> max_cells \<and>
        scope_mesh_digest env w sc = Inr d \<and> map_of (ms_manifest_by_scope st) (scope_key sc) = Some d)"
proof -
  have one: "scope_evidence_failures env w st max_cells sc = Inr [] \<longleftrightarrow>
     (\<exists>e n d. map_of (ms_evidence_by_scope st) (scope_key sc) = Some e \<and> evidence_passed e \<and>
        ev_cell_count e = Some n \<and> n \<le> max_cells \<and>
        scope_mesh_digest env w sc = Inr d \<and> map_of (ms_manifest_by_scope st) (scope_key sc) = Some d)" for sc
  proof (cases "map_of (ms_evidence_by_scope st) (scope_key sc)")
    case (Some e)
    then show ?thesis
      by (cases "ev_cell_count e"; cases "scope_mesh_digest env w sc")
        (auto simp: scope_evidence_failures_def evidence_passed_def)
  qed (simp add: scope_evidence_failures_def)
  have "current_mesh_evidence_failures env w st src max_cells = Inr [] \<longleftrightarrow>
      (\<forall>sc \<in> set (execution_scopes src). scope_evidence_failures env w st max_cells sc = Inr [])"
  proof -
    have "bind_result (map_result f xs) (\<lambda>fs. Inr (concat fs)) = Inr [] \<longleftrightarrow> (\<forall>x \<in> set xs. f x = Inr [])"
      for f :: "execution_scope \<Rightarrow> evidence_failure list graph_result" and xs
      by (induction xs) auto
    then show ?thesis by (simp add: current_mesh_evidence_failures_def)
  qed
  then show ?thesis by (simp add: one)
qed

definition snappy_plan :: engineering_plan where
  "snappy_plan =
     \<lparr>plan_solver = ''incompressibleFluid'', plan_solver_provider_id = ''foundation-13'',
      plan_execution = None, plan_region_layouts = [], plan_required_case_files = []\<rparr>"

definition snappy_paths :: "string list" where
  "snappy_paths = [''system/blockMeshDict'', ''system/snappyHexMeshDict'', ''system/surfaceFeaturesDict'']"

declare auto_consumer_contracts_eq [code]

lemma delta_consumer_contracts_eq [code]:
  "delta_consumer_contracts =
     [native_tool_contract ''surfaceFeatureExtract'', native_tool_contract ''surfaceFeatures'']"
  by code_simp

definition snappy_candidates :: "candidate list" where
  "snappy_candidates =
     [(Some (hd (execution_scopes (Of_Plan snappy_plan))), mk_command ''blockMesh'' [] Role_Mesh),
      (Some (hd (execution_scopes (Of_Plan snappy_plan))), mk_command ''snappyHexMesh'' [''-overwrite''] Role_Mesh),
      (None, mk_command ''surfaceFeatures'' [] Role_Mesh)]"

theorem delta_consumers_spec_witness:
  "set [mk_command ''snappyHexMesh'' [''-overwrite''] Role_Mesh, mk_command ''surfaceFeatures'' [] Role_Mesh] =
     {item. \<exists>sc. (sc, item) \<in> set snappy_candidates \<and>
       triggered snappy_candidates {''constant/triSurface/wing.stl''} sc item}"
proof -
  have r: "auto_consumers_for_delta (Of_Plan snappy_plan) snappy_paths [''constant/triSurface/wing.stl''] [] =
      Inr [mk_command ''snappyHexMesh'' [''-overwrite''] Role_Mesh, mk_command ''surfaceFeatures'' [] Role_Mesh]"
    by code_simp
  have c: "delta_candidates (Of_Plan snappy_plan) snappy_paths = Inr snappy_candidates" by code_simp
  have o: "open_candidates [] snappy_candidates = Inr snappy_candidates" by code_simp
  have d: "distinct (map (call_token \<circ> snd) snappy_candidates)" by code_simp
  have n: "set (map posix_str [''constant/triSurface/wing.stl''] @ concat []) = {''constant/triSurface/wing.stl''}"
    by code_simp
  show ?thesis
    using delta_consumers_spec [OF r c _ _ o d, of "[]"] unfolding n by simp
qed

definition cavity_mesh_state :: mesh_state where
  "cavity_mesh_state =
     \<lparr>ms_evidence_by_scope = [(''root'', \<lparr>ev_command_succeeded = True, ev_mesh_ok = True,
        ev_cell_count = Some 400, ev_negative_volume_cells = Some 0\<rparr>)],
      ms_manifest_by_scope = [(''root'', ''d'')], ms_mesh_evidence = None, ms_region_mesh_evidence = [],
      ms_region_mesh_manifests = []\<rparr>"

definition cavity_env :: mesh_env where
  "cavity_env =
     \<lparr>me_sha = (\<lambda>s. s), me_operations_sha = (\<lambda>_. []), me_digest_sha = (\<lambda>_. ''d''),
      me_realpath = (\<lambda>_ _. None), me_registry = None\<rparr>"

definition cavity_case :: workspace where
  "cavity_case = new_workspace\<lparr>ws_files := [([''system'', ''blockMeshDict''], ''blocks ();'')],
     ws_dirs := [[''system'']], ws_authored := [''system/blockMeshDict'']\<rparr>"

lemma mesh_evidence_spec_witness:
  "current_mesh_evidence_failures cavity_env cavity_case cavity_mesh_state (Of_Plan snappy_plan) 400 = Inr []"
proof -
  have "\<exists>e n d. map_of (ms_evidence_by_scope cavity_mesh_state) (scope_key sc) = Some e \<and> evidence_passed e \<and>
      ev_cell_count e = Some n \<and> n \<le> 400 \<and> scope_mesh_digest cavity_env cavity_case sc = Inr d \<and>
      map_of (ms_manifest_by_scope cavity_mesh_state) (scope_key sc) = Some d"
    if "sc \<in> set (execution_scopes (Of_Plan snappy_plan))" for sc
  proof -
    let ?root = "hd (execution_scopes (Of_Plan snappy_plan))"
    have "execution_scopes (Of_Plan snappy_plan) = [?root]" by code_simp
    then have "sc = ?root" using that by (metis empty_iff empty_set set_ConsD)
    moreover have "scope_key ?root = ''root''" by code_simp
    moreover have "scope_mesh_digest cavity_env cavity_case ?root = Inr ''d''" by code_simp
    ultimately show ?thesis by (simp add: cavity_mesh_state_def evidence_passed_def)
  qed
  then show ?thesis unfolding mesh_evidence_spec by blast
qed

end
