(* ===== verification/Case_Delta.thy ===== *)
theory Case_Delta
  imports Case_Build Mesh_Consumers Foam_File
begin

text \<open>
  The delta graph of an edit to a committed case, \<open>compile_case_delta_graph\<close> of
  \<^verbatim>\<open>engineering/case_delta_graph.py\<close>, and the record of what it revalidates,
  \<^verbatim>\<open>engineering/revalidation.py\<close>.  The replacements, patches and deletions of a repair are applied
  to a view of the case in memory; the view decides the missing files, the files to check and the
  native commands to run.  What the source raises instead of reporting is a \<open>delta_error\<close>.
\<close>

section \<open>Data\<close>

datatype delta_failure =
    Committed_File_Unreadable string
  | Conflicting_Replacement string
  | Patch_And_Replace string
  | Patch_And_Drop string
  | Patch_Target_Too_Large string
  | Patch_Target_Absent string
  | Patch_Text_Empty string
  | Patch_Matches string nat
  | Replace_And_Drop string
  | Incomplete_After_Repair "string list"
  | Bundle_Failure workspace_error
  | Header_Problem string header_failure
  | Delta_Consumers_Not_Compiled value_error
  | Delta_Scopes_Not_Bound graph_error
  | Ordering_Failure graph_failure

datatype delta_warning =
    Stale_Drop string
  | Delta_Hint_Not_Permitted string phase
  | Delta_Hint_Input_Absent string string
  | Delta_Stale_Validation_Hint string

datatype delta_error =
    Delta_Workspace workspace_error
  | Delta_Contract contract_error
  | Delta_Value value_error
  | Delta_Graph graph_error

type_synonym case_view = "(string \<times> string) list"

record delta_request =
  dq_patches :: "(string \<times> string \<times> string) list"
  dq_replacements :: "(string \<times> string) list"
  dq_drop_paths :: "string list"
  dq_native_hints :: "native_command list"
  dq_mesh_commands :: "string list"
  dq_validate_dictionaries :: "string list"
  dq_surface_checks :: "string list"
  dq_validate_pre_solve :: bool
  dq_phase :: phase

record case_delta_graph =
  dg_changed_files :: case_view
  dg_drop_paths :: "string list"
  dg_effective_paths :: "string list"
  dg_missing_required_paths :: "string list"
  dg_dictionary_paths :: "string list"
  dg_surface_paths :: "string list"
  dg_native_pipeline :: "native_command list"
  dg_validate_pre_solve :: bool
  dg_affected_mesh_scope_keys :: "string list"
  dg_reused_mesh_scope_keys :: "string list"
  dg_revalidation_domains :: "string list"
  dg_failures :: "delta_failure list"
  dg_warnings :: "delta_warning list"

definition delta_valid :: "case_delta_graph \<Rightarrow> bool" where
  "delta_valid g \<longleftrightarrow> dg_failures g = []"

definition lift_error :: "('e \<Rightarrow> 'f) \<Rightarrow> 'e + 'a \<Rightarrow> 'f + 'a" where
  "lift_error f r = (case r of Inl e \<Rightarrow> Inl (f e) | Inr x \<Rightarrow> Inr x)"

lemma lift_error_simps [simp]:
  "lift_error f (Inl e) = Inl (f e)" "lift_error f (Inr x) = Inr x"
  "lift_error f r = Inr y \<longleftrightarrow> r = Inr y"
  by (cases r; simp add: lift_error_def)+

section \<open>The view of the committed case\<close>

text \<open>
  \<open>workspace.read_text(path, max_chars=max_file_bytes + 1)\<close>; a file that is not there is reported, a
  path the workspace refuses raises.
\<close>

definition committed_file ::
  "(string \<Rightarrow> string) \<Rightarrow> workspace \<Rightarrow> string \<Rightarrow> delta_error + (delta_failure + (string \<times> string))" where
  "committed_file lossy w path =
     (case read_text lossy w path (ws_max_file_bytes w + 1) of
        Inr content \<Rightarrow> Inr (Inr (path, content))
      | Inl (No_Such_Case_File p) \<Rightarrow> Inr (Inl (Committed_File_Unreadable path))
      | Inl e \<Rightarrow> Inl (Delta_Workspace e))"

text \<open>Required files that are not tracked: read when they exist.\<close>

fun add_required ::
  "(string \<Rightarrow> string) \<Rightarrow> workspace \<Rightarrow> string list \<Rightarrow> case_view \<Rightarrow> delta_error + case_view" where
  "add_required lossy w [] view = Inr view"
| "add_required lossy w (path # paths) view =
     (if path \<in> fst ` set view then add_required lossy w paths view
      else case resolve_case_path w path True of
        Inl (No_Such_Case_File p) \<Rightarrow> add_required lossy w paths view
      | Inl e \<Rightarrow> Inl (Delta_Workspace e)
      | Inr q \<Rightarrow>
          let bytes = get_default [] (map_of (ws_files w) q);
              content = universal_newlines (get_default (lossy bytes) (utf8_decode bytes))
          in add_required lossy w paths (view @ [(path, content)]))"

definition committed_view ::
  "(string \<Rightarrow> string) \<Rightarrow> workspace \<Rightarrow> string list \<Rightarrow> delta_error + (delta_failure list \<times> case_view)" where
  "committed_view lossy w required =
     bind_result (lift_error Delta_Workspace (list_authored w)) (\<lambda>authored.
       bind_result (map_result (committed_file lossy w) authored) (\<lambda>files.
         bind_result (add_required lossy w required (successes_of files)) (\<lambda>view.
           Inr (failures_of files, view))))"

section \<open>Applying the edits in memory\<close>

text \<open>Replacements: an exact repetition is harmless, a conflicting one is a failure.\<close>

fun apply_replacements :: "(string \<times> string) list \<Rightarrow> case_view \<Rightarrow> delta_failure list \<times> case_view" where
  "apply_replacements [] changed = ([], changed)"
| "apply_replacements ((path, content) # rs) changed =
     (if map_of changed path \<noteq> None \<and> map_of changed path \<noteq> Some content
      then let (fs, changed') = apply_replacements rs changed in (Conflicting_Replacement path # fs, changed')
      else apply_replacements rs (AList.update path content changed))"

definition patch_failure ::
  "string list \<Rightarrow> string list \<Rightarrow> case_view \<Rightarrow> string \<Rightarrow> string \<Rightarrow> delta_failure option" where
  "patch_failure replaced drops view path old =
     (if path \<in> set replaced then Some (Patch_And_Replace path)
      else if path \<in> set drops then Some (Patch_And_Drop path)
      else case map_of view path of
        None \<Rightarrow> Some (Patch_Target_Absent path)
      | Some current \<Rightarrow>
          if ends_with current truncation_mark then Some (Patch_Target_Too_Large path)
          else if old = [] then Some (Patch_Text_Empty path)
          else if str_count old current \<noteq> 1 then Some (Patch_Matches path (str_count old current))
          else None)"

fun apply_patches ::
  "string list \<Rightarrow> string list \<Rightarrow> (string \<times> string \<times> string) list \<Rightarrow> case_view \<Rightarrow> case_view \<Rightarrow>
     delta_failure list \<times> case_view \<times> case_view" where
  "apply_patches replaced drops [] view changed = ([], view, changed)"
| "apply_patches replaced drops ((path, old, new) # ps) view changed =
     (case patch_failure replaced drops view path old of
        Some f \<Rightarrow>
          let (fs, r) = apply_patches replaced drops ps view changed in (f # fs, r)
      | None \<Rightarrow>
          let content = str_replace_first old new (get_default [] (map_of view path))
          in apply_patches replaced drops ps (AList.update path content view)
               (AList.update path content changed))"

definition apply_changes :: "case_view \<Rightarrow> case_view \<Rightarrow> case_view" where
  "apply_changes changed view = foldl (\<lambda>v (p, c). AList.update p c v) view changed"

definition drop_all :: "string list \<Rightarrow> case_view \<Rightarrow> case_view" where
  "drop_all drops view = filter (\<lambda>(p, c). p \<notin> set drops) view"

record edited_case =
  ec_changed :: case_view
  ec_drops :: "string list"
  ec_effective :: case_view
  ec_failures :: "delta_failure list"
  ec_warnings :: "delta_warning list"

definition edit_case :: "delta_request \<Rightarrow> case_view \<Rightarrow> edited_case" where
  "edit_case rq view =
     (let requested = dict_fromkeys (dq_drop_paths rq);
          drops = filter (\<lambda>p. p \<in> fst ` set view) requested;
          (rf, replaced) = apply_replacements (dq_replacements rq) [];
          (pf, patched_view, changed) =
            apply_patches (map fst replaced) drops (dq_patches rq) view replaced
      in \<lparr>ec_changed = changed, ec_drops = drops,
          ec_effective = apply_changes changed (drop_all drops patched_view),
          ec_failures = rf @ pf @ map Replace_And_Drop (filter (\<lambda>p. p \<in> fst ` set changed) drops),
          ec_warnings = map Stale_Drop (filter (\<lambda>p. p \<notin> fst ` set view) requested)\<rparr>)"

section \<open>Checks and native commands\<close>

definition header_problems ::
  "bool \<Rightarrow> string \<times> string \<Rightarrow> delta_error + delta_failure list" where
  "header_problems pre_solve file =
     (if \<not> pre_solve \<or> \<not> is_dictionary_path (fst file) then Inr []
      else bind_result (lift_error Delta_Contract
          (validate_foam_file_header (fst file) (snd file)
            (if starts_with (fst file) ''system/'' then Some ''dictionary'' else None) None))
        (\<lambda>hv. Inr (map (Header_Problem (fst file)) (hv_failures hv))))"

definition delta_hints :: "delta_request \<Rightarrow> native_command list result" where
  "delta_hints rq =
     (if dq_native_hints rq \<noteq> [] then Inr (dq_native_hints rq)
      else map_result mesh_hint (dq_mesh_commands rq))"

definition dedupe_native :: "native_command list \<Rightarrow> native_command list" where
  "dedupe_native items = dedupe_by call_token items"

definition screen_hint ::
  "phase \<Rightarrow> string list \<Rightarrow> native_command \<Rightarrow> value_error + (delta_warning + native_command)" where
  "screen_hint ph effective item =
     (if \<not> command_permitted (nc_command item) ph
      then Inr (Inl (Delta_Hint_Not_Permitted (nc_command item) ph))
      else bind_result (required_dictionary (nc_command item) (nc_arguments item)) (\<lambda>req.
        Inr (case req of
               None \<Rightarrow> Inr item
             | Some p \<Rightarrow> if p \<noteq> [] \<and> p \<notin> set effective
                 then Inl (Delta_Hint_Input_Absent (nc_command item) p) else Inr item)))"

text \<open>A \<open>ValueError\<close> of the mesh graph; the errors of the workspace are none, except its schema's.\<close>

definition is_value_error :: "graph_error \<Rightarrow> bool" where
  "is_value_error e \<longleftrightarrow>
     (case e of Graph_Workspace (Seal_Path_Too_Long p) \<Rightarrow> True | Graph_Workspace _ \<Rightarrow> False | _ \<Rightarrow> True)"

definition affected_scopes ::
  "mesh_env \<Rightarrow> workspace \<Rightarrow> scope_source \<Rightarrow> string list \<Rightarrow> native_command list \<Rightarrow>
     delta_error + (delta_failure list \<times> string list)" where
  "affected_scopes env w src changed strategy =
     (case affected_mesh_scope_keys env w src changed strategy of
        Inr keys \<Rightarrow> Inr ([], keys)
      | Inl e \<Rightarrow> if is_value_error e then Inr ([Delta_Scopes_Not_Bound e], []) else Inl (Delta_Graph e))"

definition is_finalizer :: "native_command \<Rightarrow> bool" where
  "is_finalizer item \<longleftrightarrow> ct_controller_finalizer (native_tool_contract (nc_command item))"

record native_part =
  np_pipeline :: "native_command list"
  np_affected :: "string list"
  np_failures :: "delta_failure list"
  np_warnings :: "delta_warning list"

definition compile_native_part ::
  "mesh_env \<Rightarrow> workspace \<Rightarrow> scope_source \<Rightarrow> delta_request \<Rightarrow> string list \<Rightarrow> string list \<Rightarrow>
     delta_error + native_part" where
  "compile_native_part env w src rq effective changed =
     bind_result (lift_error Delta_Value (delta_hints rq)) (\<lambda>hints.
     bind_result (lift_error Delta_Value (map_result (screen_hint (dq_phase rq) effective)
         (filter (\<lambda>i. nc_command i \<notin> {''foamDictionary'', ''surfaceCheck'', ''checkMesh''}) (dedupe_native hints))))
       (\<lambda>screened.
       let proposed = successes_of screened;
           consumers = auto_consumers_for_delta src effective changed proposed;
           strategy = dedupe_native (proposed @ value_of consumers)
       in bind_result (affected_scopes env w src changed strategy) (\<lambda>(af, affected).
          bind_result (lift_error Delta_Value (if affected = [] then Inr []
              else final_mesh_validation_commands src (Some affected))) (\<lambda>checks.
            let kept = (if affected = [] then strategy else filter (\<lambda>i. \<not> is_finalizer i) strategy @ checks);
                (ordered, ordering_failures) =
                  stable_dependency_order src (dedupe_native (filter (\<lambda>i. \<not> is_finalizer i) kept))
            in Inr \<lparr>np_pipeline = ordered @ filter is_finalizer kept, np_affected = affected,
                    np_failures = (case consumers of Inl e \<Rightarrow> [Delta_Consumers_Not_Compiled e] | Inr _ \<Rightarrow> []) @
                      af @ map Ordering_Failure ordering_failures,
                    np_warnings = failures_of screened\<rparr>))))"

section \<open>Compiling the delta graph\<close>

definition missing_required :: "string list \<Rightarrow> case_view \<Rightarrow> string list" where
  "missing_required required view = filter (\<lambda>p. p \<notin> fst ` set view) required"

definition revalidation_domains ::
  "string list \<Rightarrow> string list \<Rightarrow> string list \<Rightarrow> bool \<Rightarrow> string list" where
  "revalidation_domains dictionaries surfaces affected pre_solve =
     (if dictionaries \<noteq> [] then [''dictionary''] else []) @ (if surfaces \<noteq> [] then [''surface''] else []) @
     (if affected \<noteq> [] then [''mesh''] else []) @ (if pre_solve then [''pre_solve''] else [])"

definition compile_case_delta_graph ::
  "(string \<Rightarrow> string) \<Rightarrow> mesh_env \<Rightarrow> workspace \<Rightarrow> engineering_plan \<Rightarrow> delta_request \<Rightarrow>
     delta_error + case_delta_graph" where
  "compile_case_delta_graph lossy env w plan rq =
     (let src = Of_Plan plan; required = plan_required_case_files plan
      in bind_result (committed_view lossy w required) (\<lambda>(read_failures, view).
        let ed = edit_case rq view; changed = ec_changed ed;
            effective = sort (map fst (ec_effective ed));
            missing = missing_required required (ec_effective ed)
        in bind_result (lift_error Delta_Workspace
             (validate_candidate_bundle (me_sha env) w changed (ec_drops ed))) (\<lambda>bundle.
           bind_result (map_result (header_problems (dq_validate_pre_solve rq)) changed) (\<lambda>headers.
           bind_result (compile_native_part env w src rq effective (map fst changed @ ec_drops ed)) (\<lambda>np.
             let dictionaries = sort (filter is_dictionary_path (map fst changed));
                 surfaces = sort (filter is_surface_path (map fst changed))
             in Inr \<lparr>dg_changed_files = changed, dg_drop_paths = ec_drops ed,
                     dg_effective_paths = effective, dg_missing_required_paths = missing,
                     dg_dictionary_paths = dictionaries, dg_surface_paths = surfaces,
                     dg_native_pipeline = np_pipeline np,
                     dg_validate_pre_solve = dq_validate_pre_solve rq,
                     dg_affected_mesh_scope_keys = sorted_set (np_affected np),
                     dg_reused_mesh_scope_keys = sorted_set
                       (filter (\<lambda>k. k \<notin> set (np_affected np)) (map scope_key (execution_scopes src))),
                     dg_revalidation_domains = revalidation_domains dictionaries surfaces (np_affected np)
                       (dq_validate_pre_solve rq),
                     dg_failures = dict_fromkeys (read_failures @ ec_failures ed @
                       (if missing = [] then [] else [Incomplete_After_Repair missing]) @
                       map Bundle_Failure bundle @ concat headers @ np_failures np),
                     dg_warnings = dict_fromkeys (ec_warnings ed @ np_warnings np @
                       map Delta_Stale_Validation_Hint
                         (filter (\<lambda>h. h \<notin> set effective) (dq_validate_dictionaries rq @ dq_surface_checks rq)))\<rparr>)))))"

section \<open>The record of a revalidation\<close>

record revalidation_record =
  rr_phase :: phase
  rr_changed_paths :: "string list"
  rr_dropped_paths :: "string list"
  rr_revalidation_domains :: "string list"
  rr_affected_mesh_scopes :: "string list"
  rr_reused_mesh_scopes :: "string list"
  rr_dictionary_checks :: nat
  rr_surface_checks :: nat
  rr_native_commands :: "string list"
  rr_pre_solve_required :: bool
  rr_solver_retry_required :: bool

definition mesh_validation_scopes_avoided :: "revalidation_record \<Rightarrow> nat" where
  "mesh_validation_scopes_avoided r = length (rr_reused_mesh_scopes r)"

definition revalidation_phase :: "string \<Rightarrow> phase" where
  "revalidation_phase ph =
     (if starts_with ph ''revision'' then Strategy_Revision
      else if ph = ''runtime_repair'' then Runtime_Repair else Repair)"

text \<open>The schema bounds each list of the record by 64 elements; a longer one raises.\<close>

definition record_bounded :: "revalidation_record \<Rightarrow> bool" where
  "record_bounded r \<longleftrightarrow>
     list_all (\<lambda>l. int (length l) \<le> 64) [rr_changed_paths r, rr_dropped_paths r, rr_affected_mesh_scopes r,
       rr_reused_mesh_scopes r, rr_native_commands r]"

definition record_scoped_revalidation ::
  "revalidation_record list \<Rightarrow> case_delta_graph \<Rightarrow> string \<Rightarrow> bool \<Rightarrow>
     revalidation_record option \<times> revalidation_record list" where
  "record_scoped_revalidation records g ph solver_retry =
     (let r = \<lparr>rr_phase = revalidation_phase ph,
            rr_changed_paths = sort (map fst (dg_changed_files g)), rr_dropped_paths = sort (dg_drop_paths g),
            rr_revalidation_domains = dg_revalidation_domains g,
            rr_affected_mesh_scopes = dg_affected_mesh_scope_keys g,
            rr_reused_mesh_scopes = dg_reused_mesh_scope_keys g,
            rr_dictionary_checks = length (dg_dictionary_paths g),
            rr_surface_checks = length (dg_surface_paths g),
            rr_native_commands = map (\<lambda>i. strip (join '' '' (nc_command i # nc_arguments i))) (dg_native_pipeline g),
            rr_pre_solve_required = dg_validate_pre_solve g, rr_solver_retry_required = solver_retry\<rparr>
      in if record_bounded r then (Some r, records @ [r]) else (None, records))"

section \<open>What an edit does\<close>

definition edits_of :: "string \<Rightarrow> (string \<times> string \<times> string) list \<Rightarrow> (string \<times> string) list" where
  "edits_of p patches = map snd (filter (\<lambda>e. fst e = p) patches)"

definition apply_edits :: "(string \<times> string) list \<Rightarrow> string \<Rightarrow> string" where
  "apply_edits edits content = foldl (\<lambda>c (old, new). str_replace_first old new c) content edits"

lemma edits_of_simps [simp]:
  "edits_of p [] = []"
  "edits_of p ((q, e) # ps) = (if q = p then e # edits_of p ps else edits_of p ps)"
  by (simp_all add: edits_of_def)

lemma apply_edits_simps [simp]:
  "apply_edits [] c = c" "apply_edits ((old, new) # es) c = apply_edits es (str_replace_first old new c)"
  by (simp_all add: apply_edits_def)

text \<open>Every edit finds its text exactly once in what the edits before it have left.\<close>

fun each_matches_once :: "(string \<times> string) list \<Rightarrow> string \<Rightarrow> bool" where
  "each_matches_once [] c = True"
| "each_matches_once ((old, new) # es) c =
     (old \<noteq> [] \<and> str_count old c = 1 \<and> each_matches_once es (str_replace_first old new c))"

lemma edits_of_empty: "edits_of p ps = [] \<longleftrightarrow> p \<notin> fst ` set ps"
  by (force simp: edits_of_def filter_empty_conv)

lemma map_option_no_edits [simp]: "map_option (apply_edits []) v = v"
  by (cases v) simp_all

lemma map_of_update [simp]: "map_of (AList.update k v m) p = (if p = k then Some v else map_of m p)"
  by (simp add: update_conv')

lemma apply_replacements_ok:
  assumes "apply_replacements rs changed = ([], replaced)"
  shows "map_of replaced p = (case map_of changed p of Some c \<Rightarrow> Some c | None \<Rightarrow> map_of rs p)"
  using assms
proof (induction rs changed rule: apply_replacements.induct)
  case (2 path content rs changed)
  then have ok: "map_of changed path = None \<or> map_of changed path = Some content"
    by (auto split: if_splits prod.splits)
  with 2 show ?case by (auto split: option.splits)
qed (simp split: option.split)

lemma apply_replacements_distinct:
  "apply_replacements rs changed = (fs, replaced) \<Longrightarrow> distinct (map fst changed) \<Longrightarrow> distinct (map fst replaced)"
proof (induction rs changed arbitrary: fs rule: apply_replacements.induct)
  case (2 path content rs changed)
  then show ?case by (auto simp: distinct_update split: if_splits prod.splits)
qed simp

lemma apply_patches_ok:
  assumes "apply_patches replaced drops ps view changed = ([], view', changed')"
  shows "map_of view' p = map_option (apply_edits (edits_of p ps)) (map_of view p) \<and>
    map_of changed' p = (if edits_of p ps = [] then map_of changed p else map_of view' p) \<and>
    (edits_of p ps \<noteq> [] \<longrightarrow> p \<notin> set replaced \<and> p \<notin> set drops \<and> map_of view p \<noteq> None) \<and>
    (case map_of view p of None \<Rightarrow> edits_of p ps = [] | Some c \<Rightarrow> each_matches_once (edits_of p ps) c)"
  using assms
proof (induction replaced drops ps view changed rule: apply_patches.induct)
  case (1 replaced drops view changed)
  then show ?case by (simp add: option.map_ident split: option.split)
next
  case (2 replaced drops path old new ps view changed)
  have n: "patch_failure replaced drops view path old = None"
    using 2(3) by (auto split: option.splits prod.splits)
  then obtain current where c: "map_of view path = Some current" "path \<notin> set replaced" "path \<notin> set drops"
    "old \<noteq> []" "str_count old current = 1"
    by (auto simp: patch_failure_def split: if_splits option.splits)
  let ?content = "str_replace_first old new current"
  have r: "apply_patches replaced drops ps (AList.update path ?content view) (AList.update path ?content changed) =
      ([], view', changed')"
    using 2(3) n c by (simp add: Let_def)
  from 2(1) [OF n refl] r c show ?case by (auto simp: comp_def option.map_ident split: option.splits if_splits)
qed

lemma apply_patches_distinct:
  "apply_patches replaced drops ps view changed = (fs, view', changed') \<Longrightarrow>
     distinct (map fst changed) \<Longrightarrow> distinct (map fst changed')"
proof (induction replaced drops ps view changed arbitrary: fs rule: apply_patches.induct)
  case (2 replaced drops path old new ps view changed)
  then show ?case by (auto simp: distinct_update Let_def split: option.splits prod.splits)
qed simp

lemma apply_changes_map:
  "distinct (map fst changed) \<Longrightarrow>
     map_of (apply_changes changed view) p = (case map_of changed p of Some c \<Rightarrow> Some c | None \<Rightarrow> map_of view p)"
proof -
  have "distinct (map fst changed) \<Longrightarrow>
      map_of (foldl (\<lambda>v (p, c). AList.update p c v) view changed) p =
      (case map_of changed p of Some c \<Rightarrow> Some c | None \<Rightarrow> map_of view p)" for view
  proof (induction changed arbitrary: view)
    case (Cons x xs)
    obtain a b where x: "x = (a, b)" by (cases x)
    have "map_of xs a = None" using Cons.prems by (simp add: x map_of_eq_None_iff)
    with Cons show ?case by (cases "p = a") (simp_all add: x split: option.split)
  qed simp
  then show "distinct (map fst changed) \<Longrightarrow>
     map_of (apply_changes changed view) p = (case map_of changed p of Some c \<Rightarrow> Some c | None \<Rightarrow> map_of view p)"
    by (simp add: apply_changes_def)
qed

lemma drop_all_map: "map_of (drop_all drops view) p = (if p \<in> set drops then None else map_of view p)"
  by (induction view) (auto simp: drop_all_def)


lemma edit_case_ok:
  assumes "ec_failures (edit_case rq view) = []"
  shows "map_of (ec_changed (edit_case rq view)) p =
      (case map_of (dq_replacements rq) p of
         Some c \<Rightarrow> Some c
       | None \<Rightarrow> if edits_of p (dq_patches rq) = [] then None
           else map_option (apply_edits (edits_of p (dq_patches rq))) (map_of view p))"
    and "map_of (ec_effective (edit_case rq view)) p =
      (case map_of (ec_changed (edit_case rq view)) p of
         Some c \<Rightarrow> Some c | None \<Rightarrow> if p \<in> set (ec_drops (edit_case rq view)) then None else map_of view p)"
    and "set (ec_drops (edit_case rq view)) = set (dq_drop_paths rq) \<inter> fst ` set view"
    and "set (ec_drops (edit_case rq view)) \<inter> fst ` set (ec_changed (edit_case rq view)) = {}"
    and "case map_of view p of None \<Rightarrow> edits_of p (dq_patches rq) = [] | Some c \<Rightarrow> each_matches_once (edits_of p (dq_patches rq)) c"
    and "fst ` set (dq_patches rq) \<inter> (fst ` set (dq_replacements rq) \<union> set (dq_drop_paths rq)) = {}"
proof -
  define drops where "drops = filter (\<lambda>p. p \<in> fst ` set view) (dict_fromkeys (dq_drop_paths rq))"
  obtain rf replaced where r: "apply_replacements (dq_replacements rq) [] = (rf, replaced)" by fastforce
  obtain pf view' changed where a:
    "apply_patches (map fst replaced) drops (dq_patches rq) view replaced = (pf, view', changed)"
    by (metis prod_cases3)
  have ed: "ec_changed (edit_case rq view) = changed" "ec_drops (edit_case rq view) = drops"
    "ec_effective (edit_case rq view) = apply_changes changed (drop_all drops view')"
    "ec_failures (edit_case rq view) =
      rf @ pf @ map Replace_And_Drop (filter (\<lambda>p. p \<in> fst ` set changed) drops)"
    unfolding edit_case_def Let_def drops_def [symmetric] r prod.case a by simp_all
  have ok: "rf = []" "pf = []" "filter (\<lambda>p. p \<in> fst ` set changed) drops = []"
    using assms by (simp_all add: ed(4))
  note patches = apply_patches_ok [OF a [unfolded ok(2)]]
  have rep: "map_of replaced q = map_of (dq_replacements rq) q" for q
    using apply_replacements_ok [OF r [unfolded ok(1)]] by simp
  have distinct: "distinct (map fst changed)"
    using apply_patches_distinct [OF a apply_replacements_distinct [OF r]] by simp
  have key: "q \<notin> set (map fst replaced) \<longleftrightarrow> map_of (dq_replacements rq) q = None" for q
    using map_of_eq_None_iff [of replaced q] by (simp add: rep)
  show "map_of (ec_changed (edit_case rq view)) p =
      (case map_of (dq_replacements rq) p of
         Some c \<Rightarrow> Some c
       | None \<Rightarrow> if edits_of p (dq_patches rq) = [] then None
           else map_option (apply_edits (edits_of p (dq_patches rq))) (map_of view p))"
    using patches [of p] key [of p] by (auto simp: ed rep split: option.split)
  show eff: "map_of (ec_effective (edit_case rq view)) p =
      (case map_of (ec_changed (edit_case rq view)) p of
         Some c \<Rightarrow> Some c | None \<Rightarrow> if p \<in> set (ec_drops (edit_case rq view)) then None else map_of view p)"
  proof (cases "map_of changed p")
    case None
    then have "edits_of p (dq_patches rq) = [] \<or> map_of view' p = None"
      using patches [of p] by (auto split: if_splits)
    then have "map_of view' p = map_of view p"
      using patches [of p] by (auto simp: apply_edits_def option.map_ident)
    with None show ?thesis by (simp add: ed apply_changes_map [OF distinct] drop_all_map)
  qed (simp add: ed apply_changes_map [OF distinct])
  show "set (ec_drops (edit_case rq view)) = set (dq_drop_paths rq) \<inter> fst ` set view"
    by (auto simp: ed drops_def)
  show "set (ec_drops (edit_case rq view)) \<inter> fst ` set (ec_changed (edit_case rq view)) = {}"
    using ok(3) by (auto simp: ed filter_empty_conv)
  show "case map_of view p of None \<Rightarrow> edits_of p (dq_patches rq) = [] | Some c \<Rightarrow> each_matches_once (edits_of p (dq_patches rq)) c"
    using patches [of p] by blast
  have "q \<notin> fst ` set (dq_replacements rq) \<and> q \<notin> set (dq_drop_paths rq)" if "q \<in> fst ` set (dq_patches rq)" for q
  proof -
    have "q \<notin> set (map fst replaced)" "q \<notin> set drops" "map_of view q \<noteq> None"
      using patches [of q] that edits_of_empty by metis+
    then show ?thesis
      using key [of q] by (auto simp: drops_def map_of_eq_None_iff)
  qed
  then show "fst ` set (dq_patches rq) \<inter> (fst ` set (dq_replacements rq) \<union> set (dq_drop_paths rq)) = {}" by blast
qed

lemma delta_fields:
  assumes "compile_case_delta_graph lossy env w plan rq = Inr g"
  obtains rf view bfs headers np where
    "committed_view lossy w (plan_required_case_files plan) = Inr (rf, view)"
    "validate_candidate_bundle (me_sha env) w (dg_changed_files g) (dg_drop_paths g) = Inr bfs"
    "map_result (header_problems (dq_validate_pre_solve rq)) (dg_changed_files g) = Inr headers"
    "compile_native_part env w (Of_Plan plan) rq (dg_effective_paths g)
       (map fst (dg_changed_files g) @ dg_drop_paths g) = Inr np"
    "dg_changed_files g = ec_changed (edit_case rq view)" "dg_drop_paths g = ec_drops (edit_case rq view)"
    "dg_effective_paths g = sort (map fst (ec_effective (edit_case rq view)))"
    "dg_missing_required_paths g = missing_required (plan_required_case_files plan) (ec_effective (edit_case rq view))"
    "dg_native_pipeline g = np_pipeline np" "dg_affected_mesh_scope_keys g = sorted_set (np_affected np)"
    "dg_reused_mesh_scope_keys g = sorted_set
       (filter (\<lambda>k. k \<notin> set (np_affected np)) (map scope_key (execution_scopes (Of_Plan plan))))"
    "set (dg_failures g) = set rf \<union> set (ec_failures (edit_case rq view)) \<union>
       set (if dg_missing_required_paths g = [] then [] else [Incomplete_After_Repair (dg_missing_required_paths g)]) \<union>
       set (map Bundle_Failure bfs) \<union> set (concat headers) \<union> set (np_failures np)"
proof -
  obtain fv where "committed_view lossy w (plan_required_case_files plan) = Inr fv"
    using assms unfolding compile_case_delta_graph_def Let_def bind_result_eq_Inr by blast
  then obtain rf view where v: "committed_view lossy w (plan_required_case_files plan) = Inr (rf, view)"
    by (cases fv) simp
  note a = assms [unfolded compile_case_delta_graph_def Let_def v bind_result_simps prod.case]
  obtain bfs where b:
    "validate_candidate_bundle (me_sha env) w (ec_changed (edit_case rq view)) (ec_drops (edit_case rq view)) = Inr bfs"
    using a unfolding bind_result_eq_Inr lift_error_simps by blast
  note a = a [unfolded b lift_error_simps bind_result_simps]
  obtain headers where h:
    "map_result (header_problems (dq_validate_pre_solve rq)) (ec_changed (edit_case rq view)) = Inr headers"
    using a unfolding bind_result_eq_Inr by blast
  note a = a [unfolded h bind_result_simps]
  obtain np where n: "compile_native_part env w (Of_Plan plan) rq (sort (map fst (ec_effective (edit_case rq view))))
       (map fst (ec_changed (edit_case rq view)) @ ec_drops (edit_case rq view)) = Inr np"
    using a unfolding bind_result_eq_Inr by blast
  note g = a [unfolded n bind_result_simps sum.inject, symmetric]
  show ?thesis
  proof (rule that [OF v])
    show "validate_candidate_bundle (me_sha env) w (dg_changed_files g) (dg_drop_paths g) = Inr bfs"
      by (simp only: g case_delta_graph.select_convs b)
    show "map_result (header_problems (dq_validate_pre_solve rq)) (dg_changed_files g) = Inr headers"
      by (simp only: g case_delta_graph.select_convs h)
    show "compile_native_part env w (Of_Plan plan) rq (dg_effective_paths g)
       (map fst (dg_changed_files g) @ dg_drop_paths g) = Inr np"
      by (simp only: g case_delta_graph.select_convs n)
  qed (simp_all only: g case_delta_graph.select_convs set_dict_fromkeys set_append Un_assoc)
qed

text \<open>
  C28: A delta graph without failures describes one definite edit.  The changed files
  are the replacements and, for the other paths, the committed text with its patches applied in
  order, each of which finds its text exactly once; no replaced or deleted path is patched, and no deleted path
  is changed; the effective paths are what the
  commit leaves, they cover every required file, and the workspace's preflight of the commit passes.
\<close>

theorem delta_edit_spec:
  assumes "compile_case_delta_graph lossy env w plan rq = Inr g" and "delta_valid g"
  shows "\<exists>view. committed_view lossy w (plan_required_case_files plan) = Inr ([], view) \<and>
     (\<forall>p. map_of (dg_changed_files g) p =
        (case map_of (dq_replacements rq) p of
           Some c \<Rightarrow> Some c
         | None \<Rightarrow> if edits_of p (dq_patches rq) = [] then None
             else map_option (apply_edits (edits_of p (dq_patches rq))) (map_of view p))) \<and>
     (\<forall>p. case map_of view p of
         None \<Rightarrow> edits_of p (dq_patches rq) = [] | Some c \<Rightarrow> each_matches_once (edits_of p (dq_patches rq)) c) \<and>
     fst ` set (dq_patches rq) \<inter> (fst ` set (dq_replacements rq) \<union> set (dq_drop_paths rq)) = {} \<and>
     set (dg_drop_paths g) = set (dq_drop_paths rq) \<inter> fst ` set view \<and>
     set (dg_drop_paths g) \<inter> fst ` set (dg_changed_files g) = {} \<and>
     set (dg_effective_paths g) =
       (fst ` set view - set (dg_drop_paths g)) \<union> fst ` set (dg_changed_files g) \<and>
     set (plan_required_case_files plan) \<subseteq> set (dg_effective_paths g) \<and>
     validate_candidate_bundle (me_sha env) w (dg_changed_files g) (dg_drop_paths g) = Inr []"
proof -
  obtain rf view bfs headers and np :: native_part where f:
    "committed_view lossy w (plan_required_case_files plan) = Inr (rf, view)"
    "validate_candidate_bundle (me_sha env) w (dg_changed_files g) (dg_drop_paths g) = Inr bfs"
    "dg_changed_files g = ec_changed (edit_case rq view)" "dg_drop_paths g = ec_drops (edit_case rq view)"
    "dg_effective_paths g = sort (map fst (ec_effective (edit_case rq view)))"
    "dg_missing_required_paths g = missing_required (plan_required_case_files plan) (ec_effective (edit_case rq view))"
    "set (dg_failures g) = set rf \<union> set (ec_failures (edit_case rq view)) \<union>
       set (if dg_missing_required_paths g = [] then [] else [Incomplete_After_Repair (dg_missing_required_paths g)]) \<union>
       set (map Bundle_Failure bfs) \<union> set (concat headers) \<union> set (np_failures np)"
    by (rule delta_fields [OF assms(1)]) blast
  have ok: "rf = []" "ec_failures (edit_case rq view) = []" "bfs = []" "dg_missing_required_paths g = []"
    using f(7) assms(2) by (auto simp: delta_valid_def split: if_splits)
  note ed = edit_case_ok [OF ok(2)]
  have "p \<in> fst ` set (ec_effective (edit_case rq view)) \<longleftrightarrow>
      p \<in> fst ` set view \<and> p \<notin> set (dg_drop_paths g) \<or> p \<in> fst ` set (dg_changed_files g)" for p
  proof -
    have "p \<in> fst ` set m \<longleftrightarrow> map_of m p \<noteq> None" for m :: case_view
      by (simp add: map_of_eq_None_iff)
    then show ?thesis using ed(2) [of p] by (auto simp: f(3,4) split: option.splits if_splits)
  qed
  then have eff: "set (dg_effective_paths g) =
      (fst ` set view - set (dg_drop_paths g)) \<union> fst ` set (dg_changed_files g)"
    unfolding f(5) set_sort set_map by (intro set_eqI) (simp only: Un_iff Diff_iff)
  have "set (plan_required_case_files plan) \<subseteq> set (dg_effective_paths g)"
    using ok(4) by (auto simp: f(5,6) missing_required_def filter_empty_conv)
  with eff f(1,2) ok(1,3) ed(1,3,4,5,6) show ?thesis
    by (intro exI [of _ view]) (simp add: f(3,4))
qed

definition small_case :: workspace where
  "small_case =
     new_workspace\<lparr>ws_files := [([''system'', ''controlDict''], ''endTime 10;'')],
       ws_dirs := [[''system'']], ws_authored := [''system/controlDict'']\<rparr>"

definition plain_env :: mesh_env where
  "plain_env =
     \<lparr>me_sha = (\<lambda>s. s), me_operations_sha = (\<lambda>_. []), me_digest_sha = (\<lambda>_. []),
      me_realpath = (\<lambda>_ _. None), me_registry = None\<rparr>"

definition patch_request :: delta_request where
  "patch_request =
     \<lparr>dq_patches = [(''system/controlDict'', ''10'', ''20''), (''system/controlDict'', ''20'', ''25'')],
      dq_replacements = [], dq_drop_paths = [''system/stale''], dq_native_hints = [], dq_mesh_commands = [],
      dq_validate_dictionaries = [], dq_surface_checks = [], dq_validate_pre_solve = False,
      dq_phase = Repair\<rparr>"

definition small_plan :: engineering_plan where
  "small_plan = root_plan [''system/controlDict'']"

definition patched_graph :: case_delta_graph where
  "patched_graph =
     \<lparr>dg_changed_files = [(''system/controlDict'', ''endTime 25;'')], dg_drop_paths = [],
      dg_effective_paths = [''system/controlDict''], dg_missing_required_paths = [],
      dg_dictionary_paths = [''system/controlDict''], dg_surface_paths = [], dg_native_pipeline = [],
      dg_validate_pre_solve = False, dg_affected_mesh_scope_keys = [],
      dg_reused_mesh_scope_keys = [''root''], dg_revalidation_domains = [''dictionary''],
      dg_failures = [], dg_warnings = [Stale_Drop ''system/stale'']\<rparr>"

lemma patched_compiled: "compile_case_delta_graph id plain_env small_case small_plan patch_request = Inr patched_graph"
  by code_simp

theorem delta_edit_spec_witness:
  "set (dg_drop_paths patched_graph) = {} \<and>
   map_of (dg_changed_files patched_graph) ''system/controlDict'' = Some ''endTime 25;'' \<and>
   validate_candidate_bundle (me_sha plain_env) small_case (dg_changed_files patched_graph)
     (dg_drop_paths patched_graph) = Inr []"
proof -
  have v: "delta_valid patched_graph" "dg_drop_paths patched_graph = []"
    "map_of (dg_changed_files patched_graph) ''system/controlDict'' = Some ''endTime 25;''"
    by (simp_all add: delta_valid_def patched_graph_def)
  have "validate_candidate_bundle (me_sha plain_env) small_case (dg_changed_files patched_graph)
     (dg_drop_paths patched_graph) = Inr []"
    using delta_edit_spec [OF patched_compiled v(1)] by blast
  with v(2,3) show ?thesis by simp
qed

section \<open>Mesh checks of a delta\<close>

lemma invocation_scopes_keys:
  assumes "invocation_scopes scopes item = Inr ks"
  shows "set ks \<subseteq> scope_key ` set scopes"
proof (cases "ct_effect (native_tool_contract (nc_command item)) \<in> {Eff_Mesh, Eff_Decomposition}")
  case True
  then obtain region where r: "native_command_region (nc_arguments item) = Inr region"
    using assms by (auto simp: invocation_scopes_def)
  show ?thesis
  proof (cases region)
    case None
    with True r assms show ?thesis by (auto simp: invocation_scopes_def)
  next
    case (Some n)
    with True r assms obtain sc where "filter (\<lambda>sc. scope_name sc = Some n) scopes = [sc]" "ks = [scope_key sc]"
      by (auto simp: invocation_scopes_def split: list.splits)
    moreover from this(1) have "sc \<in> set scopes" by (metis filter_is_subset list.set_intros(1) subsetD)
    ultimately show ?thesis by simp
  qed
qed (use assms in \<open>simp add: invocation_scopes_def\<close>)

lemma affected_keys_declared:
  assumes "affected_mesh_scope_keys env w src changed calls = Inr keys"
  shows "set keys \<subseteq> scope_key ` set (execution_scopes src)"
proof -
  obtain graph by_path by_call where k:
    "map_result (touched_scope env w graph (map posix_str changed)) (execution_scopes src) = Inr by_path"
    "map_result (invocation_scopes (execution_scopes src)) calls = Inr by_call"
    "keys = dict_fromkeys (concat by_path @ concat by_call)"
    using assms unfolding affected_mesh_scope_keys_def Let_def bind_result_eq_Inr of_value_eq by blast
  have "set ks \<subseteq> scope_key ` set (execution_scopes src)" if "ks \<in> set by_path" for ks
    using that map_result_Inr_set [OF k(1)] by (auto simp: touched_scope_def split: if_splits)
  moreover have "set ks \<subseteq> scope_key ` set (execution_scopes src)" if "ks \<in> set by_call" for ks
    using that map_result_Inr_set [OF k(2)] invocation_scopes_keys by blast
  ultimately show ?thesis unfolding k(3) set_dict_fromkeys set_append set_concat by blast
qed

definition mesh_checks :: "scope_source \<Rightarrow> string list \<Rightarrow> native_command list" where
  "mesh_checks src keys =
     map (\<lambda>sc. mk_command ''checkMesh'' (region_arguments sc) Role_Mesh_Validation)
       (filter (\<lambda>sc. scope_key sc \<in> set keys) (execution_scopes src))"

lemma mesh_checks_finalizers: "filter is_finalizer (mesh_checks src keys) = mesh_checks src keys"
proof -
  have "ct_controller_finalizer (native_tool_contract ''checkMesh'')" by code_simp
  then show ?thesis by (auto simp: mesh_checks_def is_finalizer_def filter_id_conv)
qed

lemma native_part_checks:
  assumes "compile_native_part env w src rq effective changed = Inr np"
  shows "set (np_affected np) \<subseteq> scope_key ` set (execution_scopes src)"
    and "np_affected np \<noteq> [] \<Longrightarrow> \<exists>ordered. np_pipeline np = ordered @ mesh_checks src (np_affected np) \<and>
      (\<forall>item \<in> set ordered. \<not> is_finalizer item)"
proof -
  obtain hints where h: "delta_hints rq = Inr hints"
    using assms unfolding compile_native_part_def bind_result_eq_Inr lift_error_simps by blast
  note a = assms [unfolded compile_native_part_def h lift_error_simps bind_result_simps Let_def]
  obtain screened where s: "map_result (screen_hint (dq_phase rq) effective)
      (filter (\<lambda>i. nc_command i \<notin> {''foamDictionary'', ''surfaceCheck'', ''checkMesh''}) (dedupe_native hints)) = Inr screened"
    using a unfolding bind_result_eq_Inr lift_error_simps by blast
  define consumers where "consumers = auto_consumers_for_delta src effective changed (successes_of screened)"
  define strategy where "strategy = dedupe_native (successes_of screened @ value_of consumers)"
  note a = a [unfolded s lift_error_simps bind_result_simps consumers_def [symmetric], folded strategy_def]
  obtain am where "affected_scopes env w src changed strategy = Inr am"
    using a unfolding bind_result_eq_Inr by blast
  then obtain af affected where am: "affected_scopes env w src changed strategy = Inr (af, affected)"
    by (cases am) simp
  note a = a [unfolded am bind_result_simps prod.case]
  have sub: "set affected \<subseteq> scope_key ` set (execution_scopes src)"
    using am affected_keys_declared
    by (auto simp: affected_scopes_def split: sum.splits if_splits)
  obtain ordered fs where o: "stable_dependency_order src
      (dedupe_native (filter (\<lambda>i. \<not> is_finalizer i) (if affected = [] then strategy
        else filter (\<lambda>i. \<not> is_finalizer i) strategy @ mesh_checks src affected))) = (ordered, fs)" by fastforce
  have c: "(if affected = [] then Inr [] else final_mesh_validation_commands src (Some affected)) =
      (Inr (mesh_checks src affected) :: native_command list result)"
    by (simp add: final_mesh_validation_commands_eq selected_scopes_def mesh_checks_def)
  have np: "np_affected np = affected" "np_pipeline np = ordered @ filter is_finalizer
      (if affected = [] then strategy else filter (\<lambda>i. \<not> is_finalizer i) strategy @ mesh_checks src affected)"
    using a unfolding c lift_error_simps bind_result_simps o prod.case sum.inject by auto
  show "set (np_affected np) \<subseteq> scope_key ` set (execution_scopes src)" using sub np(1) by simp
  assume "np_affected np \<noteq> []"
  then have "np_pipeline np = ordered @ mesh_checks src (np_affected np)"
    by (simp add: np mesh_checks_finalizers filter_empty_conv)
  moreover have "\<forall>item \<in> set ordered. \<not> is_finalizer item"
    using ordered_set [of src] o set_dedupe_by_subset [of call_token] unfolding dedupe_native_def
    by (metis (no_types, lifting) fst_conv mem_Collect_eq set_filter subsetD)
  ultimately show "\<exists>ordered. np_pipeline np = ordered @ mesh_checks src (np_affected np) \<and>
      (\<forall>item \<in> set ordered. \<not> is_finalizer item)" by blast
qed

text \<open>
  A delta splits the declared scopes into those whose mesh evidence it
  invalidates and those whose evidence is reused, and when it invalidates any, its pipeline ends with
  exactly one mesh check for each invalidated scope and has no final check before them.
\<close>

theorem delta_mesh_checks:
  assumes "compile_case_delta_graph lossy env w plan rq = Inr g"
  shows "set (dg_affected_mesh_scope_keys g) \<union> set (dg_reused_mesh_scope_keys g) =
       scope_key ` set (execution_scopes (Of_Plan plan)) \<and>
     set (dg_affected_mesh_scope_keys g) \<inter> set (dg_reused_mesh_scope_keys g) = {} \<and>
     (dg_affected_mesh_scope_keys g \<noteq> [] \<longrightarrow>
       (\<exists>ordered. dg_native_pipeline g = ordered @
            mesh_checks (Of_Plan plan) (dg_affected_mesh_scope_keys g) \<and>
          (\<forall>item \<in> set ordered. \<not> is_finalizer item)))"
proof -
  obtain np :: native_part where n:
    "compile_native_part env w (Of_Plan plan) rq (dg_effective_paths g)
       (map fst (dg_changed_files g) @ dg_drop_paths g) = Inr np"
    "dg_native_pipeline g = np_pipeline np" "dg_affected_mesh_scope_keys g = sorted_set (np_affected np)"
    "dg_reused_mesh_scope_keys g = sorted_set
       (filter (\<lambda>k. k \<notin> set (np_affected np)) (map scope_key (execution_scopes (Of_Plan plan))))"
    by (rule delta_fields [OF assms]) blast
  have "mesh_checks (Of_Plan plan) (dg_affected_mesh_scope_keys g) = mesh_checks (Of_Plan plan) (np_affected np)"
    by (simp add: mesh_checks_def n(3))
  then show ?thesis
    using native_part_checks [OF n(1)] by (auto simp: n(2-4))
qed

theorem delta_mesh_checks_witness:
  "set (dg_affected_mesh_scope_keys patched_graph) \<union> set (dg_reused_mesh_scope_keys patched_graph) = {''root''}"
proof -
  have "scope_key ` set (execution_scopes (Of_Plan small_plan)) = {''root''}" by code_simp
  with delta_mesh_checks [OF patched_compiled] show ?thesis by simp
qed

end
