(* ===== verification/Repair_Approval.thy ===== *)
theory Repair_Approval
  imports Complex_Main Case_Seals Foam_Parser Execution_Scopes
begin

text \<open>
  The user's approval of a calculation and what an automatic repair may change under it,
  \<open>ExecutionApproval\<close> of \<^verbatim>\<open>contracts/execution.py\<close>: the projection of a dictionary to its literal
  top-level entries, the protected locations of a plan, and the check of a repair before it is
  written and of the sealed files after it.

  SHA-256 of a text is the argument \<open>sha\<close>, the digests of the two plan documents are \<open>xsha\<close> and
  \<open>psha\<close>.  Python's \<open>float\<close> is the argument \<open>flt\<close>: the value of a text as a rational number (every
  finite double is one), or \<open>None\<close> when the text is refused or the value is not finite.
\<close>

section \<open>Literal top-level entries\<close>

text \<open>A block comment is dropped with its line feeds, an unterminated one up to the end.\<close>

fun skip_block :: "string \<Rightarrow> string" where
  "skip_block (c # d # cs) = (if c = CHR ''*'' \<and> d = CHR ''/'' then cs else skip_block (d # cs))"
| "skip_block _ = []"

lemma length_skip_block: "length (skip_block s) \<le> length s"
  by (induction s rule: skip_block.induct) auto

function strip_foam :: "char option \<Rightarrow> string \<Rightarrow> string" where
  "strip_foam quote [] = []"
| "strip_foam (Some q) (c # cs) =
     (if c = CHR 0x5C \<and> cs \<noteq> [] then c # hd cs # strip_foam (Some q) (tl cs)
      else c # strip_foam (if c = q then None else Some q) cs)"
| "strip_foam None (c # cs) =
     (if c \<in> set quote_chars then c # strip_foam (Some c) cs
      else if c = CHR ''/'' \<and> starts_with cs ''/''
      then strip_foam None (dropWhile (\<lambda>x. x \<noteq> CHR 0x0A) cs)
      else if c = CHR ''/'' \<and> starts_with cs ''*'' then strip_foam None (skip_block (tl cs))
      else c # strip_foam None cs)"
  by pat_completeness auto
termination
proof (relation "measure (\<lambda>(q, s). length s)", goal_cases)
  case (5 c cs)
  then show ?case using length_dropWhile_le [of "\<lambda>x. x \<noteq> CHR 0x0A" cs] by (simp add: le_imp_less_Suc)
next
  case (6 c cs)
  have "length (skip_block (tl cs)) \<le> length cs"
    using length_skip_block [of "tl cs"] by (rule order_trans) simp
  then show ?case by (simp add: le_imp_less_Suc)
qed auto

definition strip_foam_comments :: "string \<Rightarrow> string" where
  "strip_foam_comments text = strip_foam None text"

definition matching_brace :: "string \<Rightarrow> nat option" where
  "matching_brace s = delimiter_from (CHR ''{'') (CHR ''}'') None 0 s"

text \<open>\<open>[A-Za-z_][A-Za-z0-9_.-]*\<close>\<close>

definition entry_key :: "string \<Rightarrow> string" where
  "entry_key s =
     (if s \<noteq> [] \<and> (is_alpha (hd s) \<or> hd s = CHR ''_'')
      then takeWhile (\<lambda>c. is_alpha c \<or> is_digit c \<or> c \<in> set ''_.-'') s else [])"

text \<open>
  A scalar entry: its text up to the semicolon outside quotes and round and square brackets, the text
  after it, and whether a brace was seen.
\<close>

fun scalar_entry :: "char option \<Rightarrow> nat \<Rightarrow> nat \<Rightarrow> string \<Rightarrow> (string \<times> string \<times> bool) option" where
  "scalar_entry quote r s [] = None"
| "scalar_entry (Some q) r s (c # cs) =
     (if c = CHR 0x5C then
        (case cs of
           [] \<Rightarrow> None
         | d # ds \<Rightarrow> map_option (\<lambda>(v, rest, b). (c # d # v, rest, b)) (scalar_entry (Some q) r s ds))
      else map_option (\<lambda>(v, rest, b). (c # v, rest, b))
        (scalar_entry (if c = q then None else Some q) r s cs))"
| "scalar_entry None r s (c # cs) =
     (if c = CHR '';'' \<and> r = 0 \<and> s = 0 then Some ([], cs, False)
      else map_option (\<lambda>(v, rest, b). (c # v, rest, b \<or> c = CHR ''{''))
        (scalar_entry (if c \<in> set quote_chars then Some c else None)
           (if c = CHR ''('' then r + 1 else if c = CHR '')'' then r - 1 else r)
           (if c = CHR ''['' then s + 1 else if c = CHR '']'' then s - 1 else s) cs))"

lemma scalar_entry_rest:
  "scalar_entry q r s u = Some (v, rest, b) \<Longrightarrow> length rest < length u"
proof (induction q r s u arbitrary: v rest b rule: scalar_entry.induct)
  case (2 q r s c cs)
  show ?case
  proof (cases "c = CHR 0x5C")
    case True
    with 2(3) obtain d ds v' where "cs = d # ds" "scalar_entry (Some q) r s ds = Some (v', rest, b)"
      by (auto split: list.splits)
    with 2(1) [OF True] show ?thesis by fastforce
  next
    case False
    with 2(3) obtain v' where "scalar_entry (if c = q then None else Some q) r s cs = Some (v', rest, b)"
      by auto
    from 2(2) [OF False this] show ?thesis by simp
  qed
next
  case (3 r s c cs)
  show ?case
  proof (cases "c = CHR '';'' \<and> r = 0 \<and> s = 0")
    case False
    with 3(2) obtain v' b' where "scalar_entry (if c \<in> set quote_chars then Some c else None)
           (if c = CHR ''('' then r + 1 else if c = CHR '')'' then r - 1 else r)
           (if c = CHR ''['' then s + 1 else if c = CHR '']'' then s - 1 else s) cs = Some (v', rest, b')"
      by auto
    from 3(1) [OF False this] show ?thesis by simp
  qed (use 3(2) in auto)
qed simp

lemma entry_key_progress: "entry_key s \<noteq> [] \<Longrightarrow> s \<noteq> [] \<and> length (drop (length (entry_key s)) s) < length s"
  by (auto simp: entry_key_def split: if_splits)

text \<open>Each round takes one entry; a text it cannot follow leaves the projection incomplete.\<close>

function entry_payloads ::
  "(string \<times> string) list \<Rightarrow> bool \<Rightarrow> string \<Rightarrow> (string \<times> string) list \<times> bool" where
  "entry_payloads result whole text =
     (let s = skip_ws text; key = entry_key s; t = skip_ws (drop (length key) s)
      in if s = [] then (result, whole)
         else if key = [] \<or> key \<in> fst ` set result then (result, False)
         else if starts_with t ''{'' then
           (case matching_brace t of
              None \<Rightarrow> (result, False)
            | Some n \<Rightarrow> entry_payloads (result @ [(key, strip (take (Suc n) t))]) whole (drop (Suc n) t))
         else
           (case scalar_entry None 0 0 t of
              None \<Rightarrow> (result, False)
            | Some (v, rest, brace) \<Rightarrow>
                entry_payloads (result @ [(key, strip v)]) (whole \<and> \<not> brace \<and> strip v \<noteq> []) rest))"
  by pat_completeness auto
termination
proof (relation "measure (\<lambda>(result, whole, text). length text)", goal_cases)
  case (2 result whole u s key t n)
  have "length t < length s"
    using 2(1-5) entry_key_progress [of s] length_skip_ws [of "drop (length key) s"]
    by (simp add: le_less_trans)
  then show ?case using length_skip_ws [of u] 2(1) by simp
next
  case (3 result whole u s key t x v y rest brace)
  have "length rest < length t" using 3 scalar_entry_rest by blast
  moreover have "length t \<le> length s"
    using 3(2,3) length_skip_ws [of "drop (length key) s"] by simp
  ultimately show ?case using length_skip_ws [of u] 3(1) by simp
qed simp

declare entry_payloads.simps [simp del]

definition top_level_entry_payloads :: "string \<Rightarrow> (string \<times> string) list \<times> bool" where
  "top_level_entry_payloads text = entry_payloads [] True (strip_foam_comments text)"

text \<open>\<open>re.findall(r'"(?:\\.|[^"\\])*"|\S+', value)\<close>\<close>

definition payload_token_length :: "string \<Rightarrow> nat" where
  "payload_token_length s =
     (case s of
        [] \<Rightarrow> 0
      | c # cs \<Rightarrow>
          if c = CHR 0x22 \<and> quoted_length c cs \<noteq> None then 1 + the (quoted_length c cs)
          else length (takeWhile (\<lambda>x. \<not> is_space x) s))"

function payload_tokens :: "string \<Rightarrow> string list" where
  "payload_tokens s =
     (if s = [] then []
      else if payload_token_length s = 0 then payload_tokens (tl s)
      else take (payload_token_length s) s # payload_tokens (drop (payload_token_length s) s))"
  by pat_completeness auto
termination
  by (relation "measure length") (auto simp: length_greater_0_conv)

declare payload_tokens.simps [simp del]

definition canonical_payload :: "string option \<Rightarrow> string list option" where
  "canonical_payload value = map_option payload_tokens value"

fun literal_parts :: "string list \<Rightarrow> string \<Rightarrow> string option" where
  "literal_parts [] payload = Some payload"
| "literal_parts (part # parts) payload =
     (let (entries, whole) = top_level_entry_payloads payload
      in if \<not> whole then None
         else case map_of entries part of
           None \<Rightarrow> None
         | Some p \<Rightarrow>
             if parts = [] then Some p
             else if starts_with p ''{'' \<and> ends_with p ''}'' then literal_parts parts (butlast (tl p))
             else None)"

definition literal_entry_payload :: "string \<Rightarrow> string \<Rightarrow> string option" where
  "literal_entry_payload text entry_path =
     (case literal_parts (split_on (CHR ''.'') entry_path) text of
        None \<Rightarrow> None
      | Some payload \<Rightarrow> if CHR ''#'' \<in> set payload \<or> CHR ''$'' \<in> set payload then None else Some payload)"

section \<open>The documents of a plan\<close>

record parallel_execution =
  pe_mode :: string
  pe_ranks :: int
  pe_launcher :: string
  pe_decomposition_method :: "string option"
  pe_reconstruct :: bool
  pe_restart :: "(string \<times> string) option"

text \<open>A semantic evidence pointer: a case path and, when it is narrower, an entry of the file.\<close>

type_synonym evidence_pointer = "string \<times> string option"

record fact_binding =
  fb_fact_id :: string
  fb_case_assertions :: "evidence_pointer list"
  fb_numeric_relation :: "(evidence_pointer list \<times> evidence_pointer list) option"
  fb_rest :: string

text \<open>
  The part of \<open>EngineeringPlan\<close> an approval reads; \<open>ap_physical_rest\<close> is the JSON text of the physical
  fields the controller does not look into.
\<close>

record approved_plan =
  ap_plan :: engineering_plan
  ap_parallel :: parallel_execution
  ap_intake_sha256 :: string
  ap_fact_bindings :: "fact_binding list"
  ap_physical_rest :: string

datatype exec_document =
    Exec_Declared execution_spec parallel_execution
  | Exec_Default string string

definition execution_document :: "approved_plan \<Rightarrow> exec_document" where
  "execution_document plan =
     (case plan_execution (ap_plan plan) of
        Some ex \<Rightarrow> Exec_Declared ex (ap_parallel plan)
      | None \<Rightarrow> Exec_Default (plan_solver (ap_plan plan)) (plan_solver_provider_id (ap_plan plan)))"

record physical_document =
  pd_intake_sha256 :: string
  pd_fact_bindings :: "fact_binding list"
  pd_required_case_files :: "string list"
  pd_region_layouts :: "region_case_layout list"
  pd_rest :: string

definition physical_plan_document :: "approved_plan \<Rightarrow> physical_document" where
  "physical_plan_document plan =
     \<lparr>pd_intake_sha256 = ap_intake_sha256 plan, pd_fact_bindings = ap_fact_bindings plan,
      pd_required_case_files = plan_required_case_files (ap_plan plan),
      pd_region_layouts = plan_region_layouts (ap_plan plan), pd_rest = ap_physical_rest plan\<rparr>"

definition binding_pointers :: "fact_binding \<Rightarrow> evidence_pointer list" where
  "binding_pointers b =
     fb_case_assertions b @
     (case fb_numeric_relation b of None \<Rightarrow> [] | Some (numerator, denominator) \<Rightarrow> numerator @ denominator)"

definition narrow :: "string option \<Rightarrow> bool" where
  "narrow entry \<longleftrightarrow> entry \<noteq> None \<and> entry \<noteq> Some []"

definition protected_repair_locations ::
  "approved_plan \<Rightarrow> (string \<times> string list) list \<times> string list" where
  "protected_repair_locations plan =
     (let pointers = concat (map binding_pointers (ap_fact_bindings plan));
          entries = filter (\<lambda>(p, e). narrow e) pointers
      in (map (\<lambda>path. (path, sorted_set (map (\<lambda>(p, e). the e) (filter (\<lambda>(p, e). p = path) entries))))
            (dict_fromkeys (map fst entries)),
          sorted_set (map fst (filter (\<lambda>(p, e). \<not> narrow e) pointers))))"

section \<open>The approval\<close>

text \<open>\<open>ResourceLimits\<close> with the bounds its fields are declared with; a float is its rational value.\<close>

record resource_limits =
  rl_max_native_processes :: int
  rl_wall_seconds :: int
  rl_cpu_seconds :: "int option"
  rl_memory_bytes :: "int option"
  rl_max_output_bytes :: int
  rl_max_case_bytes :: int
  rl_max_ranks :: int
  rl_max_processes :: int
  rl_cpu_cores :: rat
  rl_total_cpu_seconds :: "rat option"
  rl_total_wall_seconds :: rat
  rl_max_total_output_bytes :: int

definition in_range :: "int \<Rightarrow> int \<Rightarrow> int \<Rightarrow> bool" where
  "in_range lo hi x \<longleftrightarrow> lo \<le> x \<and> x \<le> hi"

definition limits_ok :: "resource_limits \<Rightarrow> bool" where
  "limits_ok l \<longleftrightarrow>
     in_range 1 10000 (rl_max_native_processes l) \<and> in_range 1 86400 (rl_wall_seconds l) \<and>
     (case rl_cpu_seconds l of None \<Rightarrow> True | Some x \<Rightarrow> in_range 1 86400 x) \<and>
     (case rl_memory_bytes l of None \<Rightarrow> True | Some x \<Rightarrow> 64 * 1024 * 1024 \<le> x) \<and>
     1024 \<le> rl_max_output_bytes l \<and> 1024 \<le> rl_max_case_bytes l \<and>
     in_range 1 256 (rl_max_ranks l) \<and> in_range 2 65536 (rl_max_processes l) \<and>
     0 < rl_cpu_cores l \<and> rl_cpu_cores l \<le> 256 \<and>
     (case rl_total_cpu_seconds l of None \<Rightarrow> True | Some x \<Rightarrow> 0 < x) \<and>
     0 < rl_total_wall_seconds l \<and> 1024 \<le> rl_max_total_output_bytes l"

definition default_limits :: resource_limits where
  "default_limits =
     \<lparr>rl_max_native_processes = 40, rl_wall_seconds = 3600, rl_cpu_seconds = None, rl_memory_bytes = None,
      rl_max_output_bytes = 256 * 1024 * 1024, rl_max_case_bytes = 2000000000, rl_max_ranks = 8,
      rl_max_processes = 256, rl_cpu_cores = 8, rl_total_cpu_seconds = None, rl_total_wall_seconds = 86400,
      rl_max_total_output_bytes = 1000000000\<rparr>"

lemma default_limits_ok: "limits_ok default_limits"
  by (simp add: limits_ok_def default_limits_def in_range_def)

record execution_approval =
  xa_execution :: exec_document
  xa_execution_sha256 :: string
  xa_physical_plan_sha256 :: string
  xa_intake_sha256 :: string
  xa_approved_manifest_sha256 :: string
  xa_approved_files :: "(string \<times> string) list"
  xa_protected_repair_entries :: "(string \<times> string list) list"
  xa_protected_repair_files :: "string list"
  xa_authorized_repair_hashes :: "(string \<times> string) list"
  xa_repair_baselines :: "(string \<times> string) list"
  xa_authorized_repair_base_hashes :: "(string \<times> string) list"
  xa_resource_limits :: resource_limits

datatype approval_error =
    Approval_Inconsistent
  | Execution_Changed
  | Physical_Contract_Changed
  | Intake_Changed
  | Outside_Numerical_Control "string list"
  | Cannot_Inspect string
  | Inspection_Refused workspace_error
  | Unapproved_Baseline string
  | Frozen_File string
  | Unresolved_Frozen_Entry string string
  | Frozen_Entry_Modified string string
  | Incomplete_Control_Dict
  | Frozen_Control_Entries "string list"
  | Unauthorized_Control_Entries "string list"
  | Unresolved_Original_Limits
  | Not_A_Literal_Boolean
  | Adaptive_Cap_Exceeded
  | Positive_Scalar_Required string
  | Only_Reduction_Allowed string

text \<open>The digests of a seal by path; the paths of a seal are distinct.\<close>

definition seal_files :: "case_seal \<Rightarrow> (string \<times> string) list" where
  "seal_files sl = map (\<lambda>f. (fs_path f, fs_sha256 f)) (cs_files sl)"

definition issue_approval ::
  "(exec_document \<Rightarrow> string) \<Rightarrow> (physical_document \<Rightarrow> string) \<Rightarrow> approved_plan \<Rightarrow> case_seal \<Rightarrow>
     resource_limits option \<Rightarrow> execution_approval" where
  "issue_approval xsha psha plan sl limits =
     (let (entries, files) = protected_repair_locations plan
      in \<lparr>xa_execution = execution_document plan,
          xa_execution_sha256 = xsha (execution_document plan),
          xa_physical_plan_sha256 = psha (physical_plan_document plan),
          xa_intake_sha256 = ap_intake_sha256 plan,
          xa_approved_manifest_sha256 = cs_manifest_sha256 sl,
          xa_approved_files = seal_files sl,
          xa_protected_repair_entries = entries, xa_protected_repair_files = files,
          xa_authorized_repair_hashes = [], xa_repair_baselines = [], xa_authorized_repair_base_hashes = [],
          xa_resource_limits = get_default default_limits limits\<rparr>)"

definition check_plan ::
  "(exec_document \<Rightarrow> string) \<Rightarrow> (physical_document \<Rightarrow> string) \<Rightarrow> execution_approval \<Rightarrow> approved_plan \<Rightarrow>
     approval_error + unit" where
  "check_plan xsha psha a plan =
     (if xsha (xa_execution a) \<noteq> xa_execution_sha256 a then Inl Approval_Inconsistent
      else if xsha (execution_document plan) \<noteq> xa_execution_sha256 a then Inl Execution_Changed
      else if psha (physical_plan_document plan) \<noteq> xa_physical_plan_sha256 a then Inl Physical_Contract_Changed
      else if ap_intake_sha256 plan \<noteq> xa_intake_sha256 a then Inl Intake_Changed
      else Inr ())"

section \<open>What a repair may change\<close>

datatype path_kind = Numerical_Dictionary | Control_Dict

definition runtime_repair_path_kind :: "string \<Rightarrow> path_kind option" where
  "runtime_repair_path_kind path =
     (if \<not> starts_with path ''system/'' then None
      else if last (split_on (CHR ''/'') path) \<in> {''fvSchemes'', ''fvSolution''} then Some Numerical_Dictionary
      else if path = ''system/controlDict'' then Some Control_Dict else None)"

definition mutable_control_entries :: "string list" where
  "mutable_control_entries = [''deltaT'', ''maxDeltaT'', ''adjustTimeStep'', ''maxCo'', ''maxAlphaCo'']"

definition positive_scalar ::
  "(string \<Rightarrow> rat option) \<Rightarrow> string option \<Rightarrow> string \<Rightarrow> approval_error + rat" where
  "positive_scalar flt value label =
     (case value of
        None \<Rightarrow> Inl (Positive_Scalar_Required label)
      | Some s \<Rightarrow>
          (case flt s of
             None \<Rightarrow> Inl (Positive_Scalar_Required label)
           | Some x \<Rightarrow> if x \<le> 0 then Inl (Positive_Scalar_Required label) else Inr x))"

definition check_frozen_entry ::
  "string \<Rightarrow> string \<Rightarrow> string \<Rightarrow> string \<Rightarrow> approval_error + unit" where
  "check_frozen_entry path current proposed entry =
     (case (literal_entry_payload current entry, literal_entry_payload proposed entry) of
        (Some before, Some after) \<Rightarrow>
          if canonical_payload (Some before) \<noteq> canonical_payload (Some after)
          then Inl (Frozen_Entry_Modified path entry) else Inr ()
      | _ \<Rightarrow> Inl (Unresolved_Frozen_Entry path entry))"

text \<open>\<open>prior or before.get("deltaT")\<close>: an absent or empty entry.\<close>

definition or_entry :: "string option \<Rightarrow> string option \<Rightarrow> string option" where
  "or_entry a b = (if a = None \<or> a = Some [] then b else a)"

definition check_adaptive ::
  "(string \<Rightarrow> rat option) \<Rightarrow> (string \<times> string) list \<Rightarrow> (string \<times> string) list \<Rightarrow> approval_error + unit" where
  "check_adaptive flt after original =
     (case map_of after ''adjustTimeStep'' of
        None \<Rightarrow> Inl Not_A_Literal_Boolean
      | Some v \<Rightarrow>
          if v \<notin> {''true'', ''false'', ''yes'', ''no'', ''on'', ''off'', ''0'', ''1''} then Inl Not_A_Literal_Boolean
          else if v \<in> {''true'', ''yes'', ''on'', ''1''} then
            bind_result (positive_scalar flt (map_of after ''maxDeltaT'') ''maxDeltaT'') (\<lambda>cap.
            bind_result (positive_scalar flt
                (case map_of original ''maxDeltaT'' of Some m \<Rightarrow> Some m | None \<Rightarrow> map_of original ''deltaT'')
                ''initial timestep limit'') (\<lambda>limit.
              if cap > limit then Inl Adaptive_Cap_Exceeded else Inr ()))
          else Inr ())"

definition check_reduction ::
  "(string \<Rightarrow> rat option) \<Rightarrow> (string \<times> string) list \<Rightarrow> (string \<times> string) list \<Rightarrow> (string \<times> string) list \<Rightarrow>
     string \<Rightarrow> approval_error + unit" where
  "check_reduction flt before after original entry =
     (let prior = map_of before entry; initial = map_of original entry;
          prior' = (if entry = ''maxDeltaT'' then or_entry prior (map_of before ''deltaT'') else prior);
          initial' = (if entry = ''maxDeltaT'' then or_entry initial (map_of original ''deltaT'') else initial)
      in bind_result (positive_scalar flt (map_of after entry) entry) (\<lambda>new_value.
         bind_result (positive_scalar flt prior' (''previous '' @ entry)) (\<lambda>previous.
         bind_result (positive_scalar flt initial' (''initial '' @ entry)) (\<lambda>initial_value.
           if new_value > min previous initial_value then Inl (Only_Reduction_Allowed entry) else Inr ()))))"

definition changed_entries :: "(string \<times> string) list \<Rightarrow> (string \<times> string) list \<Rightarrow> string list" where
  "changed_entries before after =
     sorted_set (filter (\<lambda>k. canonical_payload (map_of before k) \<noteq> canonical_payload (map_of after k))
       (map fst before @ map fst after))"

fun check_all :: "('a \<Rightarrow> 'e + unit) \<Rightarrow> 'a list \<Rightarrow> 'e + unit" where
  "check_all f [] = Inr ()"
| "check_all f (x # xs) = bind_result (f x) (\<lambda>_. check_all f xs)"

text \<open>
  The changed entries are checked in sorted order; the source iterates over a set, which decides only
  which of several errors is raised.
\<close>

definition check_control_dict ::
  "(string \<Rightarrow> rat option) \<Rightarrow> string list \<Rightarrow> string \<Rightarrow> string \<Rightarrow> string \<Rightarrow> approval_error + unit" where
  "check_control_dict flt protected current proposed baseline =
     (let (before, complete_before) = top_level_entry_payloads current;
          (after, complete_after) = top_level_entry_payloads proposed;
          changed = changed_entries before after;
          frozen = map (\<lambda>e. hd (split_on (CHR ''.'') e)) protected;
          (original, complete_original) = top_level_entry_payloads baseline
      in if \<not> complete_before \<or> \<not> complete_after then Inl Incomplete_Control_Dict
         else if filter (\<lambda>k. k \<in> set frozen) changed \<noteq> []
         then Inl (Frozen_Control_Entries (filter (\<lambda>k. k \<in> set frozen) changed))
         else if filter (\<lambda>k. k \<notin> set mutable_control_entries) changed \<noteq> []
         then Inl (Unauthorized_Control_Entries (filter (\<lambda>k. k \<notin> set mutable_control_entries) changed))
         else if \<not> complete_original then Inl Unresolved_Original_Limits
         else check_all (\<lambda>entry.
           if entry = ''adjustTimeStep'' then check_adaptive flt after original
           else check_reduction flt before after original entry) changed)"

text \<open>The three dictionaries a delta updates: authorised hashes, baselines and base hashes.\<close>

record repair_ledger =
  rp_hashes :: "(string \<times> string) list"
  rp_baselines :: "(string \<times> string) list"
  rp_base_hashes :: "(string \<times> string) list"

definition approval_ledger :: "execution_approval \<Rightarrow> repair_ledger" where
  "approval_ledger a =
     \<lparr>rp_hashes = xa_authorized_repair_hashes a, rp_baselines = xa_repair_baselines a,
      rp_base_hashes = xa_authorized_repair_base_hashes a\<rparr>"

definition inspect_input ::
  "(string \<Rightarrow> string) \<Rightarrow> workspace \<Rightarrow> string \<Rightarrow> approval_error + string" where
  "inspect_input lossy w path =
     (case read_text lossy w path (ws_max_file_bytes w + 1) of
        Inr current \<Rightarrow> Inr current
      | Inl (No_Such_Case_File p) \<Rightarrow> Inl (Cannot_Inspect path)
      | Inl e \<Rightarrow> Inl (Inspection_Refused e))"

definition check_repair_content ::
  "(string \<Rightarrow> rat option) \<Rightarrow> execution_approval \<Rightarrow> repair_ledger \<Rightarrow> path_kind \<Rightarrow> string \<Rightarrow> string \<Rightarrow> string \<Rightarrow>
     approval_error + repair_ledger" where
  "check_repair_content flt a led kind path current proposed =
     (let protected = get_default [] (map_of (xa_protected_repair_entries a) path)
      in if path \<in> set (xa_protected_repair_files a) then Inl (Frozen_File path)
         else case kind of
           Numerical_Dictionary \<Rightarrow>
             bind_result (check_all (check_frozen_entry path current proposed) protected) (\<lambda>_. Inr led)
         | Control_Dict \<Rightarrow>
             bind_result (check_control_dict flt protected current proposed
                 (get_default current (map_of (rp_baselines led) path))) (\<lambda>_.
               Inr (if map_of (rp_baselines led) path = None
                    then led\<lparr>rp_baselines := AList.update path current (rp_baselines led)\<rparr> else led)))"

definition check_repair_file ::
  "(string \<Rightarrow> string) \<Rightarrow> (string \<Rightarrow> string) \<Rightarrow> (string \<Rightarrow> rat option) \<Rightarrow> workspace \<Rightarrow> execution_approval \<Rightarrow>
     string \<times> string \<Rightarrow> repair_ledger \<Rightarrow> approval_error + repair_ledger" where
  "check_repair_file sha lossy flt w a file led =
     (let (path, proposed) = file
      in case runtime_repair_path_kind path of
        None \<Rightarrow> Inl (Outside_Numerical_Control [path])
      | Some kind \<Rightarrow>
          bind_result (inspect_input lossy w path) (\<lambda>current.
            let current_hash = sha (utf8_encode current); proposed_hash = sha (utf8_encode proposed);
                authorized = map_of (rp_hashes led) path;
                rechecking = (Some proposed_hash = authorized \<and>
                  Some current_hash = map_of (rp_base_hashes led) path)
            in if Some current_hash \<noteq> map_of (xa_approved_files a) path \<and> Some current_hash \<noteq> authorized \<and>
                 \<not> rechecking
               then Inl (Unapproved_Baseline path)
               else if proposed = current then Inr led
               else bind_result (check_repair_content flt a led kind path current proposed) (\<lambda>led'.
                 Inr (led'\<lparr>rp_base_hashes := AList.update path current_hash (rp_base_hashes led'),
                           rp_hashes := AList.update path proposed_hash (rp_hashes led')\<rparr>))))"

fun check_repair_files_in ::
  "(string \<Rightarrow> string) \<Rightarrow> (string \<Rightarrow> string) \<Rightarrow> (string \<Rightarrow> rat option) \<Rightarrow> workspace \<Rightarrow> execution_approval \<Rightarrow>
     (string \<times> string) list \<Rightarrow> repair_ledger \<Rightarrow> approval_error + repair_ledger" where
  "check_repair_files_in sha lossy flt w a [] led = Inr led"
| "check_repair_files_in sha lossy flt w a (f # fs) led =
     bind_result (check_repair_file sha lossy flt w a f led) (check_repair_files_in sha lossy flt w a fs)"

text \<open>A rejected candidate leaves no partial authorization.\<close>

definition check_repair_delta ::
  "(string \<Rightarrow> string) \<Rightarrow> (string \<Rightarrow> string) \<Rightarrow> (string \<Rightarrow> rat option) \<Rightarrow> workspace \<Rightarrow> execution_approval \<Rightarrow>
     (string \<times> string) list \<Rightarrow> (approval_error + unit) \<times> execution_approval" where
  "check_repair_delta sha lossy flt w a changed_files =
     (case check_repair_files_in sha lossy flt w a changed_files (approval_ledger a) of
        Inl e \<Rightarrow> (Inl e, a)
      | Inr led \<Rightarrow> (Inr (), a\<lparr>xa_authorized_repair_hashes := rp_hashes led,
          xa_repair_baselines := rp_baselines led, xa_authorized_repair_base_hashes := rp_base_hashes led\<rparr>))"

definition repair_file_allowed :: "execution_approval \<Rightarrow> (string \<times> string) list \<Rightarrow> string \<Rightarrow> bool" where
  "repair_file_allowed a current path \<longleftrightarrow>
     runtime_repair_path_kind path \<noteq> None \<and> map_of current path \<noteq> None \<and>
     map_of (xa_authorized_repair_hashes a) path = map_of current path"

definition check_repair_files :: "execution_approval \<Rightarrow> case_seal \<Rightarrow> approval_error + unit" where
  "check_repair_files a sl =
     (let current = seal_files sl;
          changed = filter (\<lambda>p. map_of current p \<noteq> map_of (xa_approved_files a) p)
            (map fst current @ map fst (xa_approved_files a));
          refused = filter (\<lambda>p. \<not> repair_file_allowed a current p) changed
      in if refused \<noteq> [] then Inl (Outside_Numerical_Control (sorted_set refused)) else Inr ())"

lemma check_all_iff: "check_all f xs = Inr u \<longleftrightarrow> (\<forall>x \<in> set xs. f x = Inr ())"
  by (induction xs) auto

lemma positive_scalar_iff:
  "positive_scalar flt v label = Inr x \<longleftrightarrow> (\<exists>s. v = Some s \<and> flt s = Some x \<and> 0 < x)"
  by (auto simp: positive_scalar_def split: option.splits)

section \<open>What an accepted repair respects\<close>

text \<open>
  The contract of an accepted \<^verbatim>\<open>system/controlDict\<close>, stated over its literal entries: every entry whose
  tokens change is one of the five numerical controls and carries no user requirement; a number only
  goes down, both from the last accepted text and from the first approved one; switching the adaptive
  step on keeps its cap within the approved step.
\<close>

definition control_limit :: "(string \<times> string) list \<Rightarrow> string \<Rightarrow> string option" where
  "control_limit entries key =
     (if key = ''maxDeltaT'' then or_entry (map_of entries key) (map_of entries ''deltaT'')
      else map_of entries key)"

definition entry_reduced ::
  "(string \<Rightarrow> rat option) \<Rightarrow> (string \<times> string) list \<Rightarrow> (string \<times> string) list \<Rightarrow> (string \<times> string) list \<Rightarrow>
     string \<Rightarrow> bool" where
  "entry_reduced flt before after original key \<longleftrightarrow>
     (\<exists>a b c x y z. map_of after key = Some a \<and> control_limit before key = Some b \<and>
        control_limit original key = Some c \<and> flt a = Some x \<and> flt b = Some y \<and> flt c = Some z \<and>
        0 < x \<and> x \<le> y \<and> x \<le> z)"

definition adaptive_step_capped ::
  "(string \<Rightarrow> rat option) \<Rightarrow> (string \<times> string) list \<Rightarrow> (string \<times> string) list \<Rightarrow> bool" where
  "adaptive_step_capped flt after original \<longleftrightarrow>
     (\<exists>v. map_of after ''adjustTimeStep'' = Some v \<and>
        (v \<in> {''false'', ''no'', ''off'', ''0''} \<or>
         v \<in> {''true'', ''yes'', ''on'', ''1''} \<and>
         (\<exists>a c x z. map_of after ''maxDeltaT'' = Some a \<and> flt a = Some x \<and> 0 < x \<and>
            (map_of original ''maxDeltaT'' = Some c \<or>
             map_of original ''maxDeltaT'' = None \<and> map_of original ''deltaT'' = Some c) \<and>
            flt c = Some z \<and> 0 < z \<and> x \<le> z)))"

definition control_change_approved ::
  "(string \<Rightarrow> rat option) \<Rightarrow> string list \<Rightarrow> string \<Rightarrow> string \<Rightarrow> string \<Rightarrow> bool" where
  "control_change_approved flt protected current proposed baseline \<longleftrightarrow>
     snd (top_level_entry_payloads current) \<and> snd (top_level_entry_payloads proposed) \<and>
     snd (top_level_entry_payloads baseline) \<and>
     (\<forall>key. canonical_payload (map_of (fst (top_level_entry_payloads current)) key) \<noteq>
            canonical_payload (map_of (fst (top_level_entry_payloads proposed)) key) \<longrightarrow>
        key \<in> set mutable_control_entries \<and>
        key \<notin> (\<lambda>e. hd (split_on (CHR ''.'') e)) ` set protected \<and>
        (if key = ''adjustTimeStep''
         then adaptive_step_capped flt (fst (top_level_entry_payloads proposed))
                (fst (top_level_entry_payloads baseline))
         else entry_reduced flt (fst (top_level_entry_payloads current))
                (fst (top_level_entry_payloads proposed)) (fst (top_level_entry_payloads baseline)) key))"

lemma check_adaptive_iff: "check_adaptive flt after original = Inr u \<longleftrightarrow> adaptive_step_capped flt after original"
proof (cases "map_of after ''adjustTimeStep''")
  case (Some v)
  have literals: "x \<in> {a, b, c, d, e, f, g, h} \<longleftrightarrow> x \<in> {b, d, f, g} \<or> x \<in> {a, c, e, h}"
    for x a b c d e f g h :: string by auto
  define on :: "string set" where "on = {''true'', ''yes'', ''on'', ''1''}"
  define off :: "string set" where "off = {''false'', ''no'', ''off'', ''0''}"
  define limit where "limit = (case map_of original ''maxDeltaT'' of Some m \<Rightarrow> Some m
    | None \<Rightarrow> map_of original ''deltaT'')"
  have literal: "v \<in> {''true'', ''false'', ''yes'', ''no'', ''on'', ''off'', ''0'', ''1''} \<longleftrightarrow> v \<in> off \<or> v \<in> on"
    unfolding on_def off_def by (rule literals)
  have disjoint: "v \<in> off \<Longrightarrow> v \<notin> on"
    unfolding on_def off_def by auto
  have limit: "limit = Some c \<longleftrightarrow> map_of original ''maxDeltaT'' = Some c \<or>
      map_of original ''maxDeltaT'' = None \<and> map_of original ''deltaT'' = Some c" for c
    by (simp add: limit_def split: option.splits)
  have "check_adaptive flt after original = Inr u \<longleftrightarrow> v \<in> off \<or> v \<in> on \<and>
      (\<exists>x z. positive_scalar flt (map_of after ''maxDeltaT'') ''maxDeltaT'' = Inr x \<and>
         positive_scalar flt limit ''initial timestep limit'' = Inr z \<and> x \<le> z)"
    unfolding check_adaptive_def Some option.case literal on_def [symmetric] limit_def [symmetric]
    using disjoint by (cases "v \<in> off"; cases "v \<in> on") (auto simp: not_less)
  then show ?thesis
    unfolding adaptive_step_capped_def Some option.inject on_def [symmetric] off_def [symmetric]
      positive_scalar_iff limit by blast
qed (simp add: check_adaptive_def adaptive_step_capped_def)

lemma reduction_outcome_iff:
  "(if min y z < x then Inl e else Inr ()) = Inr u \<longleftrightarrow> x \<le> y \<and> x \<le> (z :: rat)"
  by auto

lemma check_reduction_iff:
  "check_reduction flt before after original key = Inr u \<longleftrightarrow> entry_reduced flt before after original key"
proof -
  have "check_reduction flt before after original key =
     bind_result (positive_scalar flt (map_of after key) key) (\<lambda>x.
       bind_result (positive_scalar flt (control_limit before key) (''previous '' @ key)) (\<lambda>y.
       bind_result (positive_scalar flt (control_limit original key) (''initial '' @ key)) (\<lambda>z.
         if min y z < x then Inl (Only_Reduction_Allowed key) else Inr ())))"
    by (simp add: check_reduction_def control_limit_def Let_def)
  then have "check_reduction flt before after original key = Inr u \<longleftrightarrow>
     (\<exists>x y z. (\<exists>a. map_of after key = Some a \<and> flt a = Some x \<and> 0 < x) \<and>
        (\<exists>b. control_limit before key = Some b \<and> flt b = Some y \<and> 0 < y) \<and>
        (\<exists>c. control_limit original key = Some c \<and> flt c = Some z \<and> 0 < z) \<and> x \<le> y \<and> x \<le> z)"
    by (simp only: bind_result_eq_Inr reduction_outcome_iff positive_scalar_iff) blast
  also have "\<dots> \<longleftrightarrow> entry_reduced flt before after original key"
    unfolding entry_reduced_def by (blast intro: less_le_trans)
  finally show ?thesis .
qed

lemma changed_entries_set:
  "set (changed_entries before after) =
     {k. canonical_payload (map_of before k) \<noteq> canonical_payload (map_of after k)}"
proof -
  have "k \<in> fst ` set before \<or> k \<in> fst ` set after"
    if "canonical_payload (map_of before k) \<noteq> canonical_payload (map_of after k)" for k
    using that by (metis map_of_eq_None_iff)
  then show ?thesis by (auto simp: changed_entries_def)
qed

lemma checked_entry_iff:
  "(if key = ''adjustTimeStep'' then check_adaptive flt after original
    else check_reduction flt before after original key) = Inr () \<longleftrightarrow>
   (if key = ''adjustTimeStep'' then adaptive_step_capped flt after original
    else entry_reduced flt before after original key)"
  by (simp add: check_adaptive_iff check_reduction_iff)

theorem check_control_dict_iff:
  "check_control_dict flt protected current proposed baseline = Inr () \<longleftrightarrow>
     control_change_approved flt protected current proposed baseline"
proof -
  obtain before cb after ca original co where tops:
    "top_level_entry_payloads current = (before, cb)" "top_level_entry_payloads proposed = (after, ca)"
    "top_level_entry_payloads baseline = (original, co)"
    by (metis surj_pair)
  define changed where "changed = changed_entries before after"
  define ok where "ok key \<longleftrightarrow> (if key = ''adjustTimeStep'' then adaptive_step_capped flt after original
    else entry_reduced flt before after original key)" for key
  have "check_control_dict flt protected current proposed baseline = Inr () \<longleftrightarrow>
     cb \<and> ca \<and> co \<and> (\<forall>k \<in> set changed. k \<notin> (\<lambda>e. hd (split_on (CHR ''.'') e)) ` set protected) \<and>
     (\<forall>k \<in> set changed. k \<in> set mutable_control_entries) \<and> (\<forall>k \<in> set changed. ok k)"
    unfolding check_control_dict_def tops Let_def prod.case check_all_iff checked_entry_iff
      ok_def [symmetric] changed_def [symmetric] by (simp add: filter_empty_conv check_all_iff checked_entry_iff flip: ok_def) blast
  then show ?thesis
    unfolding control_change_approved_def tops fst_conv snd_conv ok_def [symmetric] changed_def
      changed_entries_set by blast
qed

definition entry_kept :: "string \<Rightarrow> string \<Rightarrow> string \<Rightarrow> bool" where
  "entry_kept current proposed entry \<longleftrightarrow>
     (\<exists>x y. literal_entry_payload current entry = Some x \<and> literal_entry_payload proposed entry = Some y \<and>
        payload_tokens x = payload_tokens y)"

lemma check_frozen_entry_iff:
  "check_frozen_entry path current proposed entry = Inr u \<longleftrightarrow> entry_kept current proposed entry"
  by (auto simp: check_frozen_entry_def entry_kept_def canonical_payload_def split: option.splits)

definition content_approved ::
  "(string \<Rightarrow> rat option) \<Rightarrow> execution_approval \<Rightarrow> path_kind \<Rightarrow> string \<Rightarrow> string \<Rightarrow> string \<Rightarrow> string \<Rightarrow> bool" where
  "content_approved flt a kind path current proposed baseline \<longleftrightarrow>
     path \<notin> set (xa_protected_repair_files a) \<and>
     (let protected = get_default [] (map_of (xa_protected_repair_entries a) path)
      in case kind of
           Numerical_Dictionary \<Rightarrow> \<forall>entry \<in> set protected. entry_kept current proposed entry
         | Control_Dict \<Rightarrow> control_change_approved flt protected current proposed baseline)"

definition known_baseline ::
  "(string \<Rightarrow> string) \<Rightarrow> execution_approval \<Rightarrow> string \<Rightarrow> string \<Rightarrow> string \<Rightarrow> bool" where
  "known_baseline sha a path current proposed \<longleftrightarrow>
     map_of (xa_approved_files a) path = Some (sha (utf8_encode current)) \<or>
     map_of (xa_authorized_repair_hashes a) path = Some (sha (utf8_encode current)) \<or>
     map_of (xa_authorized_repair_hashes a) path = Some (sha (utf8_encode proposed)) \<and>
     map_of (xa_authorized_repair_base_hashes a) path = Some (sha (utf8_encode current))"

definition repair_approved ::
  "(string \<Rightarrow> string) \<Rightarrow> (string \<Rightarrow> string) \<Rightarrow> (string \<Rightarrow> rat option) \<Rightarrow> workspace \<Rightarrow> execution_approval \<Rightarrow>
     string \<Rightarrow> string \<Rightarrow> bool" where
  "repair_approved sha lossy flt w a path proposed \<longleftrightarrow>
     (\<exists>kind current. runtime_repair_path_kind path = Some kind \<and> inspect_input lossy w path = Inr current \<and>
        known_baseline sha a path current proposed \<and>
        (proposed = current \<or>
         content_approved flt a kind path current proposed
           (get_default current (map_of (xa_repair_baselines a) path))))"

definition record_repair :: "(string \<Rightarrow> string) \<Rightarrow> path_kind \<Rightarrow> string \<Rightarrow> string \<Rightarrow> string \<Rightarrow> repair_ledger \<Rightarrow> repair_ledger"
where
  "record_repair sha kind path current proposed led =
     (if proposed = current then led else
        \<lparr>rp_hashes = AList.update path (sha (utf8_encode proposed)) (rp_hashes led),
         rp_baselines = (if kind = Control_Dict \<and> map_of (rp_baselines led) path = None
           then AList.update path current (rp_baselines led) else rp_baselines led),
         rp_base_hashes = AList.update path (sha (utf8_encode current)) (rp_base_hashes led)\<rparr>)"

lemma check_repair_content_iff:
  "check_repair_content flt a led kind path current proposed = Inr led' \<longleftrightarrow>
     content_approved flt a kind path current proposed (get_default current (map_of (rp_baselines led) path)) \<and>
     led' = (if kind = Control_Dict \<and> map_of (rp_baselines led) path = None
             then led\<lparr>rp_baselines := AList.update path current (rp_baselines led)\<rparr> else led)"
  by (cases kind) (auto simp: check_repair_content_def content_approved_def Let_def check_all_iff
      check_frozen_entry_iff check_control_dict_iff)

lemma check_repair_file_iff:
  "check_repair_file sha lossy flt w a (path, proposed) led = Inr led' \<longleftrightarrow>
     (\<exists>kind current. runtime_repair_path_kind path = Some kind \<and> inspect_input lossy w path = Inr current \<and>
        (map_of (xa_approved_files a) path = Some (sha (utf8_encode current)) \<or>
         map_of (rp_hashes led) path = Some (sha (utf8_encode current)) \<or>
         map_of (rp_hashes led) path = Some (sha (utf8_encode proposed)) \<and>
         map_of (rp_base_hashes led) path = Some (sha (utf8_encode current))) \<and>
        (proposed = current \<or>
         content_approved flt a kind path current proposed
           (get_default current (map_of (rp_baselines led) path))) \<and>
        led' = record_repair sha kind path current proposed led)"
proof (cases "runtime_repair_path_kind path")
  case (Some kind)
  show ?thesis
  proof (cases "inspect_input lossy w path")
    case (Inr current)
    have "check_repair_file sha lossy flt w a (path, proposed) led = Inr led' \<longleftrightarrow>
      \<not> (Some (sha (utf8_encode current)) \<noteq> map_of (xa_approved_files a) path \<and>
         Some (sha (utf8_encode current)) \<noteq> map_of (rp_hashes led) path \<and>
         \<not> (Some (sha (utf8_encode proposed)) = map_of (rp_hashes led) path \<and>
            Some (sha (utf8_encode current)) = map_of (rp_base_hashes led) path)) \<and>
      (proposed = current \<and> led' = led \<or> proposed \<noteq> current \<and>
       content_approved flt a kind path current proposed (get_default current (map_of (rp_baselines led) path)) \<and>
       led' = record_repair sha kind path current proposed led)"
      unfolding check_repair_file_def prod.case Let_def Some option.case Inr bind_result_simps
      by (auto simp: check_repair_content_iff record_repair_def)
    moreover have "proposed = current \<Longrightarrow> record_repair sha kind path current proposed led = led"
      by (simp add: record_repair_def)
    ultimately show ?thesis using Some Inr by auto
  qed (simp add: check_repair_file_def Some)
qed (simp add: check_repair_file_def)

definition ledger_at :: "repair_ledger \<Rightarrow> string \<Rightarrow> string option \<times> string option \<times> string option" where
  "ledger_at led p = (map_of (rp_hashes led) p, map_of (rp_baselines led) p, map_of (rp_base_hashes led) p)"

lemma ledger_at_record:
  "q \<noteq> path \<Longrightarrow> ledger_at (record_repair sha kind path current proposed led) q = ledger_at led q"
  by (simp add: ledger_at_def record_repair_def update_conv' del: fun_upd_apply) simp

lemma check_repair_file_at:
  assumes "check_repair_file sha lossy flt w a (path, proposed) led = Inr led'" "q \<noteq> path"
  shows "ledger_at led' q = ledger_at led q"
  using assms by (auto simp: check_repair_file_iff ledger_at_record)

lemma check_repair_file_local:
  assumes "ledger_at led p = ledger_at led2 p"
    and "check_repair_file sha lossy flt w a (p, proposed) led = Inr led'"
  shows "\<exists>led2'. check_repair_file sha lossy flt w a (p, proposed) led2 = Inr led2' \<and>
    ledger_at led2' p = ledger_at led' p"
proof -
  from assms(2) obtain kind current where k: "runtime_repair_path_kind p = Some kind"
      "inspect_input lossy w p = Inr current" and led': "led' = record_repair sha kind p current proposed led"
    by (auto simp: check_repair_file_iff)
  have "check_repair_file sha lossy flt w a (p, proposed) led2 = Inr (record_repair sha kind p current proposed led2)"
    using assms k by (auto simp: check_repair_file_iff ledger_at_def)
  moreover have "ledger_at (record_repair sha kind p current proposed led2) p = ledger_at led' p"
    using assms(1) by (simp add: led' ledger_at_def record_repair_def update_conv')
  ultimately show ?thesis by blast
qed

lemma check_repair_files_in_at:
  assumes "check_repair_files_in sha lossy flt w a changes led = Inr led'" "q \<notin> fst ` set changes"
  shows "ledger_at led' q = ledger_at led q"
  using assms
proof (induction changes arbitrary: led)
  case (Cons c changes)
  obtain path proposed where c: "c = (path, proposed)" by fastforce
  from Cons.prems(1) obtain mid where mid: "check_repair_file sha lossy flt w a c led = Inr mid"
    "check_repair_files_in sha lossy flt w a changes mid = Inr led'" by auto
  have "ledger_at led' q = ledger_at mid q" using Cons mid(2) by simp
  also have "\<dots> = ledger_at led q" using check_repair_file_at mid(1) Cons.prems(2) unfolding c by force
  finally show ?case .
qed simp

text \<open>A delta over distinct paths is checked file by file against the approval it started from.\<close>

lemma check_repair_files_in_each:
  assumes "check_repair_files_in sha lossy flt w a changes led = Inr led'" "distinct (map fst changes)"
    "(p, proposed) \<in> set changes"
  shows "\<exists>mid. check_repair_file sha lossy flt w a (p, proposed) led = Inr mid \<and>
    ledger_at led' p = ledger_at mid p"
  using assms
proof (induction changes arbitrary: led)
  case (Cons c changes)
  from Cons.prems(1) obtain mid where mid: "check_repair_file sha lossy flt w a c led = Inr mid"
    "check_repair_files_in sha lossy flt w a changes mid = Inr led'" by auto
  show ?case
  proof (cases "c = (p, proposed)")
    case True
    then show ?thesis using mid check_repair_files_in_at [OF mid(2), of p] Cons.prems(2) by auto
  next
    case False
    with Cons.prems have tail: "(p, proposed) \<in> set changes" by simp
    then have "p \<in> fst ` set changes" by force
    with Cons.prems(2) have other: "fst c \<noteq> p" by auto
    from Cons.IH [OF mid(2) _ tail] Cons.prems(2) obtain mid2 where
      mid2: "check_repair_file sha lossy flt w a (p, proposed) mid = Inr mid2" "ledger_at led' p = ledger_at mid2 p"
      by auto
    have "ledger_at mid p = ledger_at led p"
      using check_repair_file_at [of sha lossy flt w a "fst c" "snd c" led mid p] mid(1) other by simp
    from check_repair_file_local [OF this mid2(1)] mid2(2) show ?thesis by auto
  qed
qed simp

lemma check_repair_files_in_total:
  assumes "distinct (map fst changes)"
    and "\<And>p proposed. (p, proposed) \<in> set changes \<Longrightarrow>
      \<exists>mid. check_repair_file sha lossy flt w a (p, proposed) led = Inr mid"
  shows "\<exists>led'. check_repair_files_in sha lossy flt w a changes led = Inr led'"
  using assms
proof (induction changes arbitrary: led)
  case (Cons c changes)
  obtain path proposed where c: "c = (path, proposed)" by fastforce
  from Cons.prems(2) [of path proposed] c obtain mid where
    mid: "check_repair_file sha lossy flt w a (path, proposed) led = Inr mid" by auto
  have "\<exists>m. check_repair_file sha lossy flt w a (q, t) mid = Inr m" if "(q, t) \<in> set changes" for q t
  proof -
    from that Cons.prems(1) c have "q \<noteq> path" by force
    then have "ledger_at led q = ledger_at mid q" using check_repair_file_at [OF mid] by simp
    moreover have "\<exists>m. check_repair_file sha lossy flt w a (q, t) led = Inr m"
      by (rule Cons.prems(2)) (simp add: that)
    ultimately show ?thesis using check_repair_file_local by blast
  qed
  from Cons.IH [OF _ this] Cons.prems(1) mid show ?case by (auto simp: c)
qed simp

lemma check_repair_file_approval:
  "(\<exists>mid. check_repair_file sha lossy flt w a (p, proposed) (approval_ledger a) = Inr mid) \<longleftrightarrow>
     repair_approved sha lossy flt w a p proposed"
  by (auto simp: check_repair_file_iff repair_approved_def known_baseline_def approval_ledger_def)

lemma delta_checked:
  assumes "distinct (map fst changes)"
  shows "(\<exists>led. check_repair_files_in sha lossy flt w a changes (approval_ledger a) = Inr led) \<longleftrightarrow>
    (\<forall>(p, proposed) \<in> set changes. repair_approved sha lossy flt w a p proposed)" (is "?accepted \<longleftrightarrow> ?each")
proof
  assume ?accepted
  then obtain led where led: "check_repair_files_in sha lossy flt w a changes (approval_ledger a) = Inr led" ..
  show ?each
  proof (clarify, unfold check_repair_file_approval [symmetric])
    fix p proposed
    assume "(p, proposed) \<in> set changes"
    from check_repair_files_in_each [OF led assms this]
    show "\<exists>mid. check_repair_file sha lossy flt w a (p, proposed) (approval_ledger a) = Inr mid" by blast
  qed
next
  assume ?each
  then show ?accepted
    by (intro check_repair_files_in_total [OF assms]) (auto simp only: check_repair_file_approval)
qed

lemma delta_ledger_elsewhere:
  assumes "check_repair_delta sha lossy flt w a changes = (r, a')" "p \<notin> fst ` set changes"
  shows "ledger_at (approval_ledger a') p = ledger_at (approval_ledger a) p"
  using assms check_repair_files_in_at [of sha lossy flt w a changes "approval_ledger a" _ p]
  by (auto simp: check_repair_delta_def approval_ledger_def ledger_at_def split: sum.splits)

lemma accepted_delta_authorizes:
  assumes "distinct (map fst changes)" "check_repair_delta sha lossy flt w a changes = (Inr (), a')"
    "(p, proposed) \<in> set changes"
  shows "runtime_repair_path_kind p \<noteq> None \<and>
    (map_of (xa_authorized_repair_hashes a') p = Some (sha (utf8_encode proposed)) \<or>
     map_of (xa_approved_files a) p = Some (sha (utf8_encode proposed)))"
proof -
  from assms(2) obtain led where led: "check_repair_files_in sha lossy flt w a changes (approval_ledger a) = Inr led"
    and a': "xa_authorized_repair_hashes a' = rp_hashes led"
    by (auto simp: check_repair_delta_def split: sum.splits)
  from check_repair_files_in_each [OF led assms(1,3)] obtain mid where
    mid: "check_repair_file sha lossy flt w a (p, proposed) (approval_ledger a) = Inr mid"
    "ledger_at led p = ledger_at mid p" by blast
  from mid(1) obtain kind current where step: "runtime_repair_path_kind p = Some kind"
      "known_baseline sha a p current proposed"
      "mid = record_repair sha kind p current proposed (approval_ledger a)"
    unfolding check_repair_file_iff known_baseline_def approval_ledger_def repair_ledger.simps by blast
  have "map_of (rp_hashes led) p = map_of (rp_hashes mid) p" using mid(2) by (simp add: ledger_at_def)
  moreover have "map_of (rp_hashes mid) p = (if proposed = current
      then map_of (xa_authorized_repair_hashes a) p else Some (sha (utf8_encode proposed)))"
    by (simp add: step(3) record_repair_def approval_ledger_def update_conv')
  ultimately show ?thesis using step(1,2) by (auto simp: a' known_baseline_def)
qed

section \<open>Properties\<close>

text \<open>
  C13: a delta over distinct paths is accepted exactly when every file of it is a
  numerical dictionary or \<^verbatim>\<open>system/controlDict\<close>, its present text is one the approval knows, and a changed
  text keeps every file and entry that implements a requirement and changes \<^verbatim>\<open>controlDict\<close> only within the
  approved numerical limits.  A refused delta leaves the approval as it was; an accepted one changes
  nothing but the three repair maps, and those only at the paths of the delta.
\<close>

theorem repair_delta_contract:
  assumes "distinct (map fst changes)"
    and delta: "check_repair_delta sha lossy flt w a changes = (r, a')"
  shows "(r = Inr () \<longleftrightarrow> (\<forall>(p, proposed) \<in> set changes. repair_approved sha lossy flt w a p proposed)) \<and>
    (r \<noteq> Inr () \<longrightarrow> a' = a) \<and>
    a'\<lparr>xa_authorized_repair_hashes := xa_authorized_repair_hashes a,
       xa_repair_baselines := xa_repair_baselines a,
       xa_authorized_repair_base_hashes := xa_authorized_repair_base_hashes a\<rparr> = a \<and>
    (\<forall>p. p \<notin> fst ` set changes \<longrightarrow> ledger_at (approval_ledger a') p = ledger_at (approval_ledger a) p)"
proof (intro conjI allI impI)
  show "r = Inr () \<longleftrightarrow> (\<forall>(p, proposed) \<in> set changes. repair_approved sha lossy flt w a p proposed)"
    unfolding delta_checked [OF assms(1), symmetric] using delta
    by (auto simp: check_repair_delta_def split: sum.splits)
qed (use delta delta_ledger_elsewhere [OF delta] in
    \<open>auto simp: check_repair_delta_def split: sum.splits\<close>)

text \<open>
  C15: once a delta is accepted, the sealed case whose files are the approved
  ones, earlier authorised ones and exactly the proposed texts of the delta passes the check of the
  repaired files.
\<close>

theorem authorized_delta_passes_seal:
  assumes "distinct (map fst changes)" "check_repair_delta sha lossy flt w a changes = (Inr (), a')"
    and "\<And>p proposed. (p, proposed) \<in> set changes \<Longrightarrow>
      map_of (seal_files sl) p = Some (sha (utf8_encode proposed))"
    and "\<And>p. p \<notin> fst ` set changes \<Longrightarrow> map_of (seal_files sl) p \<noteq> map_of (xa_approved_files a) p \<Longrightarrow>
      repair_file_allowed a (seal_files sl) p"
  shows "check_repair_files a' sl = Inr ()"
proof -
  have same: "xa_approved_files a' = xa_approved_files a"
    using assms(2) by (auto simp: check_repair_delta_def split: sum.splits)
  have allowed: "repair_file_allowed a' (seal_files sl) p"
    if differs: "map_of (seal_files sl) p \<noteq> map_of (xa_approved_files a) p" for p
  proof (cases "p \<in> fst ` set changes")
    case True
    then obtain proposed where member: "(p, proposed) \<in> set changes" by auto
    show ?thesis
      using accepted_delta_authorizes [OF assms(1,2) member] assms(3) [OF member] differs
      by (auto simp: repair_file_allowed_def)
  next
    case False
    from delta_ledger_elsewhere [OF assms(2) this] assms(4) [OF this differs] show ?thesis
      by (simp add: repair_file_allowed_def ledger_at_def approval_ledger_def)
  qed
  have "filter (\<lambda>p. \<not> repair_file_allowed a' (seal_files sl) p)
      (filter (\<lambda>p. map_of (seal_files sl) p \<noteq> map_of (xa_approved_files a') p) ps) = []" for ps
    using allowed by (auto simp: filter_empty_conv same)
  then show ?thesis unfolding check_repair_files_def Let_def by simp
qed

section \<open>A sequence of repairs\<close>

text \<open>
  Repairs are attempted one after another, each against the workspace it finds; an approval is only
  changed by these attempts.
\<close>

fun attempt_deltas ::
  "(string \<Rightarrow> string) \<Rightarrow> (string \<Rightarrow> string) \<Rightarrow> (string \<Rightarrow> rat option) \<Rightarrow>
     (workspace \<times> (string \<times> string) list) list \<Rightarrow> execution_approval \<Rightarrow> execution_approval" where
  "attempt_deltas sha lossy flt [] a = a"
| "attempt_deltas sha lossy flt ((w, changes) # steps) a =
     attempt_deltas sha lossy flt steps (snd (check_repair_delta sha lossy flt w a changes))"

text \<open>Nothing is ever authorised at the path of a whole file that implements a requirement.\<close>

definition frozen_unauthorized :: "execution_approval \<Rightarrow> bool" where
  "frozen_unauthorized a \<longleftrightarrow>
     (\<forall>p \<in> set (xa_protected_repair_files a). map_of (xa_authorized_repair_hashes a) p = None)"

lemma check_repair_files_in_frozen:
  assumes "check_repair_files_in sha lossy flt w a changes led = Inr led'"
    and "p \<in> set (xa_protected_repair_files a)"
  shows "map_of (rp_hashes led') p = map_of (rp_hashes led) p"
  using assms(1)
proof (induction changes arbitrary: led)
  case (Cons c changes)
  obtain path proposed where c: "c = (path, proposed)" by fastforce
  from Cons.prems obtain mid where mid: "check_repair_file sha lossy flt w a (path, proposed) led = Inr mid"
    "check_repair_files_in sha lossy flt w a changes mid = Inr led'" by (auto simp: c)
  have "map_of (rp_hashes mid) p = map_of (rp_hashes led) p"
  proof (cases "p = path")
    case True
    with mid(1) assms(2) show ?thesis
      by (auto simp: check_repair_file_iff content_approved_def record_repair_def)
  next
    case False
    then show ?thesis using check_repair_file_at [OF mid(1)] by (simp add: ledger_at_def)
  qed
  with Cons.IH [OF mid(2)] show ?case by simp
qed simp

lemma check_repair_delta_frozen:
  "frozen_unauthorized a \<Longrightarrow> frozen_unauthorized (snd (check_repair_delta sha lossy flt w a changes))"
  using check_repair_files_in_frozen [of sha lossy flt w a changes "approval_ledger a"]
  by (auto simp: frozen_unauthorized_def check_repair_delta_def approval_ledger_def split: sum.splits)

lemma check_repair_delta_fixed:
  "xa_approved_files (snd (check_repair_delta sha lossy flt w a changes)) = xa_approved_files a"
  "xa_protected_repair_files (snd (check_repair_delta sha lossy flt w a changes)) = xa_protected_repair_files a"
  "check_plan xsha psha (snd (check_repair_delta sha lossy flt w a changes)) = check_plan xsha psha a"
  "xa_execution (snd (check_repair_delta sha lossy flt w a changes)) = xa_execution a"
  "xa_resource_limits (snd (check_repair_delta sha lossy flt w a changes)) = xa_resource_limits a"
  by (auto simp: check_repair_delta_def check_plan_def fun_eq_iff split: sum.splits)

lemma attempt_deltas_fixed:
  "xa_approved_files (attempt_deltas sha lossy flt steps a) = xa_approved_files a"
  "xa_protected_repair_files (attempt_deltas sha lossy flt steps a) = xa_protected_repair_files a"
  "check_plan xsha psha (attempt_deltas sha lossy flt steps a) = check_plan xsha psha a"
  "xa_execution (attempt_deltas sha lossy flt steps a) = xa_execution a"
  "xa_resource_limits (attempt_deltas sha lossy flt steps a) = xa_resource_limits a"
  by (induction steps a rule: attempt_deltas.induct [of _ sha lossy flt])
    (simp_all add: check_repair_delta_fixed)

lemma attempt_deltas_frozen:
  "frozen_unauthorized a \<Longrightarrow> frozen_unauthorized (attempt_deltas sha lossy flt steps a)"
  by (induction steps a rule: attempt_deltas.induct [of _ sha lossy flt])
    (simp_all add: check_repair_delta_frozen)

lemma checked_files_allowed:
  assumes "check_repair_files a sl = Inr ()" "map_of (seal_files sl) p \<noteq> map_of (xa_approved_files a) p"
  shows "repair_file_allowed a (seal_files sl) p"
proof -
  from assms(2) have "p \<in> fst ` set (seal_files sl) \<or> p \<in> fst ` set (xa_approved_files a)"
    by (metis map_of_eq_None_iff)
  with assms show ?thesis
    by (auto simp: check_repair_files_def Let_def filter_empty_conv split: if_splits)
qed

lemma approval_of_issue:
  "xa_approved_files (issue_approval xsha psha plan sl limits) = seal_files sl"
  "xa_protected_repair_files (issue_approval xsha psha plan sl limits) = snd (protected_repair_locations plan)"
  "frozen_unauthorized (issue_approval xsha psha plan sl limits)"
  by (simp_all add: issue_approval_def frozen_unauthorized_def split: prod.split)

text \<open>
  C14: whatever repairs are attempted after an approval was issued, a plan is
  still accepted exactly when its execution, its physical contract and its intake have the approved
  digests; and a seal that passes the check of the repaired files has, at every path that is no
  numerical control and at every file that implements a requirement as a whole, the approved digest.
\<close>

theorem repairs_keep_the_approved_case:
  assumes "a = attempt_deltas sha lossy flt steps (issue_approval xsha psha plan sl limits)"
    and "check_repair_files a sl' = Inr ()"
  shows "(check_plan xsha psha a plan' = Inr () \<longleftrightarrow>
       xsha (execution_document plan') = xsha (execution_document plan) \<and>
       psha (physical_plan_document plan') = psha (physical_plan_document plan) \<and>
       ap_intake_sha256 plan' = ap_intake_sha256 plan) \<and>
    (runtime_repair_path_kind p = None \<or> p \<in> set (snd (protected_repair_locations plan)) \<longrightarrow>
       map_of (seal_files sl') p = map_of (seal_files sl) p)"
proof (intro conjI impI)
  show "check_plan xsha psha a plan' = Inr () \<longleftrightarrow>
       xsha (execution_document plan') = xsha (execution_document plan) \<and>
       psha (physical_plan_document plan') = psha (physical_plan_document plan) \<and>
       ap_intake_sha256 plan' = ap_intake_sha256 plan"
    unfolding assms(1) attempt_deltas_fixed by (auto simp: check_plan_def issue_approval_def split: prod.split)
next
  assume kept: "runtime_repair_path_kind p = None \<or> p \<in> set (snd (protected_repair_locations plan))"
  have approved: "xa_approved_files a = seal_files sl"
      "xa_protected_repair_files a = snd (protected_repair_locations plan)" "frozen_unauthorized a"
    unfolding assms(1) by (simp_all add: attempt_deltas_fixed approval_of_issue attempt_deltas_frozen)
  show "map_of (seal_files sl') p = map_of (seal_files sl) p"
  proof (rule ccontr)
    assume "map_of (seal_files sl') p \<noteq> map_of (seal_files sl) p"
    from checked_files_allowed [OF assms(2), of p] this approved(1)
    have "repair_file_allowed a (seal_files sl') p" by simp
    with kept approved(2,3) show False
      by (auto simp: repair_file_allowed_def frozen_unauthorized_def)
  qed
qed

section \<open>A concrete repair\<close>

definition approved_control :: string where "approved_control = ''deltaT 4; endTime 9;''"
definition reduced_control :: string where "reduced_control = ''deltaT 2; endTime 9;''"

definition solved_case :: workspace where
  "solved_case = \<lparr>ws_files = [([''system'', ''controlDict''], approved_control), ([''constant'', ''g''], ''9'')],
     ws_dirs = [[''system''], [''constant'']], ws_links = [], ws_link_writes = [], ws_authored = [''system/controlDict'', ''constant/g''],
     ws_assets = [], ws_max_file_bytes = 99, ws_max_total_bytes = 999, ws_max_execution_bytes = 999,
     ws_max_execution_files = 9, ws_allowed_libraries = []\<rparr>"

definition seal_with :: "string \<Rightarrow> case_seal" where
  "seal_with control = \<lparr>cs_plan_sha256 = ''p'', cs_manifest_sha256 = control,
     cs_files = [\<lparr>fs_path = ''constant/g'', fs_sha256 = ''9'', fs_size_bytes = 1, fs_origin = Agent\<rparr>,
       \<lparr>fs_path = ''system/controlDict'', fs_sha256 = control, fs_size_bytes = 20, fs_origin = Agent\<rparr>]\<rparr>"

definition solved_plan :: approved_plan where
  "solved_plan = \<lparr>
     ap_plan = \<lparr>plan_solver = ''icoFoam'', plan_solver_provider_id = [], plan_execution = None,
       plan_region_layouts = [], plan_required_case_files = [''system/controlDict'']\<rparr>,
     ap_parallel = \<lparr>pe_mode = ''serial'', pe_ranks = 1, pe_launcher = [], pe_decomposition_method = None,
       pe_reconstruct = False, pe_restart = None\<rparr>,
     ap_intake_sha256 = ''i'',
     ap_fact_bindings = [\<lparr>fb_fact_id = ''gravity'', fb_case_assertions =
       [(''constant/g'', None), (''system/controlDict'', Some ''endTime'')],
       fb_numeric_relation = None, fb_rest = []\<rparr>],
     ap_physical_rest = []\<rparr>"

definition small_float :: "string \<Rightarrow> rat option" where
  "small_float s = map_of [(''2'', 2), (''4'', 4), (''9'', 9)] s"

definition solve_approval :: execution_approval where
  "solve_approval = issue_approval (\<lambda>_. ''x'') (\<lambda>_. ''y'') solved_plan (seal_with approved_control) None"

definition repaired_approval :: execution_approval where
  "repaired_approval = snd (check_repair_delta id id small_float solved_case solve_approval
     [(''system/controlDict'', reduced_control)])"

lemma reduced_delta_accepted:
  "check_repair_delta id id small_float solved_case solve_approval [(''system/controlDict'', reduced_control)] =
     (Inr (), repaired_approval)"
proof -
  let ?r = "check_repair_delta id id small_float solved_case solve_approval
    [(''system/controlDict'', reduced_control)]"
  have "\<not> isl (fst ?r)" by code_simp
  then show ?thesis by (cases "fst ?r") (auto simp: repaired_approval_def prod_eq_iff)
qed

lemma repair_delta_contract_witness:
  "repair_approved id id small_float solved_case solve_approval ''system/controlDict'' reduced_control"
  using repair_delta_contract [OF _ reduced_delta_accepted] by simp

lemma seal_with_lookup:
  "map_of (seal_files (seal_with c)) p = (if p = ''constant/g'' then Some ''9''
     else if p = ''system/controlDict'' then Some c else None)"
  by (simp add: seal_files_def seal_with_def)

lemma utf8_of_reduced: "utf8_encode reduced_control = reduced_control"
  by code_simp

lemma authorized_delta_passes_seal_witness:
  "check_repair_files repaired_approval (seal_with reduced_control) = Inr ()"
  by (rule authorized_delta_passes_seal [OF _ reduced_delta_accepted])
    (auto simp: seal_with_lookup utf8_of_reduced solve_approval_def approval_of_issue split: if_splits)

lemma repairs_keep_the_approved_case_witness:
  "check_plan (\<lambda>_. ''x'') (\<lambda>_. ''y'') repaired_approval solved_plan = Inr () \<and>
   map_of (seal_files (seal_with reduced_control)) ''constant/g'' =
   map_of (seal_files (seal_with approved_control)) ''constant/g''"
proof -
  have attempted: "repaired_approval = attempt_deltas id id small_float
      [(solved_case, [(''system/controlDict'', reduced_control)])]
      (issue_approval (\<lambda>_. ''x'') (\<lambda>_. ''y'') solved_plan (seal_with approved_control) None)"
    by (simp add: repaired_approval_def solve_approval_def)
  have passed: "check_repair_files repaired_approval (seal_with reduced_control) = Inr ()"
    by code_simp
  have "runtime_repair_path_kind ''constant/g'' = None" by code_simp
  with repairs_keep_the_approved_case [OF attempted passed, of solved_plan "''constant/g''"] show ?thesis
    by simp
qed

end
