(* ===== verification/Native_Execution.thy ===== *)
theory Native_Execution
  imports Repair_Approval Native_Contracts Workspace_Safety
begin

text \<open>
  Who may start a native process: the effect of a command line, the ledger of processes, the two
  execution contexts (\<^verbatim>\<open>tools/execution_policy.py\<close>) and the gate of \<open>SafeRunner.run\<close> up to the
  reservation of a process (\<^verbatim>\<open>tools/safe_runner.py\<close>).

  What the operating system answers is the record \<open>machine\<close>: \<open>Path.resolve\<close>, which executables and
  launchers resolve inside the trusted installation, the text of a dictionary, the size of the
  workspace, the isolation back end and the clock.  Spawning the process and reading its output are
  not modelled.
\<close>

section \<open>Effects\<close>

definition help_flags :: "string list" where
  "help_flags = [''-help'', ''-help-full'', ''--help'', ''-version'']"

text \<open>An installation is its list of executables with their categories.\<close>

definition command_effect ::
  "string \<Rightarrow> string list \<Rightarrow> (string \<times> string) list option \<Rightarrow> effect" where
  "command_effect command arguments installation =
     (if arguments \<noteq> [] \<and> list_all (\<lambda>x. x \<in> set help_flags) arguments then Eff_Query
      else if command = ''foamListTimes'' \<and> ''-rm'' \<in> set arguments then Eff_Destructive
      else if command = ''decomposePar'' \<and> ''-force'' \<in> set arguments then Eff_Destructive
      else if command = ''foamDictionary'' \<and>
        list_ex (\<lambda>x. x \<in> {''-set'', ''-remove'', ''-add''}) arguments then Eff_Write
      else case map_of registered_effects command of
        Some eff \<Rightarrow> eff
      | None \<Rightarrow>
          (case installation of
             None \<Rightarrow> Eff_Unknown
           | Some executables \<Rightarrow>
               if list_ex (\<lambda>(name, category). name = command \<and>
                    category \<in> {''execution_driver'', ''solver_application''}) executables
               then Eff_Solve else Eff_Unknown))"

datatype policy_error =
    Engineering_Denied string effect
  | Ledger_Symlink
  | Ledger_Malformed
  | Ledger_Unreadable
  | Budget_Exhausted nat int
  | Cwd_Differs
  | Outside_Bounded_Workspace
  | Serial_Only
  | Validation_Time_Exceeded
  | Validation_Argv_Differs
  | Wrong_Phase
  | Plan_Or_Files_Refused approval_error
  | Seal_Refused workspace_error
  | Limits_Exceeded
  | Ranks_Differ
  | Empty_Command
  | Case_Override_Differs
  | Argv_Differs
  | Unsafe_Timeout
  | Not_Bare string
  | Not_Allowed string
  | Cwd_Escapes
  | Forbidden_Override string
  | Parallel_Without_Mpi
  | Bad_Argument string
  | Parent_Traversal string
  | Argument_Escapes string
  | Untrusted_Executable string
  | Effect_Refused effect string
  | No_Case_Directory
  | No_Runtime_Approval
  | Reconstruction_Refused
  | Bad_Decomposition
  | Launcher_Refused string
  | Limits_Unsupported
  | No_Workspace
  | Ledger_Changed
  | Uncertain_Process
  | Malformed_Row
  | Tree_Quota_Exceeded
  | Wall_Budget_Exhausted
  | Cpu_Budget_Exhausted
  | Cpu_Unaccounted
  | Isolation_Required
  | Output_Budget_Exhausted
  | Isolation_Unavailable
  | Mpi_Refused
  | Validation_Overlap

definition deny_unapproved_engineering_solve ::
  "string \<Rightarrow> string list \<Rightarrow> (string \<times> string) list option \<Rightarrow> policy_error + unit" where
  "deny_unapproved_engineering_solve command arguments installation =
     (let eff = command_effect command arguments installation
      in if eff \<in> {Eff_Solve, Eff_Destructive, Eff_Unknown, Eff_Reconstruction}
         then Inl (Engineering_Denied command eff) else Inr ())"

section \<open>The process ledger\<close>

text \<open>
  A JSON value with one constructor for all numbers.  A row of the ledger is a dictionary: \<open>reserve\<close>
  writes its first six keys, the runner updates it with what it learns of the process.
\<close>

datatype json_value =
    J_Null
  | J_Bool bool
  | J_Num rat
  | J_Str string
  | J_List "json_value list"
  | J_Dict "(string \<times> json_value) list"

type_synonym process_row = "(string \<times> json_value) list"

fun json_number :: "json_value \<Rightarrow> rat option" where
  "json_number (J_Num x) = Some x"
| "json_number (J_Bool b) = Some (if b then 1 else 0)"
| "json_number _ = None"

fun truthy :: "json_value option \<Rightarrow> bool" where
  "truthy None = False"
| "truthy (Some J_Null) = False"
| "truthy (Some (J_Bool b)) = b"
| "truthy (Some (J_Num x)) = (x \<noteq> 0)"
| "truthy (Some (J_Str s)) = (s \<noteq> [])"
| "truthy (Some (J_List xs)) = (xs \<noteq> [])"
| "truthy (Some (J_Dict d)) = (d \<noteq> [])"

text \<open>
  The ledger of a budget: none, a path without a file, a link to a file, or a file with its value.
\<close>

datatype ledger = No_Ledger | Ledger_Absent | Ledger_Link json_value | Ledger_File json_value

record process_budget =
  pb_limit :: int
  pb_records :: "process_row list"
  pb_ledger :: ledger

definition row_has_id :: "process_row \<Rightarrow> nat \<Rightarrow> bool" where
  "row_has_id row n \<longleftrightarrow>
     (case map_of row ''id'' of Some v \<Rightarrow> json_number v = Some (of_nat n) | None \<Rightarrow> False)"

fun sequential_from :: "nat \<Rightarrow> process_row list \<Rightarrow> bool" where
  "sequential_from n [] = True"
| "sequential_from n (row # rows) \<longleftrightarrow> row_has_id row n \<and> sequential_from (Suc n) rows"

fun json_rows :: "json_value list \<Rightarrow> process_row list option" where
  "json_rows [] = Some []"
| "json_rows (J_Dict row # rows) = map_option (\<lambda>rs. row # rs) (json_rows rows)"
| "json_rows _ = None"

definition load_budget :: "int \<Rightarrow> ledger \<Rightarrow> policy_error + process_budget" where
  "load_budget limit led =
     (case led of
        Ledger_Link v \<Rightarrow> Inl Ledger_Symlink
      | Ledger_File (J_Dict payload) \<Rightarrow>
          (case map_of payload ''records'' of
             Some (J_List rows) \<Rightarrow>
               (case json_rows rows of
                  None \<Rightarrow> Inl Ledger_Unreadable
                | Some records \<Rightarrow>
                    if sequential_from 1 records
                    then Inr \<lparr>pb_limit = limit, pb_records = records, pb_ledger = led\<rparr>
                    else Inl Ledger_Malformed)
           | _ \<Rightarrow> Inl Ledger_Malformed)
      | Ledger_File _ \<Rightarrow> Inl Ledger_Unreadable
      | _ \<Rightarrow> Inr \<lparr>pb_limit = limit, pb_records = [], pb_ledger = led\<rparr>)"

definition persist :: "process_budget \<Rightarrow> process_budget" where
  "persist b =
     (if pb_ledger b = No_Ledger then b
      else b\<lparr>pb_ledger := Ledger_File (J_Dict
        [(''limit'', J_Num (of_int (pb_limit b))), (''records'', J_List (map J_Dict (pb_records b)))])\<rparr>)"

definition used :: "process_budget \<Rightarrow> nat" where
  "used b = length (filter (\<lambda>row. map_of row ''pid'' \<notin> {None, Some J_Null}) (pb_records b))"

definition attempts :: "process_budget \<Rightarrow> nat" where
  "attempts b = length (pb_records b)"

definition effect_text :: "effect \<Rightarrow> string" where
  "effect_text eff =
     (case eff of
        Eff_Mesh \<Rightarrow> ''mesh'' | Eff_Initialization \<Rightarrow> ''initialization''
      | Eff_Decomposition \<Rightarrow> ''decomposition'' | Eff_Validation \<Rightarrow> ''validation''
      | Eff_Query \<Rightarrow> ''query'' | Eff_Write \<Rightarrow> ''write'' | Eff_Destructive \<Rightarrow> ''destructive''
      | Eff_Postprocess \<Rightarrow> ''postprocess'' | Eff_Solve \<Rightarrow> ''solve''
      | Eff_Reconstruction \<Rightarrow> ''reconstruction'' | Eff_Unknown \<Rightarrow> ''unknown'')"

definition intent_row :: "nat \<Rightarrow> string list \<Rightarrow> effect \<Rightarrow> rat \<Rightarrow> process_row" where
  "intent_row n command eff now =
     [(''id'', J_Num (of_nat n)), (''command'', J_List (map J_Str command)),
      (''effect'', J_Str (effect_text eff)), (''status'', J_Str ''spawn_intent''), (''pid'', J_Null),
      (''started_unix'', J_Num now)]"

text \<open>The returned number is the position of the new row.\<close>

definition reserve ::
  "string list \<Rightarrow> effect \<Rightarrow> rat \<Rightarrow> process_budget \<Rightarrow> (policy_error + nat) \<times> process_budget" where
  "reserve command eff now b =
     (if int (attempts b) \<ge> pb_limit b then (Inl (Budget_Exhausted (attempts b) (pb_limit b)), b)
      else (Inr (attempts b),
        persist (b\<lparr>pb_records := pb_records b @ [intent_row (attempts b + 1) command eff now]\<rparr>)))"

definition update_row :: "nat \<Rightarrow> process_row \<Rightarrow> process_budget \<Rightarrow> process_budget" where
  "update_row n updates b =
     persist (b\<lparr>pb_records := (pb_records b)[n := fold (\<lambda>(k, v). AList.update k v) updates (pb_records b ! n)]\<rparr>)"

section \<open>Execution contexts\<close>

text \<open>A resolved path is the list of its components; \<open>root in path.parents\<close> is a strict prefix.\<close>

record validation_context =
  vc_expected_command :: "string list"
  vc_case_dir :: "string list"
  vc_workspace_root :: "string list"
  vc_max_wall_seconds :: int

definition validate_shadow ::
  "validation_context \<Rightarrow> string list \<Rightarrow> string list \<Rightarrow> int \<Rightarrow> int \<Rightarrow> policy_error + unit" where
  "validate_shadow ctx command cwd timeout ranks =
     (if cwd \<noteq> vc_case_dir ctx then Inl Cwd_Differs
      else if vc_case_dir ctx = vc_workspace_root ctx \<or>
        \<not> strict_prefix (vc_workspace_root ctx) (vc_case_dir ctx) then Inl Outside_Bounded_Workspace
      else if ranks \<noteq> 1 then Inl Serial_Only
      else if timeout > vc_max_wall_seconds ctx then Inl Validation_Time_Exceeded
      else if command \<noteq> vc_expected_command ctx then Inl Validation_Argv_Differs
      else Inr ())"

datatype exec_phase = Runtime_Phase | Other_Phase string

record execution_context =
  xc_approval :: execution_approval
  xc_plan :: approved_plan
  xc_seal :: case_seal
  xc_workspace :: workspace
  xc_case_dir :: "string list"
  xc_phase :: exec_phase

fun exec_driver_name :: "exec_document \<Rightarrow> string" where
  "exec_driver_name (Exec_Declared ex par) = ex_driver ex"
| "exec_driver_name (Exec_Default solver provider) = ''foamRun''"

text \<open>\<open>str(execution["solver_module"])\<close>: an absent module prints as \<open>None\<close>.\<close>

fun exec_solver_module :: "exec_document \<Rightarrow> string" where
  "exec_solver_module (Exec_Declared ex par) = get_default ''None'' (ex_solver_module ex)"
| "exec_solver_module (Exec_Default solver provider) = solver"

fun exec_arguments :: "exec_document \<Rightarrow> string list" where
  "exec_arguments (Exec_Declared ex par) = ex_arguments ex"
| "exec_arguments (Exec_Default solver provider) = []"

fun exec_ranks :: "exec_document \<Rightarrow> int" where
  "exec_ranks (Exec_Declared ex par) = pe_ranks par"
| "exec_ranks (Exec_Default solver provider) = 1"

fun exec_mpi :: "exec_document \<Rightarrow> (string \<times> string) option" where
  "exec_mpi (Exec_Declared ex par) = Some (pe_mode par, pe_launcher par)"
| "exec_mpi (Exec_Default solver provider) = None"

definition expected_argv :: "exec_document \<Rightarrow> string list" where
  "expected_argv x =
     exec_driver_name x #
     (if exec_driver_name x = ''foamRun'' then [''-solver'', exec_solver_module x] else []) @ exec_arguments x"

fun normalize_argv ::
  "(string \<Rightarrow> string list) \<Rightarrow> string list \<Rightarrow> int \<Rightarrow> string list \<Rightarrow> policy_error + string list" where
  "normalize_argv res cwd ranks [] = Inr []"
| "normalize_argv res cwd ranks (x # xs) =
     (if x = ''-case'' then
        (case xs of
           [] \<Rightarrow> Inl Case_Override_Differs
         | d # ds \<Rightarrow> if res d \<noteq> cwd then Inl Case_Override_Differs else normalize_argv res cwd ranks ds)
      else if x = ''-parallel'' \<and> ranks > 1 then normalize_argv res cwd ranks xs
      else bind_result (normalize_argv res cwd ranks xs) (\<lambda>ys. Inr (x # ys)))"

text \<open>
  The functions the digests are computed with: of texts, of a seal's files, of the two documents and of
  a whole plan.
\<close>

record digests =
  dg_sha :: "string \<Rightarrow> string"
  dg_manifest :: "file_seal list \<Rightarrow> string"
  dg_execution :: "exec_document \<Rightarrow> string"
  dg_physical :: "physical_document \<Rightarrow> string"
  dg_plan :: "approved_plan \<Rightarrow> string"

definition lift_error :: "('e \<Rightarrow> 'f) \<Rightarrow> 'e + 'a \<Rightarrow> 'f + 'a" where
  "lift_error f r = (case r of Inl e \<Rightarrow> Inl (f e) | Inr x \<Rightarrow> Inr x)"

definition validate_approved ::
  "digests \<Rightarrow> (string \<Rightarrow> string list) \<Rightarrow> execution_context \<Rightarrow> string list \<Rightarrow> string list \<Rightarrow> int \<Rightarrow> int \<Rightarrow>
     policy_error + unit" where
  "validate_approved dg res ctx command cwd timeout ranks =
     (let a = xc_approval ctx; limits = xa_resource_limits a; x = xa_execution a
      in if xc_phase ctx \<noteq> Runtime_Phase then Inl Wrong_Phase
         else
           bind_result (lift_error Plan_Or_Files_Refused
             (check_plan (dg_execution dg) (dg_physical dg) a (xc_plan ctx))) (\<lambda>_.
           bind_result (lift_error Plan_Or_Files_Refused (check_repair_files a (xc_seal ctx))) (\<lambda>_.
           bind_result (lift_error Seal_Refused
             (verify_seal (dg_sha dg) (dg_manifest dg) (xc_workspace ctx) (xc_seal ctx)
               (dg_plan dg (xc_plan ctx)))) (\<lambda>_.
             if cwd \<noteq> xc_case_dir ctx then Inl Cwd_Differs
             else if timeout > rl_wall_seconds limits \<or> ranks > rl_max_ranks limits then Inl Limits_Exceeded
             else if ranks \<noteq> exec_ranks x then Inl Ranks_Differ
             else case command of
               [] \<Rightarrow> Inl Empty_Command
             | c # args \<Rightarrow>
                 bind_result (normalize_argv res cwd ranks args) (\<lambda>ys.
                   if c # ys \<noteq> expected_argv x then Inl Argv_Differs else Inr ())))))"

section \<open>The gate of the native runner\<close>

record machine =
  mc_resolve :: "string \<Rightarrow> string list"
  mc_trusted :: "string \<Rightarrow> bool"
  mc_trusted_launcher :: "string \<Rightarrow> bool"
  mc_decompose_dict :: "string list \<Rightarrow> string option"
  mc_posix :: bool
  mc_tree_bytes :: "string list \<Rightarrow> int"
  mc_preflight :: bool
  mc_now :: rat

record safe_runner =
  sr_workspace_root :: "string list option"
  sr_max_timeout :: int
  sr_allowed :: "string list"
  sr_installation :: "(string \<times> string) list"
  sr_limits :: resource_limits
  sr_budget :: process_budget
  sr_execution :: "execution_context option"
  sr_validation :: "validation_context option"
  sr_ranks :: int
  sr_launcher :: "string option"
  sr_isolated :: bool

definition is_within :: "string list \<Rightarrow> string list \<Rightarrow> bool" where
  "is_within path base \<longleftrightarrow> path = base \<or> strict_prefix base path"

text \<open>The working directory, given as resolved by \<open>Path(cwd).expanduser().resolve()\<close>.\<close>

definition validate_cwd :: "safe_runner \<Rightarrow> string list option \<Rightarrow> policy_error + string list option" where
  "validate_cwd r cwd =
     (case (cwd, sr_workspace_root r) of
        (Some d, Some base) \<Rightarrow> if is_within d base then Inr (Some d) else Inl Cwd_Escapes
      | _ \<Rightarrow> Inr cwd)"

definition forbidden_flags :: "string list" where
  "forbidden_flags = [''-root'', ''-roots'', ''-hostRoots'', ''-lib'', ''-libs'', ''--host'', ''-host'', ''-hostfile'']"

fun validate_flags ::
  "machine \<Rightarrow> string list option \<Rightarrow> string option \<Rightarrow> string list \<Rightarrow> policy_error + unit" where
  "validate_flags m cwd launcher [] = Inr ()"
| "validate_flags m cwd launcher (token # rest) =
     (if token \<in> set forbidden_flags \<or>
        list_ex (\<lambda>flag. starts_with token (flag @ ''='')) (forbidden_flags @ [''-case''])
      then Inl (Forbidden_Override token)
      else if token = ''-case'' \<and>
        (rest = [] \<or> (case cwd of None \<Rightarrow> True | Some d \<Rightarrow> mc_resolve m (hd rest) \<noteq> d))
      then Inl Case_Override_Differs
      else if token = ''-parallel'' \<and> launcher = None then Inl Parallel_Without_Mpi
      else validate_flags m cwd launcher rest)"

definition validate_argument ::
  "machine \<Rightarrow> string list option \<Rightarrow> string \<Rightarrow> policy_error + unit" where
  "validate_argument m bound raw =
     (if raw = [] \<or> length raw > 1000 then Inl (Bad_Argument raw)
      else if CHR 0x00 \<in> set raw \<or> CHR 0x0A \<in> set raw \<or> CHR 0x0D \<in> set raw then Inl (Bad_Argument raw)
      else if ''..'' \<in> set (path_parts raw) then Inl (Parent_Traversal raw)
      else if path_root raw \<noteq> [] \<and>
        (case bound of None \<Rightarrow> True | Some base \<Rightarrow> \<not> is_within (mc_resolve m raw) base)
      then Inl (Argument_Escapes raw) else Inr ())"

text \<open>\<open>self.workspace_root or cwd\<close>\<close>

definition bounded_root :: "safe_runner \<Rightarrow> string list option \<Rightarrow> string list option" where
  "bounded_root r cwd = (case sr_workspace_root r of Some base \<Rightarrow> Some base | None \<Rightarrow> cwd)"

definition validate_arguments ::
  "machine \<Rightarrow> safe_runner \<Rightarrow> string list \<Rightarrow> string list option \<Rightarrow> policy_error + unit" where
  "validate_arguments m r args cwd =
     bind_result (validate_flags m cwd (sr_launcher r) args) (\<lambda>_.
       check_all (validate_argument m (bounded_root r cwd)) args)"

text \<open>\<^verbatim>\<open>\bnumberOfSubdomains\s+(\d+)\s*;\<close>: the first match.\<close>

definition subdomains_here :: "string \<Rightarrow> nat option" where
  "subdomains_here s =
     (let after = drop (length ''numberOfSubdomains'') s;
          digits = takeWhile is_digit (dropWhile is_space after);
          rest = dropWhile is_space (dropWhile is_digit (dropWhile is_space after))
      in if starts_with s ''numberOfSubdomains'' \<and> after \<noteq> [] \<and> is_space (hd after) \<and> digits \<noteq> [] \<and>
           starts_with rest '';''
         then Some (foldl (\<lambda>n c. 10 * n + (of_char c - 48)) 0 digits) else None)"

fun find_subdomains :: "char option \<Rightarrow> string \<Rightarrow> nat option" where
  "find_subdomains prev [] = None"
| "find_subdomains prev (c # cs) =
     (if \<not> word_before prev \<and> subdomains_here (c # cs) \<noteq> None then subdomains_here (c # cs)
      else find_subdomains (Some c) cs)"

definition decomposition_ok :: "resource_limits \<Rightarrow> string \<Rightarrow> bool" where
  "decomposition_ok limits dictionary =
     (case find_subdomains None dictionary of
        None \<Rightarrow> False
      | Some n \<Rightarrow> 1 \<le> n \<and> int n \<le> rl_max_ranks limits)"

text \<open>
  What the effect of the command requires.  A dictionary that cannot be read raises, which is refused
  like one without a rank count.
\<close>

definition authorize_effect ::
  "digests \<Rightarrow> machine \<Rightarrow> safe_runner \<Rightarrow> effect \<Rightarrow> string list \<Rightarrow> string list option \<Rightarrow> int \<Rightarrow>
     policy_error + unit" where
  "authorize_effect dg m r eff command cwd timeout =
     (if eff \<in> {Eff_Unknown, Eff_Destructive} then Inl (Effect_Refused eff (hd command))
      else if eff = Eff_Solve then
        (case cwd of
           None \<Rightarrow> Inl No_Case_Directory
         | Some d \<Rightarrow>
             (case (sr_execution r, sr_validation r) of
                (Some ctx, _) \<Rightarrow> validate_approved dg (mc_resolve m) ctx command d timeout (sr_ranks r)
              | (None, Some ctx) \<Rightarrow> validate_shadow ctx command d timeout (sr_ranks r)
              | (None, None) \<Rightarrow> Inl No_Runtime_Approval))
      else if eff = Eff_Reconstruction \<and> sr_execution r = None then Inl Reconstruction_Refused
      else if eff = Eff_Decomposition then
        (case cwd of
           None \<Rightarrow> Inl No_Case_Directory
         | Some d \<Rightarrow>
             (case mc_decompose_dict m d of
                Some dictionary \<Rightarrow>
                  if decomposition_ok (sr_limits r) dictionary then Inr () else Inl Bad_Decomposition
              | None \<Rightarrow> Inl Bad_Decomposition))
      else Inr ())"

text \<open>\<open>sum(row.get(key, 0) for row in records)\<close>, and with \<open>or 0\<close> for a key that may be null.\<close>

fun sum_rows :: "string \<Rightarrow> process_row list \<Rightarrow> policy_error + rat" where
  "sum_rows key [] = Inr 0"
| "sum_rows key (row # rows) =
     (case json_number (get_default (J_Num 0) (map_of row key)) of
        None \<Rightarrow> Inl Malformed_Row
      | Some x \<Rightarrow> bind_result (sum_rows key rows) (\<lambda>y. Inr (x + y)))"

fun sum_rows_or_0 :: "string \<Rightarrow> process_row list \<Rightarrow> policy_error + rat" where
  "sum_rows_or_0 key [] = Inr 0"
| "sum_rows_or_0 key (row # rows) =
     (case (if truthy (map_of row key) then json_number (the (map_of row key)) else Some 0) of
        None \<Rightarrow> Inl Malformed_Row
      | Some x \<Rightarrow> bind_result (sum_rows_or_0 key rows) (\<lambda>y. Inr (x + y)))"

definition in_flight :: "process_row \<Rightarrow> bool" where
  "in_flight row \<longleftrightarrow> map_of row ''status'' \<in> {Some (J_Str ''running''), Some (J_Str ''spawn_intent'')}"

definition cpu_unknown :: "process_row \<Rightarrow> bool" where
  "cpu_unknown row \<longleftrightarrow>
     truthy (map_of row ''pid'') \<and> map_of row ''aggregate_cpu_seconds'' \<in> {None, Some J_Null}"

text \<open>
  The records of the ledger file, \<open>json.loads(...)["records"]\<close>, read through a link as well.  A file
  without readable records raises, which is refused like a ledger that changed.
\<close>

definition fresh_records :: "ledger \<Rightarrow> json_value option" where
  "fresh_records led =
     (case led of
        Ledger_File (J_Dict payload) \<Rightarrow> map_of payload ''records''
      | Ledger_Link (J_Dict payload) \<Rightarrow> map_of payload ''records''
      | _ \<Rightarrow> None)"

definition ledger_current :: "process_budget \<Rightarrow> bool" where
  "ledger_current b \<longleftrightarrow>
     pb_ledger b \<in> {No_Ledger, Ledger_Absent} \<or> fresh_records (pb_ledger b) = Some (J_List (map J_Dict (pb_records b)))"

definition check_quotas :: "machine \<Rightarrow> safe_runner \<Rightarrow> string list \<Rightarrow> policy_error + rat" where
  "check_quotas m r base =
     (let rows = pb_records (sr_budget r); limits = sr_limits r
      in if \<not> ledger_current (sr_budget r) then Inl Ledger_Changed
         else if list_ex in_flight rows then Inl Uncertain_Process
         else if mc_tree_bytes m base > rl_max_case_bytes limits then Inl Tree_Quota_Exceeded
         else bind_result (sum_rows ''wall_seconds'' rows) (\<lambda>wall.
           bind_result (sum_rows_or_0 ''aggregate_cpu_seconds'' rows) (\<lambda>cpu.
             if wall \<ge> rl_total_wall_seconds limits then Inl Wall_Budget_Exhausted
             else if (case rl_total_cpu_seconds limits of None \<Rightarrow> False | Some t \<Rightarrow> cpu \<ge> t)
             then Inl Cpu_Budget_Exhausted
             else if rl_total_cpu_seconds limits \<noteq> None \<and> list_ex cpu_unknown rows then Inl Cpu_Unaccounted
             else if rl_total_cpu_seconds limits \<noteq> None \<and> \<not> sr_isolated r then Inl Isolation_Required
             else bind_result (sum_rows ''output_bytes'' rows) (\<lambda>out.
               if out \<ge> of_int (rl_max_total_output_bytes limits) then Inl Output_Budget_Exhausted
               else if sr_isolated r \<and> \<not> mc_preflight m then Inl Isolation_Unavailable
               else Inr wall))))"

text \<open>
  Everything \<open>run\<close> decides before a process is created: an error, or the position of the reserved row and
  the time the process gets.
\<close>

definition gate ::
  "digests \<Rightarrow> machine \<Rightarrow> safe_runner \<Rightarrow> string list \<Rightarrow> string list option \<Rightarrow> int \<Rightarrow> policy_error + string list \<times> rat"
where
  "gate dg m r command cwd timeout =
     (case command of
        [] \<Rightarrow> Inl Empty_Command
      | raw_exe # args \<Rightarrow>
          if timeout \<le> 0 \<or> timeout > sr_max_timeout r then Inl Unsafe_Timeout
          else if raw_exe \<noteq> path_name raw_exe then Inl (Not_Bare raw_exe)
          else if raw_exe \<notin> set (sr_allowed r) then Inl (Not_Allowed raw_exe)
          else bind_result (validate_cwd r cwd) (\<lambda>dir.
            bind_result (validate_arguments m r args dir) (\<lambda>_.
            if \<not> mc_trusted m raw_exe then Inl (Untrusted_Executable raw_exe)
            else bind_result (authorize_effect dg m r
                (command_effect raw_exe args (Some (sr_installation r))) command dir timeout) (\<lambda>_.
              if (case sr_launcher r of None \<Rightarrow> False | Some l \<Rightarrow> \<not> mc_trusted_launcher m l)
              then Inl (Launcher_Refused (the (sr_launcher r)))
              else if \<not> mc_posix m \<and> (rl_cpu_seconds (sr_limits r) \<notin> {None, Some 0} \<or>
                rl_memory_bytes (sr_limits r) \<notin> {None, Some 0}) then Inl Limits_Unsupported
              else case bounded_root r dir of
                None \<Rightarrow> Inl No_Workspace
              | Some base \<Rightarrow>
                  bind_result (check_quotas m r base) (\<lambda>wall.
                    Inr (base, min (of_int timeout) (rl_total_wall_seconds (sr_limits r) - wall)))))))"

definition run_native ::
  "digests \<Rightarrow> machine \<Rightarrow> safe_runner \<Rightarrow> string list \<Rightarrow> string list option \<Rightarrow> int \<Rightarrow>
     (policy_error + nat \<times> rat) \<times> safe_runner" where
  "run_native dg m r command cwd timeout =
     (case gate dg m r command cwd timeout of
        Inl e \<Rightarrow> (Inl e, r)
      | Inr (base, seconds) \<Rightarrow>
          (case reserve command (command_effect (hd command) (tl command) (Some (sr_installation r)))
              (mc_now m) (sr_budget r) of
             (Inl e, b) \<Rightarrow> (Inl e, r\<lparr>sr_budget := b\<rparr>)
           | (Inr n, b) \<Rightarrow> (Inr (n, seconds), r\<lparr>sr_budget := b\<rparr>)))"

section \<open>Scopes of the runner\<close>

definition min_option :: "'a::linorder option \<Rightarrow> 'a option \<Rightarrow> 'a option" where
  "min_option a b = (case (a, b) of (None, _) \<Rightarrow> b | (_, None) \<Rightarrow> a | (Some x, Some y) \<Rightarrow> Some (min x y))"

definition min_limits :: "resource_limits \<Rightarrow> resource_limits \<Rightarrow> resource_limits" where
  "min_limits a b =
     \<lparr>rl_max_native_processes = min (rl_max_native_processes a) (rl_max_native_processes b),
      rl_wall_seconds = min (rl_wall_seconds a) (rl_wall_seconds b),
      rl_cpu_seconds = min_option (rl_cpu_seconds a) (rl_cpu_seconds b),
      rl_memory_bytes = min_option (rl_memory_bytes a) (rl_memory_bytes b),
      rl_max_output_bytes = min (rl_max_output_bytes a) (rl_max_output_bytes b),
      rl_max_case_bytes = min (rl_max_case_bytes a) (rl_max_case_bytes b),
      rl_max_ranks = min (rl_max_ranks a) (rl_max_ranks b),
      rl_max_processes = min (rl_max_processes a) (rl_max_processes b),
      rl_cpu_cores = min (rl_cpu_cores a) (rl_cpu_cores b),
      rl_total_cpu_seconds = min_option (rl_total_cpu_seconds a) (rl_total_cpu_seconds b),
      rl_total_wall_seconds = min (rl_total_wall_seconds a) (rl_total_wall_seconds b),
      rl_max_total_output_bytes = min (rl_max_total_output_bytes a) (rl_max_total_output_bytes b)\<rparr>"

text \<open>
  The two context managers: the body is a function on the runner, and the fields are restored whether it
  raises or not.
\<close>

definition validation_execution ::
  "validation_context \<Rightarrow> (safe_runner \<Rightarrow> (policy_error + 'a) \<times> safe_runner) \<Rightarrow> safe_runner \<Rightarrow>
     (policy_error + 'a) \<times> safe_runner" where
  "validation_execution ctx body r =
     (if sr_execution r \<noteq> None then (Inl Validation_Overlap, r)
      else let (x, r') = body (r\<lparr>sr_validation := Some ctx\<rparr>) in (x, r'\<lparr>sr_validation := sr_validation r\<rparr>))"

definition approved_execution ::
  "execution_context \<Rightarrow> (safe_runner \<Rightarrow> (policy_error + 'a) \<times> safe_runner) \<Rightarrow> safe_runner \<Rightarrow>
     (policy_error + 'a) \<times> safe_runner" where
  "approved_execution ctx body r =
     (let limits = min_limits (sr_limits r) (xa_resource_limits (xc_approval ctx));
          limit = min (pb_limit (sr_budget r)) (rl_max_native_processes limits);
          (x, r') = body (r\<lparr>sr_limits := limits, sr_budget := (sr_budget r)\<lparr>pb_limit := limit\<rparr>,
                            sr_execution := Some ctx\<rparr>)
      in (x, r'\<lparr>sr_execution := sr_execution r, sr_limits := sr_limits r,
               sr_budget := (sr_budget r')\<lparr>pb_limit := pb_limit (sr_budget r)\<rparr>\<rparr>))"

definition run_mpi ::
  "digests \<Rightarrow> machine \<Rightarrow> safe_runner \<Rightarrow> string list \<Rightarrow> int \<Rightarrow> string \<Rightarrow> string list option \<Rightarrow> int \<Rightarrow>
     (policy_error + nat \<times> rat) \<times> safe_runner" where
  "run_mpi dg m r command ranks launcher cwd timeout =
     (case sr_execution r of
        None \<Rightarrow> (Inl Mpi_Refused, r)
      | Some ctx \<Rightarrow>
          if ranks < 2 then (Inl Mpi_Refused, r)
          else if exec_mpi (xa_execution (xc_approval ctx)) \<noteq> Some (''local_mpi'', launcher)
          then (Inl Mpi_Refused, r)
          else let (x, r') = run_native dg m (r\<lparr>sr_ranks := ranks, sr_launcher := Some launcher\<rparr>)
                     (command @ [''-parallel'']) cwd timeout
               in (x, r'\<lparr>sr_ranks := sr_ranks r, sr_launcher := sr_launcher r\<rparr>))"

section \<open>Argument vectors\<close>

text \<open>The flags the controller adds are the case directory and the switch of a parallel run.\<close>

fun drop_overrides :: "bool \<Rightarrow> string list \<Rightarrow> string list" where
  "drop_overrides mpi [] = []"
| "drop_overrides mpi (x # xs) =
     (if x = ''-case'' then drop_overrides mpi (tl xs)
      else if x = ''-parallel'' \<and> mpi then drop_overrides mpi xs else x # drop_overrides mpi xs)"

fun case_overrides :: "string list \<Rightarrow> string option list" where
  "case_overrides [] = []"
| "case_overrides (x # xs) =
     (if x = ''-case'' then (if xs = [] then None else Some (hd xs)) # case_overrides (tl xs)
      else case_overrides xs)"

lemma normalize_argv_iff:
  "normalize_argv res cwd ranks xs = Inr ys \<longleftrightarrow>
     ys = drop_overrides (1 < ranks) xs \<and> (\<forall>d \<in> set (case_overrides xs). map_option res d = Some cwd)"
proof (induction "1 < ranks" xs arbitrary: ys rule: drop_overrides.induct)
  case (2 x xs)
  show ?case
  proof (cases "x = ''-case''")
    case True
    then show ?thesis using 2(1) [OF True, of ys] by (cases xs) auto
  next
    case False
    then show ?thesis using 2(2) [OF False] 2(3) [OF False] by (cases "x = ''-parallel'' \<and> 1 < ranks") auto
  qed
qed auto

lemma lift_error_Inr [simp]: "lift_error f r = Inr x \<longleftrightarrow> r = Inr x"
  by (cases r) (simp_all add: lift_error_def)

text \<open>What an approved calculation is: the contract of \<open>ExecutionContext.validate\<close>.\<close>

definition approved_calculation ::
  "digests \<Rightarrow> (string \<Rightarrow> string list) \<Rightarrow> execution_context \<Rightarrow> string list \<Rightarrow> string list \<Rightarrow> int \<Rightarrow> int \<Rightarrow> bool" where
  "approved_calculation dg res ctx command cwd timeout ranks \<longleftrightarrow>
     xc_phase ctx = Runtime_Phase \<and>
     check_plan (dg_execution dg) (dg_physical dg) (xc_approval ctx) (xc_plan ctx) = Inr () \<and>
     check_repair_files (xc_approval ctx) (xc_seal ctx) = Inr () \<and>
     verify_seal (dg_sha dg) (dg_manifest dg) (xc_workspace ctx) (xc_seal ctx) (dg_plan dg (xc_plan ctx)) = Inr () \<and>
     cwd = xc_case_dir ctx \<and>
     timeout \<le> rl_wall_seconds (xa_resource_limits (xc_approval ctx)) \<and>
     ranks \<le> rl_max_ranks (xa_resource_limits (xc_approval ctx)) \<and>
     ranks = exec_ranks (xa_execution (xc_approval ctx)) \<and> command \<noteq> [] \<and>
     hd command # drop_overrides (1 < ranks) (tl command) = expected_argv (xa_execution (xc_approval ctx)) \<and>
     (\<forall>d \<in> set (case_overrides (tl command)). map_option res d = Some cwd)"

lemma validate_approved_iff:
  "validate_approved dg res ctx command cwd timeout ranks = Inr () \<longleftrightarrow>
     approved_calculation dg res ctx command cwd timeout ranks"
proof (cases command)
  case Nil
  then show ?thesis by (simp add: validate_approved_def approved_calculation_def Let_def)
next
  case (Cons c args)
  show ?thesis
    by (auto simp: Cons validate_approved_def approved_calculation_def Let_def normalize_argv_iff not_less)
qed

section \<open>Limits inside an approved execution\<close>

lemma min_option_le:
  "min_option a b = Some x \<Longrightarrow> a = Some y \<Longrightarrow> x \<le> y"
  "min_option a b = Some x \<Longrightarrow> b = Some y \<Longrightarrow> x \<le> y"
  by (auto simp: min_option_def split: option.splits)

text \<open>The limits inside an approved execution are valid limits and no wider than either side.\<close>

lemma min_among: "P x \<Longrightarrow> P y \<Longrightarrow> P (min x y)"
  by (simp add: min_def)

lemma min_option_among:
  "case_option True P a \<Longrightarrow> case_option True P b \<Longrightarrow> case_option True P (min_option a b)"
  by (cases a; cases b) (simp_all add: min_option_def min_among)

lemma in_range_min: "in_range lo hi x \<Longrightarrow> in_range lo hi y \<Longrightarrow> in_range lo hi (min x y)"
  by (simp add: in_range_def min_def)

lemma min_limits_ok:
  assumes "limits_ok a" "limits_ok b"
  shows "limits_ok (min_limits a b)"
  using assms unfolding limits_ok_def min_limits_def resource_limits.simps
  by (elim conjE, intro conjI min_option_among)
    (simp_all add: in_range_min min_le_iff_disj)

section \<open>What a started process satisfies\<close>

lemma validate_cwd_Inr:
  "validate_cwd r cwd = Inr dir \<Longrightarrow> dir = cwd \<and>
     (\<forall>d base. cwd = Some d \<longrightarrow> sr_workspace_root r = Some base \<longrightarrow> is_within d base)"
  by (auto simp: validate_cwd_def split: option.splits if_splits)

lemma validate_flags_Inr:
  assumes "validate_flags m cwd launcher args = Inr ()"
  shows "set args \<inter> set forbidden_flags = {} \<and> (''-parallel'' \<in> set args \<longrightarrow> launcher \<noteq> None) \<and>
    (\<forall>xs d ys. args = xs @ ''-case'' # d # ys \<longrightarrow> cwd = Some (mc_resolve m d))"
  using assms
proof (induction args)
  case (Cons token rest)
  then have rest: "validate_flags m cwd launcher rest = Inr ()" and
    flag: "token \<notin> set forbidden_flags" "token = ''-parallel'' \<longrightarrow> launcher \<noteq> None" and
    override: "token = ''-case'' \<Longrightarrow> rest \<noteq> [] \<and> cwd = Some (mc_resolve m (hd rest))"
    by (auto split: if_splits option.splits)
  have "cwd = Some (mc_resolve m d)" if "token # rest = xs @ ''-case'' # d # ys" for xs d ys
    using that override Cons.IH [OF rest] by (cases xs) auto
  with Cons.IH [OF rest] flag show ?case by auto
qed simp

definition argument_confined :: "machine \<Rightarrow> string list option \<Rightarrow> string \<Rightarrow> bool" where
  "argument_confined m bound raw \<longleftrightarrow>
     raw \<noteq> [] \<and> length raw \<le> 1000 \<and> ''..'' \<notin> set (path_parts raw) \<and>
     (path_root raw \<noteq> [] \<longrightarrow> (\<exists>base. bound = Some base \<and> is_within (mc_resolve m raw) base))"

lemma validate_argument_Inr: "validate_argument m bound raw = Inr () \<Longrightarrow> argument_confined m bound raw"
  by (auto simp: validate_argument_def argument_confined_def split: if_splits option.splits)

text \<open>What the gate grants to a command of each effect.\<close>

definition effect_authorized ::
  "digests \<Rightarrow> machine \<Rightarrow> safe_runner \<Rightarrow> effect \<Rightarrow> string list \<Rightarrow> string list option \<Rightarrow> int \<Rightarrow> bool" where
  "effect_authorized dg m r eff command cwd timeout \<longleftrightarrow>
     (case eff of
        Eff_Unknown \<Rightarrow> False
      | Eff_Destructive \<Rightarrow> False
      | Eff_Solve \<Rightarrow>
          (\<exists>d. cwd = Some d \<and>
             (case sr_execution r of
                Some ctx \<Rightarrow> approved_calculation dg (mc_resolve m) ctx command d timeout (sr_ranks r)
              | None \<Rightarrow>
                  (\<exists>ctx. sr_validation r = Some ctx \<and> command = vc_expected_command ctx \<and>
                     d = vc_case_dir ctx \<and> strict_prefix (vc_workspace_root ctx) d \<and> sr_ranks r = 1 \<and>
                     timeout \<le> vc_max_wall_seconds ctx)))
      | Eff_Reconstruction \<Rightarrow> sr_execution r \<noteq> None
      | Eff_Decomposition \<Rightarrow>
          (\<exists>d dictionary n. cwd = Some d \<and> mc_decompose_dict m d = Some dictionary \<and>
             find_subdomains None dictionary = Some n \<and> 1 \<le> n \<and> int n \<le> rl_max_ranks (sr_limits r))
      | _ \<Rightarrow> True)"

lemma validate_shadow_Inr:
  "validate_shadow ctx command cwd timeout ranks = Inr () \<longleftrightarrow>
     command = vc_expected_command ctx \<and> cwd = vc_case_dir ctx \<and>
     strict_prefix (vc_workspace_root ctx) cwd \<and> ranks = 1 \<and> timeout \<le> vc_max_wall_seconds ctx"
  by (auto simp: validate_shadow_def)

lemma authorize_effect_iff:
  "authorize_effect dg m r eff command cwd timeout = Inr () \<longleftrightarrow>
     effect_authorized dg m r eff command cwd timeout"
proof (cases eff)
  case Eff_Solve
  then show ?thesis
    by (cases cwd; cases "sr_execution r"; cases "sr_validation r")
      (simp_all add: authorize_effect_def effect_authorized_def validate_approved_iff validate_shadow_Inr)
next
  case Eff_Decomposition
  then show ?thesis
    by (cases cwd) (auto simp: authorize_effect_def effect_authorized_def decomposition_ok_def
        split: option.splits)
qed (simp_all add: authorize_effect_def effect_authorized_def)

lemma check_quotas_Inr:
  assumes "check_quotas m r base = Inr wall"
  shows "sum_rows ''wall_seconds'' (pb_records (sr_budget r)) = Inr wall \<and>
    wall < rl_total_wall_seconds (sr_limits r) \<and>
    list_all (\<lambda>row. \<not> in_flight row) (pb_records (sr_budget r)) \<and> ledger_current (sr_budget r) \<and>
    mc_tree_bytes m base \<le> rl_max_case_bytes (sr_limits r)"
  using assms unfolding check_quotas_def Let_def
  by (auto simp: not_le list_ex_iff list_all_iff split: if_splits)

lemma gate_Inr:
  assumes "gate dg m r command cwd timeout = Inr (base, seconds)"
  shows "command \<noteq> [] \<and> 0 < timeout \<and> timeout \<le> sr_max_timeout r \<and> hd command = path_name (hd command) \<and>
    hd command \<in> set (sr_allowed r) \<and> mc_trusted m (hd command) \<and> validate_cwd r cwd = Inr cwd \<and>
    validate_arguments m r (tl command) cwd = Inr () \<and>
    effect_authorized dg m r (command_effect (hd command) (tl command) (Some (sr_installation r)))
      command cwd timeout \<and>
    (\<exists>wall. check_quotas m r base = Inr wall \<and>
      seconds = min (of_int timeout) (rl_total_wall_seconds (sr_limits r) - wall))"
proof (cases command)
  case Nil
  with assms show ?thesis by (simp add: gate_def)
next
  case (Cons c args)
  from assms have g: "gate dg m r (c # args) cwd timeout = Inr (base, seconds)" by (simp add: Cons)
  have early: "\<not> (timeout \<le> 0 \<or> timeout > sr_max_timeout r)" "c = path_name c" "c \<in> set (sr_allowed r)"
    using g by (auto simp: gate_def split: if_splits)
  from g early obtain dir where dir: "validate_cwd r cwd = Inr dir" "validate_arguments m r args dir = Inr ()"
    and trusted: "mc_trusted m c"
    and eff: "authorize_effect dg m r (command_effect c args (Some (sr_installation r))) (c # args) dir timeout = Inr ()"
    and rest: "\<exists>wall. check_quotas m r base = Inr wall \<and>
      seconds = min (of_int timeout) (rl_total_wall_seconds (sr_limits r) - wall)"
    unfolding gate_def by (auto split: if_splits option.splits)
  from validate_cwd_Inr [OF dir(1)] have "dir = cwd" by simp
  with dir trusted eff rest early show ?thesis
    by (simp add: Cons authorize_effect_iff)
qed

lemma reserve_Inr:
  "reserve command eff now b = (Inr n, b') \<longleftrightarrow>
     n = attempts b \<and> int n < pb_limit b \<and>
     b' = persist (b\<lparr>pb_records := pb_records b @ [intent_row (attempts b + 1) command eff now]\<rparr>)"
  by (auto simp: reserve_def not_le)

lemma run_native_Inr:
  assumes "run_native dg m r command cwd timeout = (Inr (n, seconds), r')"
  shows "\<exists>base b'. gate dg m r command cwd timeout = Inr (base, seconds) \<and>
    reserve command (command_effect (hd command) (tl command) (Some (sr_installation r))) (mc_now m)
      (sr_budget r) = (Inr n, b') \<and> r' = r\<lparr>sr_budget := b'\<rparr>"
  using assms unfolding run_native_def by (auto split: sum.splits prod.splits)

lemma run_native_Inl: "run_native dg m r command cwd timeout = (Inl e, r') \<Longrightarrow> r' = r"
  by (auto simp: run_native_def reserve_def split: sum.splits prod.splits if_splits)

section \<open>Properties\<close>

text \<open>
  C11: a run that is refused leaves the runner as it was.  A run that starts a process
  has a bare, allowed and trusted executable, a working directory and absolute arguments inside the
  workspace and no host, library or root override; its effect is authorised, which for a solver means
  the approved calculation or exactly the serial shadow command of the validation context; no earlier
  process is in flight, and the process is the next row of the ledger, within the number of processes
  and within what is left of the total time.
\<close>

theorem native_gate_contract:
  assumes "run_native dg m r command cwd timeout = (x, r')"
  shows "case x of
      Inl e \<Rightarrow> r' = r
    | Inr (n, seconds) \<Rightarrow>
        command \<noteq> [] \<and> hd command \<in> set (sr_allowed r) \<and> mc_trusted m (hd command) \<and>
        (\<forall>d base. cwd = Some d \<longrightarrow> sr_workspace_root r = Some base \<longrightarrow> is_within d base) \<and>
        (\<forall>a \<in> set (tl command). argument_confined m (bounded_root r cwd) a) \<and>
        set (tl command) \<inter> set forbidden_flags = {} \<and>
        effect_authorized dg m r (command_effect (hd command) (tl command) (Some (sr_installation r)))
          command cwd timeout \<and>
        list_all (\<lambda>row. \<not> in_flight row) (pb_records (sr_budget r)) \<and>
        n = attempts (sr_budget r) \<and> int n < pb_limit (sr_budget r) \<and>
        pb_records (sr_budget r') = pb_records (sr_budget r) @
          [intent_row (n + 1) command (command_effect (hd command) (tl command) (Some (sr_installation r))) (mc_now m)] \<and>
        (\<exists>wall. sum_rows ''wall_seconds'' (pb_records (sr_budget r)) = Inr wall \<and>
          seconds \<le> of_int timeout \<and> wall + seconds \<le> rl_total_wall_seconds (sr_limits r))"
proof (cases x)
  case (Inl e)
  then show ?thesis using assms run_native_Inl by simp
next
  case (Inr p)
  obtain n seconds where p: "p = (n, seconds)" by fastforce
  from run_native_Inr [OF assms [unfolded Inr p]] obtain base b' where
    g: "gate dg m r command cwd timeout = Inr (base, seconds)" and
    res: "reserve command (command_effect (hd command) (tl command) (Some (sr_installation r))) (mc_now m)
      (sr_budget r) = (Inr n, b')" and r': "r' = r\<lparr>sr_budget := b'\<rparr>" by blast
  from gate_Inr [OF g] obtain wall where wall: "check_quotas m r base = Inr wall"
      "seconds = min (of_int timeout) (rl_total_wall_seconds (sr_limits r) - wall)" by blast
  have args: "validate_flags m cwd (sr_launcher r) (tl command) = Inr ()"
      "\<forall>a \<in> set (tl command). argument_confined m (bounded_root r cwd) a"
    using gate_Inr [OF g] validate_argument_Inr by (auto simp: validate_arguments_def check_all_iff)
  have records: "n = attempts (sr_budget r)" "int n < pb_limit (sr_budget r)"
      "pb_records b' = pb_records (sr_budget r) @
        [intent_row (n + 1) command (command_effect (hd command) (tl command) (Some (sr_installation r))) (mc_now m)]"
    using res by (auto simp: reserve_Inr persist_def)
  show ?thesis
    unfolding Inr p using gate_Inr [OF g] args records check_quotas_Inr [OF wall(1)] wall(2)
      validate_cwd_Inr [of r cwd cwd] validate_flags_Inr [OF args(1)]
    by (simp add: r' min_le_iff_disj)
qed

text \<open>
  C4: when no other document has the digest of the approved execution, a solver process under
  an approval that was issued for a plan and then only offered repairs runs in the sealed case
  directory, within the approved time, with the approved number of ranks and, up to the case and
  parallel flags of the controller, with exactly the argument vector of the approved plan; the sealed
  files it reads are those the user approved wherever a repair has no authority.
\<close>

theorem solver_runs_as_approved:
  assumes "run_native dg m r command cwd timeout = (Inr (n, seconds), r')"
    and "command_effect (hd command) (tl command) (Some (sr_installation r)) = Eff_Solve"
    and "sr_execution r = Some ctx"
    and "\<And>x. dg_execution dg x = dg_execution dg (execution_document plan) \<Longrightarrow> x = execution_document plan"
    and "xc_approval ctx = attempt_deltas sha lossy flt steps
      (issue_approval (dg_execution dg) (dg_physical dg) plan sl limits)"
  shows "cwd = Some (xc_case_dir ctx) \<and>
    timeout \<le> rl_wall_seconds (get_default default_limits limits) \<and>
    sr_ranks r = exec_ranks (execution_document plan) \<and>
    hd command # drop_overrides (1 < sr_ranks r) (tl command) = expected_argv (execution_document plan) \<and>
    (\<forall>d \<in> set (case_overrides (tl command)). map_option (mc_resolve m) d = cwd) \<and>
    execution_document (xc_plan ctx) = execution_document plan \<and>
    verify_seal (dg_sha dg) (dg_manifest dg) (xc_workspace ctx) (xc_seal ctx) (dg_plan dg (xc_plan ctx)) = Inr () \<and>
    (\<forall>p. runtime_repair_path_kind p = None \<or> p \<in> set (snd (protected_repair_locations plan)) \<longrightarrow>
       map_of (seal_files (xc_seal ctx)) p = map_of (seal_files sl) p)"
proof -
  from run_native_Inr [OF assms(1)] obtain base where
    g: "gate dg m r command cwd timeout = Inr (base, seconds)" by blast
  have "effect_authorized dg m r Eff_Solve command cwd timeout"
    using gate_Inr [OF g] by (simp add: assms(2))
  then obtain d where d: "cwd = Some d"
    "approved_calculation dg (mc_resolve m) ctx command d timeout (sr_ranks r)"
    by (auto simp: effect_authorized_def assms(3))
  have plan: "xa_execution (xc_approval ctx) = execution_document plan"
      "xa_resource_limits (xc_approval ctx) = get_default default_limits limits"
    unfolding assms(5) attempt_deltas_fixed by (simp_all add: issue_approval_def split: prod.split)
  note calc = d(2) [unfolded approved_calculation_def plan]
  note kept = repairs_keep_the_approved_case [OF assms(5), of "xc_seal ctx" "xc_plan ctx"]
  have "execution_document (xc_plan ctx) = execution_document plan"
    using calc kept by (intro assms(4)) blast
  with calc kept show ?thesis by (auto simp: d(1))
qed

section \<open>The ledger over a whole session\<close>

text \<open>
  What happens to a budget with a ledger: a reservation attempt, an update of a row that keeps its
  number, a narrower or restored limit of an approved execution (never above the limit the runner was
  created with), and a restart that reads the ledger back.
\<close>

inductive budget_step :: "int \<Rightarrow> process_budget \<Rightarrow> process_budget \<Rightarrow> bool" for limit where
  reserving: "budget_step limit b (snd (reserve command eff now b))"
| updating: "n < attempts b \<Longrightarrow> ''id'' \<notin> fst ` set updates \<Longrightarrow> budget_step limit b (update_row n updates b)"
| scoping: "l \<le> limit \<Longrightarrow> budget_step limit b (b\<lparr>pb_limit := l\<rparr>)"
| restarting: "load_budget limit (pb_ledger b) = Inr b' \<Longrightarrow> budget_step limit b b'"

inductive budget_reachable :: "int \<Rightarrow> process_budget \<Rightarrow> bool" for limit where
  opened: "load_budget limit Ledger_Absent = Inr b \<Longrightarrow> budget_reachable limit b"
| stepped: "budget_reachable limit b \<Longrightarrow> budget_step limit b b' \<Longrightarrow> budget_reachable limit b'"

text \<open>The ledger file always holds the rows of the budget, and the rows are numbered from one.\<close>

definition budget_inv :: "int \<Rightarrow> process_budget \<Rightarrow> bool" where
  "budget_inv limit b \<longleftrightarrow>
     pb_limit b \<le> limit \<and> int (attempts b) \<le> max 0 limit \<and> sequential_from 1 (pb_records b) \<and>
     (pb_ledger b = Ledger_Absent \<and> pb_records b = [] \<or>
      (\<exists>l. pb_ledger b = Ledger_File (J_Dict
         [(''limit'', l), (''records'', J_List (map J_Dict (pb_records b)))])))"

lemma sequential_from_append:
  "sequential_from n (xs @ ys) \<longleftrightarrow> sequential_from n xs \<and> sequential_from (n + length xs) ys"
  by (induction xs arbitrary: n) auto

lemma sequential_from_nth:
  "sequential_from n xs \<longleftrightarrow> (\<forall>i < length xs. row_has_id (xs ! i) (n + i))"
proof (induction xs arbitrary: n)
  case (Cons x xs)
  then show ?case by (simp add: All_less_Suc2)
qed simp

lemma json_rows_map: "json_rows (map J_Dict rows) = Some rows"
  by (induction rows) auto

lemma row_has_id_intent: "row_has_id (intent_row n command eff now) n"
  by (simp add: row_has_id_def intent_row_def)

lemma map_of_updates_other:
  "k \<notin> fst ` set updates \<Longrightarrow> map_of (fold (\<lambda>(k, v). AList.update k v) updates row) k = map_of row k"
  by (induction updates arbitrary: row) (auto simp: update_conv')

lemma persisted:
  "pb_ledger b \<noteq> No_Ledger \<Longrightarrow> persist b = b\<lparr>pb_ledger := Ledger_File (J_Dict
     [(''limit'', J_Num (of_int (pb_limit b))), (''records'', J_List (map J_Dict (pb_records b)))])\<rparr>"
  by (simp add: persist_def)

lemma budget_step_inv:
  assumes "budget_step limit b b'" "budget_inv limit b"
  shows "budget_inv limit b'"
  using assms
proof cases
  case (reserving command eff now)
  have ledger: "pb_ledger b \<noteq> No_Ledger" using assms(2) by (auto simp: budget_inv_def)
  show ?thesis
  proof (cases "int (attempts b) \<ge> pb_limit b")
    case True
    then show ?thesis using assms(2) by (simp add: reserving reserve_def)
  next
    case False
    then show ?thesis using assms(2) ledger row_has_id_intent [of "Suc (attempts b)"]
      by (auto simp: reserving reserve_def budget_inv_def persist_def attempts_def sequential_from_append)
  qed
next
  case (updating n updates)
  have ledger: "pb_ledger b \<noteq> No_Ledger" using assms(2) by (auto simp: budget_inv_def)
  have "row_has_id (fold (\<lambda>(k, v). AList.update k v) updates row) i = row_has_id row i" for row i
    by (simp add: row_has_id_def map_of_updates_other [OF updating(3)])
  then show ?thesis using assms(2) ledger
    by (auto simp: updating(1) update_row_def budget_inv_def persisted attempts_def sequential_from_nth
        nth_list_update updating(2) [unfolded attempts_def])
next
  case (scoping l)
  then show ?thesis using assms(2) by (simp add: budget_inv_def attempts_def)
next
  case restarting
  then show ?thesis using assms(2)
    by (auto simp: budget_inv_def load_budget_def json_rows_map attempts_def)
qed

lemma budget_reachable_inv: "budget_reachable limit b \<Longrightarrow> budget_inv limit b"
proof (induction rule: budget_reachable.induct)
  case (opened b)
  then show ?case by (auto simp: load_budget_def budget_inv_def attempts_def)
next
  case (stepped b b')
  then show ?case by (blast intro: budget_step_inv)
qed

text \<open>
  C12: however reservations, updates, approved scopes and restarts of the program
  interleave, at most the configured number of processes is ever reserved, the rows stay numbered from
  one, and a restart reads back exactly the rows the session had, so the budget is never reset.
\<close>

theorem process_budget_bounded:
  assumes "budget_reachable limit b"
  shows "int (attempts b) \<le> max 0 limit \<and> used b \<le> attempts b \<and>
    (\<forall>i < attempts b. row_has_id (pb_records b ! i) (Suc i)) \<and>
    (\<exists>b'. load_budget limit (pb_ledger b) = Inr b' \<and> pb_records b' = pb_records b \<and> pb_limit b' = limit)"
  using budget_reachable_inv [OF assms]
  by (auto simp: budget_inv_def sequential_from_nth load_budget_def json_rows_map attempts_def used_def)

section \<open>A concrete calculation\<close>

definition solve_digests :: digests where
  "solve_digests = \<lparr>dg_sha = id, dg_manifest = (\<lambda>fs. concat (map fs_sha256 fs)),
     dg_execution = (\<lambda>x. if x = execution_document solved_plan then ''x'' else ''z''),
     dg_physical = (\<lambda>_. ''y''), dg_plan = (\<lambda>_. ''p'')\<rparr>"

definition repaired_case :: workspace where
  "repaired_case = solved_case\<lparr>ws_files :=
     [([''system'', ''controlDict''], reduced_control), ([''constant'', ''g''], ''9'')]\<rparr>"

definition case_sealed :: "workspace \<Rightarrow> case_seal" where
  "case_sealed w = (case seal id (\<lambda>fs. concat (map fs_sha256 fs)) w ''p'' of
     Inr s \<Rightarrow> s | Inl _ \<Rightarrow> seal_with [])"

definition solve_context :: execution_context where
  "solve_context = \<lparr>xc_approval = attempt_deltas id id small_float
       [(solved_case, [(''system/controlDict'', reduced_control)])]
       (issue_approval (dg_execution solve_digests) (dg_physical solve_digests) solved_plan
         (case_sealed solved_case) None),
     xc_plan = solved_plan, xc_seal = case_sealed repaired_case, xc_workspace = repaired_case,
     xc_case_dir = [''w'', ''case''], xc_phase = Runtime_Phase\<rparr>"

definition solve_machine :: machine where
  "solve_machine = \<lparr>mc_resolve = (\<lambda>_. [''w'', ''case'']), mc_trusted = (\<lambda>_. True),
     mc_trusted_launcher = (\<lambda>_. False), mc_decompose_dict = (\<lambda>_. None), mc_posix = True,
     mc_tree_bytes = (\<lambda>_. 9), mc_preflight = True, mc_now = 0\<rparr>"

definition solve_runner :: safe_runner where
  "solve_runner = \<lparr>sr_workspace_root = Some [''w''], sr_max_timeout = 3600, sr_allowed = [''foamRun''],
     sr_installation = [], sr_limits = default_limits,
     sr_budget = \<lparr>pb_limit = 40, pb_records = [], pb_ledger = Ledger_Absent\<rparr>,
     sr_execution = Some solve_context, sr_validation = None, sr_ranks = 1, sr_launcher = None,
     sr_isolated = False\<rparr>"

definition solve_command :: "string list" where
  "solve_command = [''foamRun'', ''-solver'', ''icoFoam'', ''-case'', ''.'']"

lemma solve_command_effect: "command_effect (hd solve_command) (tl solve_command) (Some []) = Eff_Solve"
  by code_simp

lemma solve_context_valid:
  "validate_approved solve_digests (mc_resolve solve_machine) solve_context solve_command [''w'', ''case''] 60 1 = Inr ()"
  by code_simp

lemma solve_started:
  "\<exists>r'. run_native solve_digests solve_machine solve_runner solve_command (Some [''w'', ''case'']) 60 =
     (Inr (0, 60), r')"
proof -
  have "validate_flags solve_machine (Some [''w'', ''case'']) None (tl solve_command) = Inr ()"
    "check_all (validate_argument solve_machine (Some [''w''])) (tl solve_command) = Inr ()"
    "path_name ''foamRun'' = ''foamRun''"
    by code_simp+
  moreover have "validate_cwd solve_runner (Some [''w'', ''case'']) = Inr (Some [''w'', ''case''])"
    by (simp add: validate_cwd_def solve_runner_def is_within_def strict_prefix_def)
  moreover have "check_quotas solve_machine solve_runner [''w''] = Inr 0"
    by (simp add: check_quotas_def solve_runner_def solve_machine_def default_limits_def ledger_current_def)
  moreover have "authorize_effect solve_digests solve_machine solve_runner
      (command_effect (hd solve_command) (tl solve_command) (Some [])) solve_command (Some [''w'', ''case'']) 60 = Inr ()"
    unfolding solve_command_effect using solve_context_valid
    by (simp add: authorize_effect_def solve_runner_def)
  ultimately have "gate solve_digests solve_machine solve_runner solve_command (Some [''w'', ''case'']) 60 =
      Inr ([''w''], 60)"
    by (simp add: gate_def solve_command_def solve_runner_def solve_machine_def bounded_root_def default_limits_def
        validate_arguments_def)
  then show ?thesis
    by (simp add: run_native_def reserve_def attempts_def solve_runner_def)
qed

lemma native_gate_contract_witness:
  "effect_authorized solve_digests solve_machine solve_runner Eff_Solve solve_command
     (Some [''w'', ''case'']) 60 \<and> argument_confined solve_machine (Some [''w'']) ''icoFoam''"
proof -
  from solve_started obtain r' where
    run: "run_native solve_digests solve_machine solve_runner solve_command (Some [''w'', ''case'']) 60 = (Inr (0, 60), r')" ..
  have "sr_installation solve_runner = []" "bounded_root solve_runner (Some [''w'', ''case'']) = Some [''w'']"
    by (simp_all add: solve_runner_def bounded_root_def)
  with native_gate_contract [OF run] solve_command_effect show ?thesis
    by (simp add: solve_command_def)
qed

lemma solver_runs_as_approved_witness:
  "execution_document (xc_plan solve_context) = execution_document solved_plan \<and>
   map_of (seal_files (xc_seal solve_context)) ''constant/g'' =
   map_of (seal_files (case_sealed solved_case)) ''constant/g''"
proof -
  from solve_started obtain r' where
    run: "run_native solve_digests solve_machine solve_runner solve_command (Some [''w'', ''case'']) 60 = (Inr (0, 60), r')" ..
  have fields: "command_effect (hd solve_command) (tl solve_command) (Some (sr_installation solve_runner)) = Eff_Solve"
      "sr_execution solve_runner = Some solve_context"
    using solve_command_effect by (simp_all add: solve_runner_def)
  have digest: "\<And>x. dg_execution solve_digests x = dg_execution solve_digests (execution_document solved_plan) \<Longrightarrow>
      x = execution_document solved_plan"
    by (simp add: solve_digests_def split: if_splits)
  have approval: "xc_approval solve_context = attempt_deltas id id small_float
       [(solved_case, [(''system/controlDict'', reduced_control)])]
       (issue_approval (dg_execution solve_digests) (dg_physical solve_digests) solved_plan
         (case_sealed solved_case) None)"
    by (simp add: solve_context_def)
  have "runtime_repair_path_kind ''constant/g'' = None" by code_simp
  with solver_runs_as_approved [OF run fields digest approval] show ?thesis by blast
qed

definition one_reserved :: process_budget where
  "one_reserved = snd (reserve [''blockMesh''] Eff_Mesh 0 \<lparr>pb_limit = 1, pb_records = [], pb_ledger = Ledger_Absent\<rparr>)"

lemma process_budget_bounded_witness:
  "attempts one_reserved = 1 \<and> row_has_id (pb_records one_reserved ! 0) 1 \<and>
   fst (reserve [''blockMesh''] Eff_Mesh 0 one_reserved) = Inl (Budget_Exhausted 1 1)"
proof -
  have "budget_reachable 1 one_reserved"
    unfolding one_reserved_def
    by (rule budget_reachable.stepped [OF budget_reachable.opened budget_step.reserving])
      (simp add: load_budget_def)
  note bounded = process_budget_bounded [OF this]
  have "attempts one_reserved = 1" "fst (reserve [''blockMesh''] Eff_Mesh 0 one_reserved) = Inl (Budget_Exhausted 1 1)"
    by code_simp+
  with bounded show ?thesis by auto
qed

end
