(* ===== verification/Workflow.thy ===== *)
theory Workflow
  imports Native_Execution
begin

text \<open>
  The workflow around the deterministic gates: the states and transitions of a run
  (\<^verbatim>\<open>workflow/states.py\<close>, \<^verbatim>\<open>workflow/state.py\<close>), the driver that dispatches on the state
  (\<^verbatim>\<open>workflow/engine.py\<close>), the runtime orchestrator with its bounded repair loop
  (\<^verbatim>\<open>runtime/orchestrator.py\<close>) and the review of human feedback (\<^verbatim>\<open>review/agent.py\<close>).

  What the LLM agents and the native tools do is an argument: a function on the state of the run that
  may raise.  Progress events and the prose of a transition's note are left out; a history entry is the
  pair of states.  \<open>KeyboardInterrupt\<close> and \<open>SystemExit\<close>, which \<open>except Exception\<close> lets pass, are not
  modelled.
\<close>

section \<open>States\<close>

datatype wf_state =
    Wf_Init | Wf_Intake_Analysis | Wf_Intake_Review_Required | Wf_Needs_Clarification
  | Wf_Engineering | Wf_Case_Preview_Ready | Wf_Mesh_Ready | Wf_Pre_Solve_Validation | Wf_Solve_Ready
  | Wf_Engineering_Review_Required | Wf_Engineering_Blocked | Wf_Simulation | Wf_Runtime_Repair
  | Wf_Postprocessing | Wf_Execution_Done | Wf_Result_Review_Required | Wf_Feedback_Received
  | Wf_Revision_Ready | Wf_Complete | Wf_Done | Wf_Failed

definition solve_approval_states :: "wf_state set" where
  "solve_approval_states = {Wf_Mesh_Ready, Wf_Solve_Ready}"

definition feedback_states :: "wf_state set" where
  "feedback_states = {Wf_Mesh_Ready, Wf_Solve_Ready, Wf_Result_Review_Required}"

section \<open>The state of a run\<close>

text \<open>
  An exception: its class, as far as an \<open>except\<close> clause of the modelled code tells classes apart
  (\<open>Ex_Transport\<close> is a \<open>StructuredOutputError\<close> caused by a \<open>CodexTransportParseError\<close>), and its message.
\<close>

datatype exn_kind = Ex_Value | Ex_OS | Ex_Policy | Ex_Safety | Ex_Transport | Ex_Other

type_synonym exn = "exn_kind \<times> string"

record intake_spec =
  in_status :: string
  in_content :: string

text \<open>A failed event of the engineering agent, or an exception that reached the driver.\<close>

datatype failure_record =
    Failed_Event (failed_action: string) (failed_summary: string) (failed_signature: string)
  | Recovery_Failure wf_state exn

record sim_result =
  sim_success :: bool
  sim_completed :: bool
  sim_return_code :: int
  sim_process_success :: bool
  sim_termination_verified :: bool
  sim_outputs_verified :: "bool option"
  sim_log_sha256 :: string
  sim_evidence_failures :: "string list"

record sim_attempt =
  sa_attempt :: nat
  sa_result :: sim_result
  sa_repair_requested :: bool

record runtime_report =
  rr_success :: bool
  rr_attempts :: "sim_attempt list"
  rr_final_result :: sim_result

datatype feedback_status =
    Fb_Unresolved | Fb_Revision_Proposed | Fb_Proposal_Rejected | Fb_Revision_In_Progress
  | Fb_Awaiting_Rerun | Fb_Awaiting_Review | Fb_Resolved

record human_feedback =
  hf_id :: nat
  hf_submitted_state :: wf_state
  hf_status :: feedback_status

record revision_proposal =
  rp_id :: nat
  rp_feedback_ids :: "nat list"
  rp_requires_case_revision :: bool
  rp_requires_intake_revision :: bool

text \<open>
  The action a crash would leave undecided: an attempt of the solver, the preparation of a parallel
  restart, a tool action of the agent with its phase and step, or the event of a finished tool action.
\<close>

datatype pending =
    Pending_Intent nat
  | Pending_Completed nat
  | Pending_Restart
  | Pending_Turn string nat string
  | Pending_Event string

text \<open>The last field is the part of \<open>CFDState\<close> only the agents read.\<close>

record 'r cfd_state =
  st_intake :: "intake_spec option"
  st_intake_confirmed :: bool
  st_intake_digest :: "string option"
  st_plan :: "approved_plan option"
  st_seal :: "case_seal option"
  st_has_case_dir :: bool
  st_solve_approved :: bool
  st_approval :: "execution_approval option"
  st_pending :: "pending option"
  st_primary_failure :: "failure_record option"
  st_secondary_failures :: "failure_record list"
  st_simulation :: "sim_result option"
  st_report :: "runtime_report option"
  st_simulation_attempts :: nat
  st_feedback :: "human_feedback list"
  st_proposals :: "revision_proposal list"
  st_active_proposal :: "revision_proposal option"
  st_current :: wf_state
  st_history :: "(wf_state \<times> wf_state) list"
  st_workspace :: workspace
  st_rest :: 'r

definition transition :: "wf_state \<Rightarrow> 'r cfd_state \<Rightarrow> 'r cfd_state" where
  "transition new st = st\<lparr>st_history := st_history st @ [(st_current st, new)], st_current := new\<rparr>"

datatype state_error =
    Intake_Required
  | Intake_Blocked
  | Confirmed_Intake_Required
  | Confirmed_Intake_Changed
  | No_Active_Proposal
  | Not_Accepted "string list"
  | Not_Approvable
  | Nothing_To_Approve
  | Blank_Feedback
  | Feedback_Not_Accepted
  | Feedback_Without_Case
  | Invalid_Feedback
  | Review_Failed exn

definition confirm_intake ::
  "(intake_spec \<Rightarrow> string) \<Rightarrow> 'r cfd_state \<Rightarrow> (state_error + unit) \<times> 'r cfd_state" where
  "confirm_intake idg st =
     (case st_intake st of
        None \<Rightarrow> (Inl Intake_Required, st)
      | Some i \<Rightarrow>
          if in_status i \<noteq> ''ready_for_review'' then (Inl Intake_Blocked, st)
          else (Inr (), st\<lparr>st_intake_confirmed := True, st_intake_digest := Some (idg i)\<rparr>))"

definition assert_confirmed_intake :: "(intake_spec \<Rightarrow> string) \<Rightarrow> 'r cfd_state \<Rightarrow> state_error + unit" where
  "assert_confirmed_intake idg st =
     (case (st_intake st, st_intake_digest st) of
        (Some i, Some d) \<Rightarrow>
          if \<not> st_intake_confirmed st \<or> d = [] then Inl Confirmed_Intake_Required
          else if idg i \<noteq> d then Inl Confirmed_Intake_Changed else Inr ()
      | _ \<Rightarrow> Inl Confirmed_Intake_Required)"

text \<open>Feedback objects are shared: a status is set in the list of the state.\<close>

definition set_status :: "(human_feedback \<Rightarrow> bool) \<Rightarrow> feedback_status \<Rightarrow> human_feedback list \<Rightarrow> human_feedback list"
where
  "set_status p status = map (\<lambda>f. if p f then f\<lparr>hf_status := status\<rparr> else f)"

definition reject_revision :: "'r cfd_state \<Rightarrow> (state_error + unit) \<times> 'r cfd_state" where
  "reject_revision st =
     (case st_active_proposal st of
        None \<Rightarrow> (Inl No_Active_Proposal, st)
      | Some proposal \<Rightarrow>
          if st_current st \<noteq> Wf_Revision_Ready then (Inl No_Active_Proposal, st)
          else
            let linked = filter (\<lambda>f. hf_id f \<in> set (rp_feedback_ids proposal)) (st_feedback st);
                target =
                  (if list_ex (\<lambda>f. hf_submitted_state f = Wf_Result_Review_Required) linked
                   then Wf_Result_Review_Required
                   else if list_ex (\<lambda>f. hf_submitted_state f = Wf_Solve_Ready) linked
                   then Wf_Solve_Ready else Wf_Mesh_Ready)
            in (Inr (), transition target
                 (st\<lparr>st_feedback := set_status (\<lambda>f. hf_id f \<in> set (rp_feedback_ids proposal))
                       Fb_Proposal_Rejected (st_feedback st),
                     st_active_proposal := None\<rparr>)))"

definition result_acceptance_blockers :: "'r cfd_state \<Rightarrow> string list" where
  "result_acceptance_blockers st =
     (if st_current st \<noteq> Wf_Result_Review_Required then [''Result acceptance requires RESULT_REVIEW_REQUIRED.'']
      else case st_simulation st of
        None \<Rightarrow> [''No runtime result is available for acceptance.'']
      | Some r \<Rightarrow>
          let blockers =
            (if \<not> sim_completed r \<or> \<not> sim_termination_verified r
             then [''Calculation completion/termination is not deterministically verified.''] else []) @
            (if sim_return_code r \<noteq> 0 \<or> \<not> sim_process_success r
             then [''Native solver execution did not exit cleanly.''] else []) @
            (if sim_outputs_verified r \<noteq> Some True
             then [''Required final result artifacts are not deterministically verified.''] else [])
          in if \<not> sim_success r \<and> blockers = [] then [''Runtime result is not eligible for acceptance.'']
             else blockers)"

definition accept_result :: "'r cfd_state \<Rightarrow> (state_error + unit) \<times> 'r cfd_state" where
  "accept_result st =
     (if result_acceptance_blockers st \<noteq> [] then (Inl (Not_Accepted (result_acceptance_blockers st)), st)
      else (Inr (), transition Wf_Complete
        (st\<lparr>st_feedback := set_status
              (\<lambda>f. hf_status f \<in> {Fb_Awaiting_Review, Fb_Revision_Proposed, Fb_Unresolved}) Fb_Resolved (st_feedback st),
            st_active_proposal := None\<rparr>)))"

definition mark_feedback_awaiting_review :: "'r cfd_state \<Rightarrow> 'r cfd_state" where
  "mark_feedback_awaiting_review st =
     st\<lparr>st_feedback := set_status (\<lambda>f. hf_status f = Fb_Awaiting_Rerun) Fb_Awaiting_Review (st_feedback st)\<rparr>"

definition approve_solve ::
  "digests \<Rightarrow> resource_limits option \<Rightarrow> 'r cfd_state \<Rightarrow> (state_error + unit) \<times> 'r cfd_state" where
  "approve_solve dg limits st =
     (if st_current st \<notin> solve_approval_states then (Inl Not_Approvable, st)
      else case (st_plan st, st_seal st) of
        (Some plan, Some sl) \<Rightarrow>
          (Inr (), transition Wf_Simulation
            (st\<lparr>st_approval := Some (issue_approval (dg_execution dg) (dg_physical dg) plan sl limits),
                st_solve_approved := True\<rparr>))
      | _ \<Rightarrow> (Inl Nothing_To_Approve, st))"

section \<open>The runtime orchestrator\<close>

datatype repair_decision = Retry_Solver | Needs_User_Review | Repair_Blocked | Strategy_Revision

text \<open>What the native run hands back: whether the log is on disk, and the hash of the captured stream.\<close>

record native_run =
  nr_log_on_disk :: bool
  nr_log_sha256 :: string

text \<open>
  The agents and tools.  A checkpoint writes a file and the agents' part of the state; compiling the
  runtime contract reads the case; \<open>ag_execute\<close> is the snapshot of the outputs, the preparation of a
  parallel run and the native execution itself; \<open>ag_parse\<close> writes and parses the log; \<open>ag_verify\<close>
  reconstructs a parallel result and checks the outputs; \<open>ag_inconclusive\<close> is the assessment of a failed
  run; \<open>ag_repair\<close> is the repair turn of the engineering agent.
\<close>

record 'r agents =
  ag_checkpoint :: "string \<Rightarrow> 'r cfd_state \<Rightarrow> exn option \<times> 'r"
  ag_intake :: "'r cfd_state \<Rightarrow> exn option \<times> 'r cfd_state"
  ag_prepare :: "'r cfd_state \<Rightarrow> exn option \<times> 'r cfd_state"
  ag_postprocess :: "'r cfd_state \<Rightarrow> exn option \<times> 'r cfd_state"
  ag_contract :: "'r cfd_state \<Rightarrow> exn option"
  ag_execute :: "nat \<Rightarrow> 'r cfd_state \<Rightarrow> (exn + native_run) \<times> 'r"
  ag_parse :: "nat \<Rightarrow> native_run \<Rightarrow> 'r cfd_state \<Rightarrow> (exn + sim_result) \<times> 'r"
  ag_verify :: "sim_result \<Rightarrow> 'r cfd_state \<Rightarrow> (exn + bool \<times> string list) \<times> 'r"
  ag_inconclusive :: "native_run \<Rightarrow> 'r cfd_state \<Rightarrow> bool"
  ag_failure :: "native_run \<Rightarrow> 'r cfd_state \<Rightarrow> failure_record \<times> 'r"
  ag_repair :: "nat \<Rightarrow> 'r cfd_state \<Rightarrow> (exn + repair_decision) \<times> 'r cfd_state"

text \<open>The first failure is kept; later different ones are listed, at most 16.\<close>

definition same_failure :: "failure_record \<Rightarrow> failure_record \<Rightarrow> bool" where
  "same_failure a b \<longleftrightarrow>
     (case (a, b) of
        (Failed_Event x y z, Failed_Event x' y' z') \<Rightarrow> x = x' \<and> y = y' \<and> z = z'
      | _ \<Rightarrow> False)"

definition record_unresolved_failure :: "failure_record \<Rightarrow> 'r cfd_state \<Rightarrow> 'r cfd_state" where
  "record_unresolved_failure failure st =
     (case st_primary_failure st of
        None \<Rightarrow> st\<lparr>st_primary_failure := Some failure\<rparr>
      | Some prior \<Rightarrow>
          if same_failure prior failure then st
          else if length (st_secondary_failures st) < 16
          then st\<lparr>st_secondary_failures := st_secondary_failures st @ [failure]\<rparr> else st)"

text \<open>What a call of \<open>run\<close> ends with: it returned, or it raised.  The state is mutated in both cases.\<close>

type_synonym 'r outcome = "exn option \<times> 'r cfd_state"

definition checkpoint ::
  "'r agents \<Rightarrow> string \<Rightarrow> ('r cfd_state \<Rightarrow> 'r outcome) \<Rightarrow> 'r cfd_state \<Rightarrow> 'r outcome" where
  "checkpoint ag reason k st =
     (case ag_checkpoint ag reason st of
        (Some e, rest) \<Rightarrow> (Some e, st\<lparr>st_rest := rest\<rparr>)
      | (None, rest) \<Rightarrow> k (st\<lparr>st_rest := rest\<rparr>))"

text \<open>
  A \<open>FileNotFoundError\<close> and other errors of the operating system are no \<open>WorkspaceSafetyError\<close>.
\<close>

definition ws_exn :: "workspace_error \<Rightarrow> exn_kind" where
  "ws_exn e = (case e of No_Such_Case_File p \<Rightarrow> Ex_OS | Os_Error \<Rightarrow> Ex_OS | _ \<Rightarrow> Ex_Safety)"

definition verify_case :: "digests \<Rightarrow> approved_plan \<Rightarrow> case_seal \<Rightarrow> 'r cfd_state \<Rightarrow> unit ws_result" where
  "verify_case dg plan sl st =
     verify_seal (dg_sha dg) (dg_manifest dg) (st_workspace st) sl (dg_plan dg plan)"

definition block_run :: "'r cfd_state \<Rightarrow> 'r outcome" where
  "block_run st = (None, transition Wf_Engineering_Blocked (st\<lparr>st_solve_approved := False\<rparr>))"

definition attempt_report :: "bool \<Rightarrow> sim_attempt list \<Rightarrow> sim_result \<Rightarrow> runtime_report" where
  "attempt_report success tried result =
     \<lparr>rr_success = success, rr_attempts = tried, rr_final_result = result\<rparr>"

text \<open>The validator of \<open>RuntimeReport\<close>; a report that violates it raises a \<open>ValueError\<close>.\<close>

definition report_ok :: "runtime_report \<Rightarrow> bool" where
  "report_ok rep \<longleftrightarrow>
     rr_attempts rep \<noteq> [] \<and> map sa_attempt (rr_attempts rep) = [1..<Suc (length (rr_attempts rep))] \<and>
     list_all (\<lambda>a. \<not> sim_success (sa_result a)) (butlast (rr_attempts rep)) \<and>
     rr_final_result rep = sa_result (last (rr_attempts rep)) \<and>
     rr_success rep = sim_success (rr_final_result rep)"

definition with_report ::
  "runtime_report \<Rightarrow> ('r cfd_state \<Rightarrow> 'r outcome) \<Rightarrow> 'r cfd_state \<Rightarrow> 'r outcome" where
  "with_report rep k st =
     (if report_ok rep then k (st\<lparr>st_report := Some rep\<rparr>)
      else (Some (Ex_Value, ''RuntimeReport''), st))"

text \<open>The result of an attempt after the hash of the log and the outputs were checked.\<close>

definition check_log_hash :: "native_run \<Rightarrow> sim_result \<Rightarrow> sim_result" where
  "check_log_hash run r =
     (if nr_log_on_disk run \<and> nr_log_sha256 run \<noteq> [] \<and> sim_log_sha256 r \<noteq> nr_log_sha256 run
      then r\<lparr>sim_success := False, sim_completed := False, sim_evidence_failures := sim_evidence_failures r @
        [''Native disk log hash differs from the captured stream.'']\<rparr>
      else r)"

definition apply_outputs :: "bool \<times> string list \<Rightarrow> sim_result \<Rightarrow> sim_result" where
  "apply_outputs v r =
     (if fst v then r\<lparr>sim_outputs_verified := Some True\<rparr>
      else r\<lparr>sim_outputs_verified := Some False, sim_success := False,
             sim_evidence_failures := sim_evidence_failures r @ snd v\<rparr>)"

definition caught :: "exn \<Rightarrow> bool" where
  "caught e \<longleftrightarrow> fst e \<in> {Ex_Value, Ex_OS, Ex_Policy}"

definition evaluate_run ::
  "'r agents \<Rightarrow> nat \<Rightarrow> native_run \<Rightarrow> 'r cfd_state \<Rightarrow> (exn + sim_result) \<times> 'r cfd_state" where
  "evaluate_run ag n run st =
     (case ag_parse ag n run st of
        (Inl e, rest) \<Rightarrow> (Inl e, st\<lparr>st_rest := rest\<rparr>)
      | (Inr parsed, rest) \<Rightarrow>
          let r = check_log_hash run parsed; st1 = st\<lparr>st_rest := rest\<rparr>
          in if \<not> sim_success r then (Inr r, st1)
             else case ag_verify ag r st1 of
               (Inl e, rest') \<Rightarrow>
                 if caught e then (Inr (apply_outputs (False, [snd e]) r), st1\<lparr>st_rest := rest'\<rparr>)
                 else (Inl e, st1\<lparr>st_rest := rest'\<rparr>)
             | (Inr v, rest') \<Rightarrow> (Inr (apply_outputs v r), st1\<lparr>st_rest := rest'\<rparr>))"

text \<open>
  What follows a failed attempt that is worth a repair: the repair turn decides, and only a retry with
  the state back at \<open>SIMULATION\<close> continues the loop.
\<close>

definition after_repair ::
  "sim_attempt list \<Rightarrow> sim_result \<Rightarrow> (sim_attempt list \<Rightarrow> 'r cfd_state \<Rightarrow> 'r outcome) \<Rightarrow>
     repair_decision \<Rightarrow> 'r cfd_state \<Rightarrow> 'r outcome" where
  "after_repair tried result continue decision st =
     (let marked = butlast tried @ [(last tried)\<lparr>sa_repair_requested := (decision = Retry_Solver)\<rparr>]
      in if decision \<noteq> Retry_Solver then
           with_report (attempt_report False marked result)
             (\<lambda>st. if st_current st = Wf_Runtime_Repair then block_run st else (None, st)) st
         else if st_current st \<noteq> Wf_Simulation then
           with_report (attempt_report False marked result) block_run st
         else continue marked st)"

definition judge_attempt ::
  "'r agents \<Rightarrow> nat \<Rightarrow> nat \<Rightarrow> sim_attempt list \<Rightarrow> native_run \<Rightarrow> sim_result \<Rightarrow>
     (sim_attempt list \<Rightarrow> 'r cfd_state \<Rightarrow> 'r outcome) \<Rightarrow> 'r cfd_state \<Rightarrow> 'r outcome" where
  "judge_attempt ag max_attempts n tried run result continue st =
     (if sim_success result then
        with_report (attempt_report True tried result) (\<lambda>st. (None, transition Wf_Execution_Done st)) st
      else if sim_process_success result then
        with_report (attempt_report False tried result)
          (\<lambda>st. (None, transition Wf_Result_Review_Required (st\<lparr>st_solve_approved := False\<rparr>))) st
      else if ag_inconclusive ag run st then
        with_report (attempt_report False tried result) block_run
          (let (failure, rest) = ag_failure ag run st in record_unresolved_failure failure (st\<lparr>st_rest := rest\<rparr>))
      else if n \<ge> max_attempts then
        with_report (attempt_report False tried result)
          (\<lambda>st. (None, transition Wf_Engineering_Blocked st)) st
      else case ag_repair ag n st of
        (Inl e, st') \<Rightarrow> (Some e, st')
      | (Inr decision, st') \<Rightarrow> after_repair tried result continue decision st')"

definition finish_attempt ::
  "'r agents \<Rightarrow> nat \<Rightarrow> nat \<Rightarrow> sim_attempt list \<Rightarrow> native_run \<Rightarrow>
     (sim_attempt list \<Rightarrow> 'r cfd_state \<Rightarrow> 'r outcome) \<Rightarrow> 'r cfd_state \<Rightarrow> 'r outcome" where
  "finish_attempt ag max_attempts n tried run continue st =
     (case evaluate_run ag n run st of
        (Inl e, st') \<Rightarrow> (Some e, st')
      | (Inr result, st') \<Rightarrow>
          checkpoint ag ''solver-result-captured''
            (\<lambda>st. judge_attempt ag max_attempts n
               (tried @ [\<lparr>sa_attempt = n, sa_result = result, sa_repair_requested = False\<rparr>]) run result continue
               (st\<lparr>st_pending := None\<rparr>))
            (st'\<lparr>st_simulation := Some result, st_simulation_attempts := n,
                st_pending := Some (Pending_Completed n)\<rparr>))"

text \<open>The authority that is checked again right before the solver starts.\<close>

definition check_authority ::
  "digests \<Rightarrow> approved_plan \<Rightarrow> 'r cfd_state \<Rightarrow> exn option" where
  "check_authority dg plan st =
     (case (st_approval st, st_seal st) of
        (Some a, Some sl) \<Rightarrow>
          (case check_plan (dg_execution dg) (dg_physical dg) a plan of
             Inl e \<Rightarrow> Some (Ex_Value, [])
           | Inr _ \<Rightarrow>
               (case check_repair_files a sl of Inl e \<Rightarrow> Some (Ex_Value, []) | Inr _ \<Rightarrow> None))
      | _ \<Rightarrow> Some (Ex_Other, ''AttributeError''))"

definition start_solver ::
  "'r agents \<Rightarrow> digests \<Rightarrow> nat \<Rightarrow> approved_plan \<Rightarrow> 'r cfd_state \<Rightarrow> (exn + native_run) \<times> 'r cfd_state" where
  "start_solver ag dg n plan st =
     (case check_authority dg plan st of
        Some e \<Rightarrow> (Inl e, st)
      | None \<Rightarrow> (let (r, rest) = ag_execute ag n st in (r, st\<lparr>st_rest := rest\<rparr>)))"

text \<open>\<open>for attempt_number in range(1, max_attempts + 1)\<close>, with the number of rounds left.\<close>

fun runtime_loop ::
  "'r agents \<Rightarrow> digests \<Rightarrow> nat \<Rightarrow> nat \<Rightarrow> nat \<Rightarrow> sim_attempt list \<Rightarrow> 'r cfd_state \<Rightarrow> 'r outcome" where
  "runtime_loop ag dg max_attempts 0 n tried st =
     (Some (Ex_Other, ''Bounded runtime loop exited unexpectedly.''), st)"
| "runtime_loop ag dg max_attempts (Suc rounds) n tried st =
     (case (st_plan st, st_seal st) of
        (Some plan, Some sl) \<Rightarrow>
          (case verify_case dg plan sl st of
             Inl e \<Rightarrow>
               if ws_exn e = Ex_Safety then (None, transition Wf_Failed st) else (Some (ws_exn e, []), st)
           | Inr _ \<Rightarrow>
               checkpoint ag ''solver-start-intent''
                 (\<lambda>st. case start_solver ag dg n plan st of
                    (Inl e, st') \<Rightarrow>
                      if caught e then (None, transition Wf_Engineering_Blocked st') else (Some e, st')
                  | (Inr run, st') \<Rightarrow>
                      finish_attempt ag max_attempts n tried run
                        (runtime_loop ag dg max_attempts rounds (Suc n)) st')
                 (st\<lparr>st_pending := Some (Pending_Intent n)\<rparr>))
      | _ \<Rightarrow> (Some (Ex_Other, ''AssertionError''), st))"

text \<open>The gates before the first attempt.\<close>

definition runtime_run ::
  "'r agents \<Rightarrow> digests \<Rightarrow> (intake_spec \<Rightarrow> string) \<Rightarrow> nat \<Rightarrow> 'r cfd_state \<Rightarrow> 'r outcome" where
  "runtime_run ag dg idg max_attempts =
     checkpoint ag ''runtime-entry'' (\<lambda>st.
       if \<not> st_solve_approved st then (None, transition Wf_Failed st)
       else case (st_plan st, st_seal st) of
         (Some plan, Some sl) \<Rightarrow>
           if \<not> st_has_case_dir st then (None, transition Wf_Failed st)
           else
             (case adopt_seal (st_workspace st) sl of
                (Inl e, w) \<Rightarrow>
                  if ws_exn e = Ex_Safety then (None, transition Wf_Failed (st\<lparr>st_workspace := w\<rparr>))
                  else (Some (ws_exn e, []), st\<lparr>st_workspace := w\<rparr>)
              | (Inr _, w) \<Rightarrow>
                  let st = st\<lparr>st_workspace := w\<rparr>
                  in case verify_case dg plan sl st of
                       Inl e \<Rightarrow>
                         if ws_exn e = Ex_Safety then (None, transition Wf_Failed st)
                         else (Some (ws_exn e, []), st)
                     | Inr _ \<Rightarrow>
                         (case st_approval st of
                            None \<Rightarrow> (None, transition Wf_Failed st)
                          | Some a \<Rightarrow>
                              if isl (assert_confirmed_intake idg st) \<or> check_authority dg plan st \<noteq> None
                              then (None, transition Wf_Engineering_Review_Required st)
                              else case ag_contract ag st of
                                Some e \<Rightarrow>
                                  if fst e \<in> {Ex_Value, Ex_OS}
                                  then (None, transition Wf_Engineering_Review_Required st)
                                  else (Some e, st)
                              | None \<Rightarrow> runtime_loop ag dg max_attempts max_attempts 1 [] st))
       | _ \<Rightarrow> (None, transition Wf_Failed st))"

text \<open>How the engineering agent closes the transient repair state.\<close>

definition runtime_repair_outcome :: "repair_decision \<Rightarrow> 'r cfd_state \<Rightarrow> repair_decision \<times> 'r cfd_state" where
  "runtime_repair_outcome decision st =
     (decision,
      case decision of
        Retry_Solver \<Rightarrow> if st_current st \<noteq> Wf_Simulation then transition Wf_Simulation st else st
      | Needs_User_Review \<Rightarrow> transition Wf_Engineering_Review_Required (st\<lparr>st_solve_approved := False\<rparr>)
      | Strategy_Revision \<Rightarrow> transition Wf_Engineering_Review_Required (st\<lparr>st_solve_approved := False\<rparr>)
      | Repair_Blocked \<Rightarrow> transition Wf_Engineering_Blocked (st\<lparr>st_solve_approved := False\<rparr>))"

section \<open>The driver\<close>

record workflow_config =
  wc_max_attempts :: nat
  wc_postprocessing_enabled :: bool

definition then_do :: "'r outcome \<Rightarrow> ('r cfd_state \<Rightarrow> 'r outcome) \<Rightarrow> 'r outcome" where
  "then_do out k = (case out of (Some e, st) \<Rightarrow> (Some e, st) | (None, st) \<Rightarrow> k st)"

definition after_simulation :: "'r agents \<Rightarrow> workflow_config \<Rightarrow> 'r cfd_state \<Rightarrow> 'r outcome" where
  "after_simulation ag cfg st =
     (if st_current st = Wf_Execution_Done \<and> (\<exists>rep. st_report st = Some rep \<and> rr_success rep)
      then then_do
        (if wc_postprocessing_enabled cfg then ag_postprocess ag st
         else (None, transition Wf_Result_Review_Required st))
        (\<lambda>st. (None, if st_current st = Wf_Result_Review_Required
           then mark_feedback_awaiting_review st else st))
      else (None, st))"

definition dispatch ::
  "'r agents \<Rightarrow> digests \<Rightarrow> (intake_spec \<Rightarrow> string) \<Rightarrow> workflow_config \<Rightarrow> 'r cfd_state \<Rightarrow> 'r outcome" where
  "dispatch ag dg idg cfg st =
     (case st_current st of
        Wf_Init \<Rightarrow> (None, transition Wf_Intake_Analysis st)
      | Wf_Intake_Analysis \<Rightarrow> ag_intake ag st
      | Wf_Engineering \<Rightarrow> ag_prepare ag st
      | Wf_Simulation \<Rightarrow>
          then_do (runtime_run ag dg idg (wc_max_attempts cfg) st) (after_simulation ag cfg)
      | Wf_Runtime_Repair \<Rightarrow> block_run st
      | _ \<Rightarrow> (None, transition Wf_Failed st))"

definition workflow_step ::
  "'r agents \<Rightarrow> digests \<Rightarrow> (intake_spec \<Rightarrow> string) \<Rightarrow> workflow_config \<Rightarrow> 'r cfd_state \<Rightarrow> 'r outcome" where
  "workflow_step ag dg idg cfg =
     checkpoint ag ''workflow-step-start'' (\<lambda>st.
       then_do (dispatch ag dg idg cfg st)
         (checkpoint ag ''workflow-step-finished'' (\<lambda>st. (None, st))))"

definition terminal_states :: "wf_state set" where
  "terminal_states =
     {Wf_Intake_Review_Required, Wf_Needs_Clarification, Wf_Case_Preview_Ready, Wf_Mesh_Ready,
      Wf_Solve_Ready, Wf_Engineering_Review_Required, Wf_Engineering_Blocked,
      Wf_Result_Review_Required, Wf_Revision_Ready, Wf_Complete, Wf_Done, Wf_Failed}"

definition recover :: "wf_state \<Rightarrow> exn \<Rightarrow> 'r cfd_state \<Rightarrow> 'r cfd_state" where
  "recover failed_stage e st =
     (let st = (if st_primary_failure st \<noteq> None \<and> length (st_secondary_failures st) < 16
        then st\<lparr>st_secondary_failures := st_secondary_failures st @ [Recovery_Failure failed_stage e]\<rparr> else st)
      in if fst e = Ex_Transport \<and> failed_stage \<in> {Wf_Engineering, Wf_Simulation, Wf_Runtime_Repair}
         then transition Wf_Engineering_Blocked st else transition Wf_Failed st)"

text \<open>The loop over \<open>range(max_steps)\<close>; running out of steps is a failure of its own.\<close>

fun workflow_run ::
  "'r agents \<Rightarrow> digests \<Rightarrow> (intake_spec \<Rightarrow> string) \<Rightarrow> workflow_config \<Rightarrow> nat \<Rightarrow> 'r cfd_state \<Rightarrow> 'r cfd_state"
where
  "workflow_run ag dg idg cfg 0 st = transition Wf_Failed st"
| "workflow_run ag dg idg cfg (Suc steps) st =
     (if st_current st \<in> terminal_states then st
      else case workflow_step ag dg idg cfg st of
        (Some e, st') \<Rightarrow> recover (st_current st) e st'
      | (None, st') \<Rightarrow> workflow_run ag dg idg cfg steps st')"

section \<open>The review of human feedback\<close>

text \<open>
  The LLM's assessment of a feedback is an argument: an exception, or whether the confirmed intake and
  whether the case must change.  The status of the feedback and the state are set on every way out, an
  exception included.  Identifiers have four digits and statements at most 8000 characters.  Building the
  prompt from the state, between the transition and the \<open>try\<close>, is taken not to raise.
\<close>

definition set_feedback :: "nat \<Rightarrow> feedback_status \<Rightarrow> 'r cfd_state \<Rightarrow> 'r cfd_state" where
  "set_feedback i status st = st\<lparr>st_feedback := set_status (\<lambda>f. hf_id f = i) status (st_feedback st)\<rparr>"

text \<open>What the assessment does to the run, from the state in which it was asked for.\<close>

definition apply_assessment ::
  "wf_state \<Rightarrow> nat \<Rightarrow> exn + bool \<times> bool \<Rightarrow> 'r cfd_state \<Rightarrow> (state_error + unit) \<times> 'r cfd_state" where
  "apply_assessment origin i assessed st =
     (let failed = (\<lambda>e. (Inl (Review_Failed e),
        transition origin (set_feedback i Fb_Unresolved (st\<lparr>st_active_proposal := None\<rparr>))))
      in case assessed of
           Inl e \<Rightarrow> failed e
         | Inr (intake_revision, case_revision) \<Rightarrow>
             if length (st_proposals st) \<ge> 9999 then failed (Ex_Value, [])
             else
               let proposal = \<lparr>rp_id = Suc (length (st_proposals st)), rp_feedback_ids = [i],
                     rp_requires_case_revision = case_revision,
                     rp_requires_intake_revision = intake_revision\<rparr>;
                   st2 = st\<lparr>st_proposals := st_proposals st @ [proposal]\<rparr>;
                   proposed = set_feedback i Fb_Revision_Proposed (st2\<lparr>st_active_proposal := Some proposal\<rparr>)
               in if intake_revision then (Inr (), transition Wf_Engineering_Review_Required proposed)
                  else if case_revision then (Inr (), transition Wf_Revision_Ready proposed)
                  else (Inr (), transition origin
                    (set_feedback i (if origin = Wf_Result_Review_Required then Fb_Awaiting_Review else Fb_Unresolved)
                      (st2\<lparr>st_active_proposal := None\<rparr>))))"

definition review ::
  "('r cfd_state \<Rightarrow> human_feedback \<Rightarrow> exn + bool \<times> bool) \<Rightarrow> string \<Rightarrow> 'r cfd_state \<Rightarrow>
     (state_error + unit) \<times> 'r cfd_state" where
  "review assess statement st =
     (if strip statement = [] then (Inl Blank_Feedback, st)
      else if st_current st \<notin> feedback_states then (Inl Feedback_Not_Accepted, st)
      else if st_plan st = None \<or> st_seal st = None then (Inl Feedback_Without_Case, st)
      else if length (st_feedback st) \<ge> 9999 \<or> length (strip statement) > 8000
      then (Inl Invalid_Feedback, st)
      else
        let origin = st_current st; i = Suc (length (st_feedback st));
            feedback = \<lparr>hf_id = i, hf_submitted_state = origin, hf_status = Fb_Unresolved\<rparr>;
            st1 = transition Wf_Feedback_Received (st\<lparr>st_feedback := st_feedback st @ [feedback]\<rparr>)
        in apply_assessment origin i (assess st1 feedback) st1)"

section \<open>The solver starts under authority only\<close>

text \<open>The plan, the approval and the seal agree, and the case still is the sealed one.\<close>

definition authorized :: "digests \<Rightarrow> 'r cfd_state \<Rightarrow> bool" where
  "authorized dg st \<longleftrightarrow>
     (\<exists>plan a sl. st_plan st = Some plan \<and> st_approval st = Some a \<and> st_seal st = Some sl \<and>
        check_plan (dg_execution dg) (dg_physical dg) a plan = Inr () \<and> check_repair_files a sl = Inr () \<and>
        verify_case dg plan sl st = Inr ())"

lemma check_authority_None:
  "check_authority dg plan st = None \<longleftrightarrow>
     (\<exists>a sl. st_approval st = Some a \<and> st_seal st = Some sl \<and>
        check_plan (dg_execution dg) (dg_physical dg) a plan = Inr () \<and> check_repair_files a sl = Inr ())"
  by (auto simp: check_authority_def split: option.splits sum.splits)

lemma start_solver_authorized:
  assumes "\<And>n st. authorized dg st \<Longrightarrow> ag_execute ag n st = exec n st"
    and "st_plan st = Some plan" "st_seal st = Some sl" "verify_case dg plan sl st = Inr ()"
  shows "start_solver (ag\<lparr>ag_execute := exec\<rparr>) dg n plan st = start_solver ag dg n plan st"
proof (cases "check_authority dg plan st")
  case None
  with assms(2-4) have "authorized dg st" by (auto simp: check_authority_None authorized_def)
  with assms(1) show ?thesis by (simp add: start_solver_def None)
qed (simp add: start_solver_def)

text \<open>Everything but \<open>start_solver\<close> is independent of what the solver does.\<close>

lemma same_agent:
  "ag_checkpoint (ag\<lparr>ag_execute := exec\<rparr>) = ag_checkpoint ag"
  "ag_intake (ag\<lparr>ag_execute := exec\<rparr>) = ag_intake ag"
  "ag_prepare (ag\<lparr>ag_execute := exec\<rparr>) = ag_prepare ag"
  "ag_postprocess (ag\<lparr>ag_execute := exec\<rparr>) = ag_postprocess ag"
  "ag_contract (ag\<lparr>ag_execute := exec\<rparr>) = ag_contract ag"
  "ag_parse (ag\<lparr>ag_execute := exec\<rparr>) = ag_parse ag"
  "ag_verify (ag\<lparr>ag_execute := exec\<rparr>) = ag_verify ag"
  "ag_inconclusive (ag\<lparr>ag_execute := exec\<rparr>) = ag_inconclusive ag"
  "ag_failure (ag\<lparr>ag_execute := exec\<rparr>) = ag_failure ag"
  "ag_repair (ag\<lparr>ag_execute := exec\<rparr>) = ag_repair ag"
  by simp_all

lemma other_agents:
  "checkpoint (ag\<lparr>ag_execute := exec\<rparr>) = checkpoint ag"
  "after_simulation (ag\<lparr>ag_execute := exec\<rparr>) = after_simulation ag"
  "finish_attempt (ag\<lparr>ag_execute := exec\<rparr>) = finish_attempt ag"
  by (intro ext, simp only: checkpoint_def after_simulation_def finish_attempt_def evaluate_run_def
      judge_attempt_def same_agent)+

lemma checkpoint_cong:
  assumes "\<And>rest. k (st\<lparr>st_rest := rest\<rparr>) = k' (st\<lparr>st_rest := rest\<rparr>)"
  shows "checkpoint ag reason k st = checkpoint ag reason k' st"
  using assms by (simp add: checkpoint_def split: prod.split option.split)

lemma runtime_loop_authorized:
  assumes "\<And>n st. authorized dg st \<Longrightarrow> ag_execute ag n st = exec n st"
  shows "runtime_loop (ag\<lparr>ag_execute := exec\<rparr>) dg k rounds n tried st = runtime_loop ag dg k rounds n tried st"
proof (induction rounds arbitrary: n tried st)
  case (Suc rounds)
  have loop: "runtime_loop (ag\<lparr>ag_execute := exec\<rparr>) dg k rounds n = runtime_loop ag dg k rounds n" for n
    by (intro ext) (rule Suc.IH)
  show ?case
  proof (cases "\<exists>plan sl. st_plan st = Some plan \<and> st_seal st = Some sl \<and> verify_case dg plan sl st = Inr ()")
    case True
    then obtain plan sl where ok: "st_plan st = Some plan" "st_seal st = Some sl" "verify_case dg plan sl st = Inr ()"
      by blast
    have "start_solver (ag\<lparr>ag_execute := exec\<rparr>) dg n plan (st\<lparr>st_pending := p, st_rest := rest\<rparr>) =
        start_solver ag dg n plan (st\<lparr>st_pending := p, st_rest := rest\<rparr>)" for p rest
      by (rule start_solver_authorized [OF assms]) (use ok in \<open>simp_all add: verify_case_def\<close>)
    then show ?thesis
      by (simp add: ok other_agents loop checkpoint_def split: prod.split option.split sum.split)
  next
    case False
    then show ?thesis by (auto simp: other_agents split: option.splits sum.splits)
  qed
qed simp

lemma runtime_run_authorized:
  assumes "\<And>n st. authorized dg st \<Longrightarrow> ag_execute ag n st = exec n st"
  shows "runtime_run (ag\<lparr>ag_execute := exec\<rparr>) dg idg k st = runtime_run ag dg idg k st"
proof -
  have "runtime_loop (ag\<lparr>ag_execute := exec\<rparr>) dg k k 1 [] = runtime_loop ag dg k k 1 []"
    by (intro ext) (rule runtime_loop_authorized [OF assms])
  moreover have "ag_contract (ag\<lparr>ag_execute := exec\<rparr>) = ag_contract ag" by simp
  ultimately show ?thesis unfolding runtime_run_def other_agents by (simp only:)
qed

lemma workflow_step_authorized:
  assumes "\<And>n st. authorized dg st \<Longrightarrow> ag_execute ag n st = exec n st"
  shows "workflow_step (ag\<lparr>ag_execute := exec\<rparr>) dg idg cfg st = workflow_step ag dg idg cfg st"
proof -
  have "dispatch (ag\<lparr>ag_execute := exec\<rparr>) dg idg cfg st = dispatch ag dg idg cfg st" for st
    by (simp add: dispatch_def runtime_run_authorized [OF assms] other_agents split: wf_state.split)
  then show ?thesis by (simp add: workflow_step_def other_agents)
qed

text \<open>
  C5: whatever the agents do, a run of the workflow does not depend on what the solver
  would do in a state in which the plan is not the approved one, the sealed files are not the approved
  or authorised ones, or the case is not the sealed one: the solver is never started there.
\<close>

theorem solver_needs_authority:
  assumes "\<And>n st. authorized dg st \<Longrightarrow> ag_execute ag n st = exec n st"
  shows "workflow_run (ag\<lparr>ag_execute := exec\<rparr>) dg idg cfg steps st = workflow_run ag dg idg cfg steps st"
  by (induction steps arbitrary: st) (simp_all add: workflow_step_authorized [OF assms] split: prod.split option.split)

section \<open>A run always ends in a state that waits for the user\<close>

lemma recover_terminal: "st_current (recover stage e st) \<in> terminal_states"
  by (simp add: recover_def Let_def transition_def terminal_states_def)

text \<open>
  C8: for every number of steps and whatever the agents do or raise, a run returns, and in a
  terminal state, which a later run leaves as it is.
\<close>

theorem workflow_run_ends:
  "st_current (workflow_run ag dg idg cfg steps st) \<in> terminal_states \<and>
   workflow_run ag dg idg cfg (Suc steps') (workflow_run ag dg idg cfg steps st) =
     workflow_run ag dg idg cfg steps st"
proof -
  have "st_current (workflow_run ag dg idg cfg steps st) \<in> terminal_states"
  proof (induction steps arbitrary: st)
    case 0
    show ?case by (simp add: transition_def terminal_states_def)
  next
    case (Suc steps)
    then show ?case by (simp add: recover_terminal split: prod.split option.split)
  qed
  then show ?thesis by simp
qed

text \<open>
  The last step's result is not looked at: a run that reaches a terminal state with its last step is
  reported as failed.
\<close>

lemma last_step_discarded:
  assumes "st_current st \<notin> terminal_states" "workflow_step ag dg idg cfg st = (None, st')"
  shows "workflow_run ag dg idg cfg 1 st = transition Wf_Failed st'"
  using assms by simp

section \<open>The runtime loop is bounded\<close>

text \<open>
  Agents that raise only what the orchestrator expects; the solver need not do so outside \<open>SIMULATION\<close>.  A repair
  turn leaves plan, seal, approval and report in place and returns; it may ask for a retry from any state,
  and without one leaves the run in the repair state, blocked or waiting for a review.
\<close>

definition keeps_authority :: "'r cfd_state \<Rightarrow> 'r cfd_state \<Rightarrow> bool" where
  "keeps_authority st st' \<longleftrightarrow>
     (st_plan st \<noteq> None \<longrightarrow> st_plan st' \<noteq> None) \<and> (st_seal st \<noteq> None \<longrightarrow> st_seal st' \<noteq> None) \<and>
     (st_approval st \<noteq> None \<longrightarrow> st_approval st' \<noteq> None) \<and> st_report st' = st_report st"

definition expected_agents :: "'r agents \<Rightarrow> bool" where
  "expected_agents ag \<longleftrightarrow>
     (\<forall>reason st. fst (ag_checkpoint ag reason st) = None) \<and>
     (\<forall>st e. ag_contract ag st = Some e \<longrightarrow> fst e \<in> {Ex_Value, Ex_OS}) \<and>
     (\<forall>n st e rest. st_current st = Wf_Simulation \<and> ag_execute ag n st = (Inl e, rest) \<longrightarrow> caught e) \<and>
     (\<forall>n run st. \<exists>r rest. ag_parse ag n run st = (Inr r, rest)) \<and>
     (\<forall>r st e rest. ag_verify ag r st = (Inl e, rest) \<longrightarrow> caught e) \<and>
     (\<forall>n st. \<exists>d st'. ag_repair ag n st = (Inr d, st') \<and> keeps_authority st st' \<and>
        (d = Retry_Solver \<or> st_current st' \<in> {Wf_Runtime_Repair, Wf_Engineering_Blocked, Wf_Engineering_Review_Required}))"

lemma expected_agentsD:
  assumes "expected_agents ag"
  shows "\<exists>rest. ag_checkpoint ag reason st = (None, rest)"
    and "ag_contract ag st = Some e \<Longrightarrow> fst e \<in> {Ex_Value, Ex_OS}"
    and "st_current st = Wf_Simulation \<Longrightarrow> ag_execute ag n st = (Inl e, rest) \<Longrightarrow> caught e"
    and "\<exists>r rest. ag_parse ag n run st = (Inr r, rest)"
    and "ag_verify ag r st = (Inl e, rest) \<Longrightarrow> caught e"
    and "\<exists>d st'. ag_repair ag n st = (Inr d, st') \<and> keeps_authority st st' \<and>
        (d = Retry_Solver \<or> st_current st' \<in> {Wf_Runtime_Repair, Wf_Engineering_Blocked, Wf_Engineering_Review_Required})"
proof -
  show "\<exists>rest. ag_checkpoint ag reason st = (None, rest)"
    using assms by (simp add: expected_agents_def prod_eq_iff)
qed (use assms in \<open>unfold expected_agents_def, blast\<close>)+

text \<open>
  How \<open>run\<close> ends: it returned, or the operating system failed while the sealed inputs were read; in a
  state of its own; with the report it found or a valid one of at most \<open>k\<close> attempts; done only on a
  success whose outputs were verified.
\<close>

definition valid_report :: "nat \<Rightarrow> runtime_report \<Rightarrow> bool" where
  "valid_report k rep \<longleftrightarrow> report_ok rep \<and> length (rr_attempts rep) \<le> k \<and>
     (rr_success rep \<longrightarrow> sim_outputs_verified (rr_final_result rep) = Some True)"

definition runtime_ended :: "nat \<Rightarrow> runtime_report option \<Rightarrow> 'r outcome \<Rightarrow> bool" where
  "runtime_ended k prior out \<longleftrightarrow>
     fst out \<in> {None, Some (Ex_OS, [])} \<and>
     (fst out = None \<longrightarrow> st_current (snd out) \<in>
        {Wf_Failed, Wf_Execution_Done, Wf_Result_Review_Required, Wf_Engineering_Blocked,
         Wf_Engineering_Review_Required}) \<and>
     (st_report (snd out) = prior \<or> (\<exists>rep. st_report (snd out) = Some rep \<and> valid_report k rep)) \<and>
     (fst out = None \<and> st_current (snd out) = Wf_Execution_Done \<longrightarrow>
        (\<exists>rep. st_report (snd out) = Some rep \<and> valid_report k rep \<and> rr_success rep))"

lemma runtime_ended_stop:
  assumes "st_report st = prior" and
    "s \<in> {Wf_Failed, Wf_Result_Review_Required, Wf_Engineering_Blocked, Wf_Engineering_Review_Required}"
  shows "runtime_ended k prior (None, transition s st)"
  using assms by (auto simp: runtime_ended_def transition_def)

lemma runtime_ended_os: "st_report st = prior \<Longrightarrow> runtime_ended k prior (Some (Ex_OS, []), st)"
  by (simp add: runtime_ended_def)

lemma checkpoint_expected:
  assumes "expected_agents ag" "\<And>rest. P (k (st\<lparr>st_rest := rest\<rparr>))"
  shows "P (checkpoint ag reason k st)"
proof -
  from expected_agentsD(1) [OF assms(1)] obtain rest where "ag_checkpoint ag reason st = (None, rest)" by blast
  then show ?thesis using assms(2) by (simp add: checkpoint_def)
qed

text \<open>A result is successful only after its outputs were verified.\<close>

lemma evaluate_run_expected:
  assumes "expected_agents ag"
  obtains r rest where "evaluate_run ag n run st = (Inr r, st\<lparr>st_rest := rest\<rparr>)"
    "sim_success r \<Longrightarrow> sim_outputs_verified r = Some True"
proof -
  from expected_agentsD(4) [OF assms] obtain p rest where p: "ag_parse ag n run st = (Inr p, rest)" by blast
  let ?r = "check_log_hash run p" and ?st = "st\<lparr>st_rest := rest\<rparr>"
  show thesis
  proof (cases "sim_success ?r")
    case False
    then show thesis by (intro that [of ?r rest]) (simp_all add: evaluate_run_def p)
  next
    case True
    obtain v rest' where v: "ag_verify ag ?r ?st = (v, rest')" by fastforce
    let ?v = "case v of Inl e \<Rightarrow> (False, [snd e]) | Inr w \<Rightarrow> w"
    have "\<And>e. v = Inl e \<Longrightarrow> caught e" using expected_agentsD(5) [OF assms] v by blast
    then have "evaluate_run ag n run st = (Inr (apply_outputs ?v ?r), st\<lparr>st_rest := rest'\<rparr>)"
      using True by (simp add: evaluate_run_def p v split: sum.split)
    then show thesis by (rule that) (simp add: apply_outputs_def split: if_splits)
  qed
qed

text \<open>The attempts of a loop that has reached attempt \<open>n\<close>: numbered from one, and none succeeded.\<close>

definition failed_attempts :: "nat \<Rightarrow> sim_attempt list \<Rightarrow> bool" where
  "failed_attempts n tried \<longleftrightarrow>
     map sa_attempt tried = [1..<n] \<and> list_all (\<lambda>a. \<not> sim_success (sa_result a)) tried"

lemma failed_attempts_length:
  assumes "failed_attempts n tried" "0 < n"
  shows "length tried = n - 1"
proof -
  from assms(1) have "length (map sa_attempt tried) = length [1..<n]" by (simp only: failed_attempts_def)
  then show ?thesis by simp
qed

text \<open>The report after attempt \<open>n\<close> is always valid, whether or not the attempt is marked for repair.\<close>

lemma attempt_report_valid:
  assumes "failed_attempts n tried" "0 < n" "n \<le> k" "sa_attempt a = n"
    and "sim_success (sa_result a) \<Longrightarrow> sim_outputs_verified (sa_result a) = Some True"
  shows "valid_report k (attempt_report (sim_success (sa_result a)) (tried @ [a]) (sa_result a))"
  using assms failed_attempts_length [OF assms(1,2)]
  by (auto simp: valid_report_def report_ok_def attempt_report_def failed_attempts_def)

lemma with_report_valid:
  assumes "valid_report k rep"
  shows "with_report rep g st = g (st\<lparr>st_report := Some rep\<rparr>)"
  using assms by (simp add: with_report_def valid_report_def)

lemma runtime_ended_report:
  assumes "valid_report k rep" "st_report st = Some rep"
    and "s \<in> {Wf_Failed, Wf_Result_Review_Required, Wf_Engineering_Blocked, Wf_Engineering_Review_Required} \<or>
      s = Wf_Execution_Done \<and> rr_success rep"
  shows "runtime_ended k prior (None, transition s st)"
  using assms by (auto simp: runtime_ended_def transition_def)

lemma after_repair_expected:
  assumes rep: "\<And>b. valid_report k (attempt_report False (tried @ [a\<lparr>sa_repair_requested := b\<rparr>]) result)"
    and go: "\<And>b. st_current st' = Wf_Simulation \<Longrightarrow> runtime_ended k prior (go (tried @ [a\<lparr>sa_repair_requested := b\<rparr>]) st')"
    and state: "d = Retry_Solver \<or> st_current st' \<in> {Wf_Runtime_Repair, Wf_Engineering_Blocked, Wf_Engineering_Review_Required}"
  shows "runtime_ended k prior (after_repair (tried @ [a]) result go d st')"
proof -
  let ?rep = "\<lambda>b. attempt_report False (tried @ [a\<lparr>sa_repair_requested := b\<rparr>]) result"
  have blocked: "runtime_ended k prior (block_run (st'\<lparr>st_report := Some (?rep b)\<rparr>))" for b
    unfolding block_run_def by (rule runtime_ended_report [OF rep [of b]]) simp_all
  have "runtime_ended k prior (None, st'\<lparr>st_report := Some (?rep b)\<rparr>)"
    if "st_current st' \<in> {Wf_Engineering_Blocked, Wf_Engineering_Review_Required}" for b
    using that rep [of b] by (auto simp: runtime_ended_def)
  with blocked go state show ?thesis
    by (auto simp: after_repair_def Let_def with_report_valid [OF rep])
qed

lemma judge_attempt_expected:
  assumes ag: "expected_agents ag" and n: "0 < n" "n \<le> k" and tried: "failed_attempts n tried"
    and out: "sim_success result \<Longrightarrow> sim_outputs_verified result = Some True"
    and go: "\<And>marked st'. n < k \<Longrightarrow> keeps_authority st st' \<Longrightarrow> st_current st' = Wf_Simulation \<Longrightarrow>
      failed_attempts (Suc n) marked \<Longrightarrow> runtime_ended k prior (go marked st')"
  shows "runtime_ended k prior (judge_attempt ag k n
    (tried @ [\<lparr>sa_attempt = n, sa_result = result, sa_repair_requested = False\<rparr>]) run result go st)"
proof -
  let ?a = "\<lparr>sa_attempt = n, sa_result = result, sa_repair_requested = False\<rparr>"
  have rep: "valid_report k (attempt_report (sim_success result) (tried @ [?a\<lparr>sa_repair_requested := b\<rparr>]) result)" for b
    using attempt_report_valid [OF tried n, of "?a\<lparr>sa_repair_requested := b\<rparr>"] out by simp
  note rep' = rep [of False, simplified]
  show ?thesis
  proof (cases "sim_success result")
    case True
    with rep' show ?thesis
      by (simp add: judge_attempt_def with_report_valid)
        (rule runtime_ended_report, assumption, simp_all add: attempt_report_def)
  next
    case False
    with rep' have valid: "valid_report k (attempt_report False (tried @ [?a]) result)" by simp
    obtain d st' where repair: "ag_repair ag n st = (Inr d, st')" "keeps_authority st st'"
      "d = Retry_Solver \<or> st_current st' \<in> {Wf_Runtime_Repair, Wf_Engineering_Blocked, Wf_Engineering_Review_Required}"
      using expected_agentsD(6) [OF ag] by blast
    have "runtime_ended k prior (after_repair (tried @ [?a]) result go d st')" if "n < k"
    proof (rule after_repair_expected [OF _ _ repair(3)])
      show "valid_report k (attempt_report False (tried @ [?a\<lparr>sa_repair_requested := b\<rparr>]) result)" for b
        using rep [of b] False by simp
      show "runtime_ended k prior (go (tried @ [?a\<lparr>sa_repair_requested := b\<rparr>]) st')"
        if "st_current st' = Wf_Simulation" for b
        by (rule go [OF \<open>n < k\<close> repair(2) that]) (use tried n False in \<open>simp add: failed_attempts_def\<close>)
    qed
    with valid False show ?thesis
      by (auto simp: judge_attempt_def with_report_valid block_run_def repair(1) split: prod.split
          intro!: runtime_ended_report [OF valid])
  qed
qed

lemma runtime_ended_workspace:
  assumes "st_report st = prior"
  shows "runtime_ended k prior
    (if ws_exn e = Ex_Safety then (None, transition Wf_Failed st) else (Some (ws_exn e, []), st))"
proof -
  have "ws_exn e = Ex_Safety \<or> ws_exn e = Ex_OS" by (simp add: ws_exn_def split: workspace_error.split)
  with assms show ?thesis by (auto intro: runtime_ended_stop runtime_ended_os)
qed

lemma runtime_loop_expected:
  assumes "expected_agents ag" "0 < n" "n + rounds = Suc k" "0 < rounds" "failed_attempts n tried"
    and "st_plan st \<noteq> None" "st_seal st \<noteq> None" "st_approval st \<noteq> None" "st_report st = prior"
      "st_current st = Wf_Simulation"
  shows "runtime_ended k prior (runtime_loop ag dg k rounds n tried st)"
  using assms(2-)
proof (induction rounds arbitrary: n tried st)
  case (Suc rounds)
  obtain plan sl where sealed: "st_plan st = Some plan" "st_seal st = Some sl" using Suc.prems by auto
  show ?case
  proof (cases "verify_case dg plan sl st")
    case (Inl e)
    with Suc.prems show ?thesis by (simp only: runtime_loop.simps sealed prod.case option.case sum.case runtime_ended_workspace)
  next
    case (Inr u)
    let ?attempt = "\<lambda>st. case start_solver ag dg n plan st of
        (Inl e, st') \<Rightarrow> if caught e then (None, transition Wf_Engineering_Blocked st') else (Some e, st')
      | (Inr run, st') \<Rightarrow> finish_attempt ag k n tried run (runtime_loop ag dg k rounds (Suc n)) st'"
    have attempt: "runtime_ended k prior (?attempt s)" if s: "keeps_authority st s" "st_current s = Wf_Simulation" for s
    proof -
      obtain r rest where start: "start_solver ag dg n plan s = (r, s\<lparr>st_rest := rest\<rparr>)"
          "\<And>e. r = Inl e \<Longrightarrow> caught e"
      proof (cases "check_authority dg plan s")
        case None
        obtain r rest where exec: "ag_execute ag n s = (r, rest)" by fastforce
        show thesis
          by (rule that [of r rest])
            (use None exec expected_agentsD(3) [OF assms(1) s(2)] in \<open>auto simp: start_solver_def\<close>)
      next
        case (Some e)
        then have "caught e" using s Suc.prems
          by (auto simp: check_authority_def keeps_authority_def caught_def split: option.splits sum.splits)
        with that [of "Inl e" "st_rest s"] Some show thesis by (simp add: start_solver_def)
      qed
      show ?thesis
      proof (cases r)
        case (Inl e)
        with start s Suc.prems show ?thesis
          by (auto simp: keeps_authority_def intro!: runtime_ended_stop)
      next
        case (Inr run)
        let ?s = "s\<lparr>st_rest := rest\<rparr>"
        obtain result rest' where result: "evaluate_run ag n run ?s = (Inr result, ?s\<lparr>st_rest := rest'\<rparr>)"
            "sim_success result \<Longrightarrow> sim_outputs_verified result = Some True"
          using evaluate_run_expected [OF assms(1)] by blast
        have "runtime_ended k prior (finish_attempt ag k n tried run (runtime_loop ag dg k rounds (Suc n)) ?s)"
          unfolding finish_attempt_def result(1) prod.case sum.case
        proof (rule checkpoint_expected [of ag "runtime_ended k prior", OF assms(1)],
            rule judge_attempt_expected [OF assms(1) _ _ Suc.prems(4) result(2)])
          fix marked st' rest'' assume kept: "n < k" "keeps_authority
            ((?s\<lparr>st_rest := rest', st_simulation := Some result, st_simulation_attempts := n,
               st_pending := Some (Pending_Completed n), st_rest := rest''\<rparr>)\<lparr>st_pending := None\<rparr>) st'"
            and marked: "failed_attempts (Suc n) marked" and sim: "st_current st' = Wf_Simulation"
          then show "runtime_ended k prior (runtime_loop ag dg k rounds (Suc n) marked st')"
            by (intro Suc.IH) (use s Suc.prems in \<open>simp_all add: keeps_authority_def\<close>)
        qed (use Suc.prems in auto)
        then show ?thesis using start Inr by simp
      qed
    qed
    have "runtime_ended k prior (checkpoint ag ''solver-start-intent'' ?attempt
        (st\<lparr>st_pending := Some (Pending_Intent n)\<rparr>))"
      by (rule checkpoint_expected [of ag "runtime_ended k prior", OF assms(1)], intro attempt)
        (use Suc.prems in \<open>simp_all add: keeps_authority_def\<close>)
    then show ?thesis by (simp only: runtime_loop.simps sealed Inr prod.case option.case sum.case)
  qed
qed simp

text \<open>
  C7: started in \<open>SIMULATION\<close>, the runtime phase returns within the configured number of attempts and
  never reaches the error after its loop, provided that the agents raise only what the orchestrator expects (the
  solver only has to in \<open>SIMULATION\<close>, so it is never started in another state) and that a repair turn keeps plan,
  seal, approval and report and, unless it asks for a retry, leaves the run in the repair state, blocked or
  waiting for a review.  The phase ends in one of five states, never in that of a repair, raises at most the
  operating system's failure to read a sealed input, stores only reports that pass their validator (attempts numbered
  from one, only the last may succeed), and ends as done only on a success whose outputs were verified.
\<close>

theorem runtime_run_bounded:
  assumes "expected_agents ag" "0 < k" "st_current st = Wf_Simulation"
  shows "runtime_ended k (st_report st) (runtime_run ag dg idg k st)"
  unfolding runtime_run_def
proof (rule checkpoint_expected [of ag "runtime_ended k (st_report st)", OF assms(1)], goal_cases)
  case (1 rest)
  let ?st = "st\<lparr>st_rest := rest\<rparr>"
  note stop = runtime_ended_stop [of _ "st_report st"]
  have loop: "runtime_ended k (st_report st) (runtime_loop ag dg k k 1 [] (?st\<lparr>st_workspace := w\<rparr>))"
    if "st_plan st \<noteq> None" "st_seal st \<noteq> None" "st_approval st \<noteq> None" for w
    by (rule runtime_loop_expected [OF assms(1)]) (use assms(2,3) that in \<open>simp_all add: failed_attempts_def\<close>)
  show ?case
  proof (cases "st_solve_approved st \<and> st_has_case_dir st \<and> st_plan st \<noteq> None \<and> st_seal st \<noteq> None")
    case False
    then show ?thesis by (auto intro!: stop split: option.split)
  next
    case True
    then obtain plan sl where sealed: "st_plan st = Some plan" "st_seal st = Some sl" by auto
    obtain r w where adopt: "adopt_seal (st_workspace st) sl = (r, w)" by fastforce
    show ?thesis
    proof (cases r)
      case (Inl e)
      with True runtime_ended_workspace [of "?st\<lparr>st_workspace := w\<rparr>" "st_report st" k e] show ?thesis
        by (simp add: sealed adopt Let_def)
    next
      case (Inr u)
      let ?s = "?st\<lparr>st_workspace := w\<rparr>"
      have unreadable: "runtime_ended k (st_report st)
          (if ws_exn e = Ex_Safety then (None, transition Wf_Failed ?s) else (Some (ws_exn e, []), ?s))" for e
        by (rule runtime_ended_workspace) simp
      have compiled: "ag_contract ag s = Some (a, b) \<Longrightarrow> a = Ex_Value \<or> a = Ex_OS" for s a b
        using expected_agentsD(2) [OF assms(1), of s "(a, b)"] by simp
      show ?thesis
      proof (cases "verify_case dg plan sl ?s")
        case (Inl e)
        with True Inr unreadable [of e] show ?thesis by (simp add: sealed adopt Let_def)
      next
        case (Inr v)
        with True \<open>r = Inr u\<close> loop [of w] show ?thesis
          by (auto simp: sealed adopt Let_def dest: compiled intro!: stop split: option.split)
      qed
    qed
  qed
qed

section \<open>Rejecting a proposed revision\<close>

lemma set_status_id: "(\<And>f. f \<in> set fs \<Longrightarrow> \<not> p f) \<Longrightarrow> set_status p status fs = fs"
  by (induction fs) (simp_all add: set_status_def)

lemma set_status_append: "set_status p status (fs @ gs) = set_status p status fs @ set_status p status gs"
  by (simp add: set_status_def)

text \<open>
  C10: feedback whose proposal the user rejects leaves the run where it was: at the gate the
  feedback was given at, with the same plan, seal, approval, files, results and earlier feedback; only the
  rejected feedback, its proposal and the history are added.
\<close>

theorem reject_restores_gate:
  assumes "review assess statement st = (Inr (), st1)" "st_current st1 = Wf_Revision_Ready"
    and "\<forall>f \<in> set (st_feedback st). hf_id f \<le> length (st_feedback st)"
  shows "\<exists>entries proposal. reject_revision st1 = (Inr (), st\<lparr>
    st_history := st_history st @ entries,
    st_feedback := st_feedback st @ [\<lparr>hf_id = Suc (length (st_feedback st)),
      hf_submitted_state = st_current st, hf_status = Fb_Proposal_Rejected\<rparr>],
    st_proposals := st_proposals st @ [proposal], st_active_proposal := None\<rparr>)"
proof -
  let ?i = "Suc (length (st_feedback st))"
  let ?f = "\<lambda>status. \<lparr>hf_id = ?i, hf_submitted_state = st_current st, hf_status = status\<rparr>"
  have gate: "st_current st \<in> feedback_states" using assms(1) by (simp add: review_def split: if_splits)
  have fresh: "f \<in> set (st_feedback st) \<Longrightarrow> hf_id f \<noteq> ?i" for f using assms(3) by fastforce
  have marked: "set_status (\<lambda>f. hf_id f = ?i) s (st_feedback st @ [?f t]) = st_feedback st @ [?f s]" for s t
    using set_status_id [of "st_feedback st" "\<lambda>f. hf_id f = ?i" s] fresh
    by (simp add: set_status_append) (simp add: set_status_def)
  let ?mid = "transition Wf_Feedback_Received (st\<lparr>st_feedback := st_feedback st @ [?f Fb_Unresolved]\<rparr>)"
  obtain assessed where "apply_assessment (st_current st) ?i assessed ?mid = (Inr (), st1)"
    using assms(1) by (auto simp: review_def Let_def split: if_splits)
  then obtain intake_revision case_revision where
      assessed: "apply_assessment (st_current st) ?i (Inr (intake_revision, case_revision)) ?mid = (Inr (), st1)"
    by (cases assessed) (auto simp: apply_assessment_def)
  let ?p = "\<lparr>rp_id = Suc (length (st_proposals st)), rp_feedback_ids = [?i],
    rp_requires_case_revision = case_revision, rp_requires_intake_revision = intake_revision\<rparr>"
  have "\<not> intake_revision" "case_revision" "length (st_proposals st) < 9999"
    using assessed assms(2) gate
    by (auto simp: apply_assessment_def Let_def transition_def feedback_states_def split: if_splits)
  with assessed have "st1 = transition Wf_Revision_Ready (set_feedback ?i Fb_Revision_Proposed
      (?mid\<lparr>st_proposals := st_proposals st @ [?p], st_active_proposal := Some ?p\<rparr>))"
    by (simp add: apply_assessment_def Let_def transition_def)
  then have st1: "st1 = st\<lparr>st_history := st_history st @ [(st_current st, Wf_Feedback_Received), (Wf_Feedback_Received, Wf_Revision_Ready)],
       st_feedback := st_feedback st @ [?f Fb_Revision_Proposed], st_proposals := st_proposals st @ [?p],
       st_active_proposal := Some ?p, st_current := Wf_Revision_Ready\<rparr>"
    by (simp add: transition_def set_feedback_def marked)
  have linked: "filter (\<lambda>f. hf_id f \<in> set (rp_feedback_ids ?p)) (st_feedback st1) = [?f Fb_Revision_Proposed]"
    using fresh by (auto simp: st1 filter_empty_conv)
  have rejected: "set_status (\<lambda>f. hf_id f \<in> set (rp_feedback_ids ?p)) Fb_Proposal_Rejected (st_feedback st1) =
      st_feedback st @ [?f Fb_Proposal_Rejected]"
    using marked by (simp add: st1)
  have target: "(if list_ex (\<lambda>f. hf_submitted_state f = Wf_Result_Review_Required) [?f Fb_Revision_Proposed]
      then Wf_Result_Review_Required
      else if list_ex (\<lambda>f. hf_submitted_state f = Wf_Solve_Ready) [?f Fb_Revision_Proposed]
      then Wf_Solve_Ready else Wf_Mesh_Ready) = st_current st"
    using gate by (auto simp: feedback_states_def)
  have active: "st_active_proposal st1 = Some ?p" "\<not> st_current st1 \<noteq> Wf_Revision_Ready" by (simp_all add: st1)
  have "reject_revision st1 = (Inr (), transition (st_current st) (st1\<lparr>
      st_feedback := st_feedback st @ [?f Fb_Proposal_Rejected], st_active_proposal := None\<rparr>))"
    unfolding reject_revision_def active(1) option.case Let_def linked rejected target using active(2) by simp
  then show ?thesis
    by (intro exI [of _ "[(st_current st, Wf_Feedback_Received), (Wf_Feedback_Received, Wf_Revision_Ready),
        (Wf_Revision_Ready, st_current st)]"] exI [of _ ?p]) (simp add: st1 transition_def)
qed

section \<open>From the approval to the accepted result\<close>

text \<open>A solver that runs through, with a parsed result that is a success, and outputs that are there.\<close>

definition solves :: "sim_result \<Rightarrow> 'r agents \<Rightarrow> bool" where
  "solves parsed ag \<longleftrightarrow>
     (\<forall>reason st. fst (ag_checkpoint ag reason st) = None) \<and> (\<forall>st. ag_contract ag st = None) \<and>
     (\<forall>n st. \<exists>run rest. ag_execute ag n st = (Inr run, rest) \<and> nr_log_sha256 run = sim_log_sha256 parsed \<and>
        (\<forall>st. fst (ag_parse ag n run st) = Inr parsed)) \<and>
     (\<forall>r st. \<exists>rest. ag_verify ag r st = (Inr (True, []), rest)) \<and>
     sim_success parsed \<and> sim_completed parsed \<and> sim_termination_verified parsed \<and>
     sim_process_success parsed \<and> sim_return_code parsed = 0"

lemma checkpoint_solves:
  assumes "solves parsed ag" "\<And>rest. P (k (st\<lparr>st_rest := rest\<rparr>))"
  shows "P (checkpoint ag reason k st)"
proof -
  have "fst (ag_checkpoint ag reason st) = None" using assms(1) by (simp add: solves_def)
  then obtain rest where "ag_checkpoint ag reason st = (None, rest)" by (metis prod.collapse)
  then show ?thesis using assms(2) by (simp add: checkpoint_def)
qed

definition solved :: "'r outcome \<Rightarrow> bool" where
  "solved out \<longleftrightarrow> fst out = None \<and> st_current (snd out) = Wf_Execution_Done \<and>
     (\<exists>rep. st_report (snd out) = Some rep \<and> rr_success rep) \<and>
     (\<exists>r. st_simulation (snd out) = Some r \<and> sim_success r \<and> sim_completed r \<and> sim_termination_verified r \<and>
        sim_process_success r \<and> sim_return_code r = 0 \<and> sim_outputs_verified r = Some True)"

lemma evaluate_run_solves:
  assumes "solves parsed ag" "nr_log_sha256 run = sim_log_sha256 parsed" "\<forall>st. fst (ag_parse ag n run st) = Inr parsed"
  shows "\<exists>rest. evaluate_run ag n run st = (Inr (parsed\<lparr>sim_outputs_verified := Some True\<rparr>), st\<lparr>st_rest := rest\<rparr>)"
proof -
  obtain rest where rest: "ag_parse ag n run st = (Inr parsed, rest)" using assms(3) by (metis prod.collapse)
  have "\<exists>rest'. ag_verify ag parsed (st\<lparr>st_rest := rest\<rparr>) = (Inr (True, []), rest')"
    using assms(1) by (simp add: solves_def)
  then obtain rest' where "ag_verify ag parsed (st\<lparr>st_rest := rest\<rparr>) = (Inr (True, []), rest')" ..
  moreover have "check_log_hash run parsed = parsed" using assms(2) by (simp add: check_log_hash_def)
  moreover have "sim_success parsed" using assms(1) by (simp add: solves_def)
  ultimately show ?thesis using rest by (intro exI [of _ rest']) (simp add: evaluate_run_def apply_outputs_def)
qed

lemma runtime_loop_solves:
  assumes ag: "solves parsed ag" and auth: "authorized dg st"
  shows "solved (runtime_loop ag dg k (Suc rounds) 1 [] st)"
proof -
  from auth obtain plan a sl where st: "st_plan st = Some plan" "st_approval st = Some a" "st_seal st = Some sl"
      "verify_case dg plan sl st = Inr ()" "check_authority dg plan st = None"
    by (auto simp: authorized_def check_authority_None)
  let ?attempt = "\<lambda>st. case start_solver ag dg 1 plan st of
      (Inl e, st') \<Rightarrow> if caught e then (None, transition Wf_Engineering_Blocked st') else (Some e, st')
    | (Inr run, st') \<Rightarrow> finish_attempt ag k 1 [] run (runtime_loop ag dg k rounds (Suc 1)) st'"
  have attempt: "solved (?attempt (st\<lparr>st_pending := p, st_rest := rest\<rparr>))" for p rest
  proof -
    let ?s = "st\<lparr>st_pending := p, st_rest := rest\<rparr>"
    obtain run rest' where run: "ag_execute ag 1 ?s = (Inr run, rest')" "nr_log_sha256 run = sim_log_sha256 parsed"
        "\<forall>st. fst (ag_parse ag 1 run st) = Inr parsed"
      using ag unfolding solves_def by blast
    have "check_authority dg plan ?s = None" using st(5) by (simp add: check_authority_def)
    then have "start_solver ag dg 1 plan ?s = (Inr run, ?s\<lparr>st_rest := rest'\<rparr>)"
      by (simp add: start_solver_def run(1) [simplified])
    moreover obtain rest'' where ev: "evaluate_run ag 1 run (?s\<lparr>st_rest := rest'\<rparr>) =
        (Inr (parsed\<lparr>sim_outputs_verified := Some True\<rparr>), ?s\<lparr>st_rest := rest'\<rparr>\<lparr>st_rest := rest''\<rparr>)"
      using evaluate_run_solves [OF ag run(2,3)] by blast
    have "solved (finish_attempt ag k 1 [] run (runtime_loop ag dg k rounds (Suc 1)) (?s\<lparr>st_rest := rest'\<rparr>))"
      unfolding finish_attempt_def ev prod.case sum.case
      by (rule checkpoint_solves [of parsed ag solved, OF ag])
        (use ag in \<open>simp add: judge_attempt_def with_report_def report_ok_def attempt_report_def solved_def
          transition_def solves_def\<close>)
    ultimately show ?thesis by simp
  qed
  have "solved (checkpoint ag ''solver-start-intent'' ?attempt (st\<lparr>st_pending := Some (Pending_Intent 1)\<rparr>))"
    by (rule checkpoint_solves [of parsed ag solved, OF ag]) (rule attempt)
  then show ?thesis by (simp only: runtime_loop.simps st(1,3,4) prod.case option.case sum.case)
qed

lemma issue_approval_accepts:
  "check_plan xsha psha (issue_approval xsha psha plan sl limits) plan = Inr ()"
  "check_repair_files (issue_approval xsha psha plan sl limits) sl = Inr ()"
  by (simp_all add: check_plan_def check_repair_files_def issue_approval_def split: prod.split)


text \<open>A case that is on disk as it was sealed, whoever wrote it, for an intake that is confirmed.\<close>

definition sealed_files :: "digests \<Rightarrow> approved_plan \<Rightarrow> case_seal \<Rightarrow> workspace \<Rightarrow> bool" where
  "sealed_files dg plan sl v \<longleftrightarrow>
     (\<exists>w names assets. v = w\<lparr>ws_authored := names, ws_assets := assets\<rparr> \<and>
        seal (dg_sha dg) (dg_manifest dg) w (dg_plan dg plan) = Inr sl \<and> store_ok w \<and>
        list_all (\<lambda>l. 2 \<le> length l) (ws_links w))"

definition case_as_sealed :: "digests \<Rightarrow> (intake_spec \<Rightarrow> string) \<Rightarrow> 'r cfd_state \<Rightarrow> bool" where
  "case_as_sealed dg idg st \<longleftrightarrow>
     (\<exists>plan sl. st_plan st = Some plan \<and> st_seal st = Some sl \<and> sealed_files dg plan sl (st_workspace st)) \<and>
     st_has_case_dir st \<and> assert_confirmed_intake idg st = Inr ()"

definition approved_as_sealed :: "digests \<Rightarrow> 'r cfd_state \<Rightarrow> bool" where
  "approved_as_sealed dg st \<longleftrightarrow> st_solve_approved st \<and>
     (\<exists>plan sl limits. st_plan st = Some plan \<and> st_seal st = Some sl \<and>
        st_approval st = Some (issue_approval (dg_execution dg) (dg_physical dg) plan sl limits))"

lemma confirmed_intake_frame:
  "assert_confirmed_intake idg (st\<lparr>st_rest := rest, st_workspace := w\<rparr>) = assert_confirmed_intake idg st"
  "assert_confirmed_intake idg (st\<lparr>st_rest := rest\<rparr>) = assert_confirmed_intake idg st"
  by (simp_all add: assert_confirmed_intake_def split: option.split)

lemma runtime_run_solves:
  assumes ag: "solves parsed ag" and ok: "case_as_sealed dg idg st" "approved_as_sealed dg st"
  shows "solved (runtime_run ag dg idg (Suc k) st)"
proof -
  from ok(1) obtain plan sl w names assets where st: "st_plan st = Some plan" "st_seal st = Some sl"
      "st_workspace st = w\<lparr>ws_authored := names, ws_assets := assets\<rparr>"
      "st_has_case_dir st" "assert_confirmed_intake idg st = Inr ()"
    and sealed: "seal (dg_sha dg) (dg_manifest dg) w (dg_plan dg plan) = Inr sl" "store_ok w"
      "list_all (\<lambda>l. 2 \<le> length l) (ws_links w)"
    unfolding case_as_sealed_def sealed_files_def by blast
  from ok(2) st obtain limits where approved: "st_solve_approved st"
      "st_approval st = Some (issue_approval (dg_execution dg) (dg_physical dg) plan sl limits)"
    by (auto simp: approved_as_sealed_def)
  obtain v where v: "adopt_seal (st_workspace st) sl = (Inr (), v)"
      "verify_seal (dg_sha dg) (dg_manifest dg) v sl (dg_plan dg plan) = Inr ()"
    using adopt_restores_ownership [OF sealed(2,1,3)] st(3) by fastforce
  show ?thesis
    unfolding runtime_run_def
  proof (rule checkpoint_solves [of parsed ag solved, OF ag], goal_cases)
    case (1 rest)
    let ?s = "st\<lparr>st_rest := rest, st_workspace := v\<rparr>"
    have verified: "verify_case dg plan sl ?s = Inr ()" using v(2) by (simp add: verify_case_def)
    have confirmed: "\<not> isl (assert_confirmed_intake idg ?s)"
      using st(5) by (simp add: confirmed_intake_frame)
    have authority: "check_authority dg plan ?s = None"
      using st approved by (simp add: check_authority_None issue_approval_accepts)
    have "authorized dg ?s" using st approved verified by (auto simp: authorized_def issue_approval_accepts)
    then have loop: "solved (runtime_loop ag dg (Suc k) (Suc k) 1 [] ?s)" by (rule runtime_loop_solves [OF ag])
    have contract: "ag_contract ag ?s = None" using ag by (simp add: solves_def)
    show ?case
      using loop by (simp add: st(1,2,4) approved v(1) verified confirmed authority contract del: runtime_loop.simps)
  qed
qed

definition reviewed :: "'r outcome \<Rightarrow> bool" where
  "reviewed out \<longleftrightarrow> fst out = None \<and> st_current (snd out) = Wf_Result_Review_Required \<and>
     result_acceptance_blockers (snd out) = []"

lemma reviewedE:
  assumes "reviewed out"
  obtains st where "out = (None, st)" "st_current st = Wf_Result_Review_Required" "result_acceptance_blockers st = []"
  using assms by (cases out) (auto simp: reviewed_def)

lemma reviewed_frame: "reviewed (None, st\<lparr>st_rest := rest\<rparr>) = reviewed (None, st)"
  by (simp add: reviewed_def result_acceptance_blockers_def)

lemma solved_reviewed:
  assumes "solved (None, st)" "st_current st' = Wf_Result_Review_Required" "st_simulation st' = st_simulation st"
  shows "reviewed (None, mark_feedback_awaiting_review st')"
proof -
  from assms obtain r where "st_simulation st' = Some r" "sim_success r" "sim_completed r"
      "sim_termination_verified r" "sim_process_success r" "sim_return_code r = 0" "sim_outputs_verified r = Some True"
    by (auto simp: solved_def)
  with assms(2) show ?thesis
    by (simp add: reviewed_def result_acceptance_blockers_def mark_feedback_awaiting_review_def)
qed

text \<open>
  The contract of the post-processing agent, if it is enabled: after a success it returns, hands the run to the
  review of the result and leaves the result of the solver as it is.
\<close>

definition hands_to_review :: "workflow_config \<Rightarrow> 'r agents \<Rightarrow> bool" where
  "hands_to_review cfg ag \<longleftrightarrow> (wc_postprocessing_enabled cfg \<longrightarrow>
     (\<forall>st. st_current st = Wf_Execution_Done \<longrightarrow> (\<exists>st'. ag_postprocess ag st = (None, st') \<and>
        st_current st' = Wf_Result_Review_Required \<and> st_simulation st' = st_simulation st)))"

lemma dispatch_solved:
  assumes "st_current st = Wf_Simulation" "solved (runtime_run ag dg idg (wc_max_attempts cfg) st)"
    and "hands_to_review cfg ag"
  shows "reviewed (dispatch ag dg idg cfg st)"
proof -
  obtain st' where out: "runtime_run ag dg idg (wc_max_attempts cfg) st = (None, st')" and st': "solved (None, st')"
    using assms(2) by (metis prod.collapse solved_def)
  obtain st'' where after: "(if wc_postprocessing_enabled cfg then ag_postprocess ag st'
      else (None, transition Wf_Result_Review_Required st')) = (None, st'')"
      "st_current st'' = Wf_Result_Review_Required" "st_simulation st'' = st_simulation st'"
    using assms(3) st' by (cases "wc_postprocessing_enabled cfg") (auto simp: hands_to_review_def solved_def transition_def)
  have "dispatch ag dg idg cfg st = after_simulation ag cfg st'"
    using assms(1) by (simp add: dispatch_def out then_do_def)
  also have "\<dots> = (None, mark_feedback_awaiting_review st'')"
    using st' after by (auto simp: after_simulation_def solved_def then_do_def)
  finally show ?thesis using solved_reviewed [OF st' after(2,3)] by simp
qed

text \<open>
  C6: when a user approves a case that is on disk as it was sealed (in this or an
  earlier session), the solver then runs through with the required outputs, and post-processing, where it is
  enabled, hands the run to the review without touching the result, the workflow ends in
  the result review with nothing in the way of acceptance, and accepting completes it.
\<close>

theorem approved_case_reaches_review:
  assumes "approve_solve dg limits st = (Inr (), approved)"
    and "case_as_sealed dg idg st" "solves parsed ag"
    and "0 < wc_max_attempts cfg" "hands_to_review cfg ag"
  shows "st_current (workflow_run ag dg idg cfg (Suc (Suc steps)) approved) = Wf_Result_Review_Required \<and>
    result_acceptance_blockers (workflow_run ag dg idg cfg (Suc (Suc steps)) approved) = [] \<and>
    st_current (snd (accept_result (workflow_run ag dg idg cfg (Suc (Suc steps)) approved))) = Wf_Complete"
proof -
  have current: "st_current approved = Wf_Simulation"
    using assms(1) by (auto simp: approve_solve_def transition_def split: if_splits option.splits)
  have sealed: "case_as_sealed dg idg approved" "approved_as_sealed dg approved"
    using assms(1,2)
    by (auto simp: approve_solve_def transition_def case_as_sealed_def approved_as_sealed_def
        assert_confirmed_intake_def split: if_splits option.splits)
  have simulated: "reviewed (dispatch ag dg idg cfg (approved\<lparr>st_rest := rest\<rparr>))" for rest
  proof (rule dispatch_solved [OF _ _ assms(5)])
    have "case_as_sealed dg idg (approved\<lparr>st_rest := rest\<rparr>)" "approved_as_sealed dg (approved\<lparr>st_rest := rest\<rparr>)"
      using sealed by (simp_all add: case_as_sealed_def approved_as_sealed_def confirmed_intake_frame)
    with assms(4) show "solved (runtime_run ag dg idg (wc_max_attempts cfg) (approved\<lparr>st_rest := rest\<rparr>))"
      using runtime_run_solves [OF assms(3), of dg idg _ "wc_max_attempts cfg - 1"] by simp
  qed (simp add: current)
  have "reviewed (workflow_step ag dg idg cfg approved)"
    unfolding workflow_step_def
  proof (rule checkpoint_solves [of parsed ag reviewed, OF assms(3)], goal_cases)
    case (1 rest)
    from simulated [of rest] obtain st' where st': "dispatch ag dg idg cfg (approved\<lparr>st_rest := rest\<rparr>) = (None, st')"
      by (rule reviewedE)
    with simulated [of rest] have "reviewed (None, st')" by simp
    then show ?case
      unfolding st' then_do_def prod.case option.case
      by (intro checkpoint_solves [of parsed ag reviewed, OF assms(3)]) (simp add: reviewed_frame)
  qed
  then obtain st' where step: "workflow_step ag dg idg cfg approved = (None, st')"
      "st_current st' = Wf_Result_Review_Required" "result_acceptance_blockers st' = []"
    by (rule reviewedE)
  then have "workflow_run ag dg idg cfg (Suc (Suc steps)) approved = st'"
    using current by (simp add: terminal_states_def)
  with step show ?thesis by (simp add: accept_result_def transition_def)
qed

section \<open>A concrete run\<close>

definition clean_result :: sim_result where
  "clean_result = \<lparr>sim_success = True, sim_completed = True, sim_return_code = 0, sim_process_success = True,
     sim_termination_verified = True, sim_outputs_verified = None, sim_log_sha256 = ''h'',
     sim_evidence_failures = []\<rparr>"

definition crashed_result :: sim_result where
  "crashed_result = clean_result\<lparr>sim_success := False, sim_completed := False, sim_return_code := 1,
     sim_process_success := False\<rparr>"

definition clean_agents :: "nat agents" where
  "clean_agents = \<lparr>
     ag_checkpoint = (\<lambda>_ st. (None, st_rest st)), ag_intake = (\<lambda>st. (None, st)), ag_prepare = (\<lambda>st. (None, st)),
     ag_postprocess = (\<lambda>st. (None, transition Wf_Result_Review_Required (transition Wf_Postprocessing st))), ag_contract = (\<lambda>_. None),
     ag_execute = (\<lambda>_ st. (Inr \<lparr>nr_log_on_disk = True, nr_log_sha256 = ''h''\<rparr>, st_rest st)),
     ag_parse = (\<lambda>_ _ st. (Inr clean_result, st_rest st)),
     ag_verify = (\<lambda>_ st. (Inr (True, []), st_rest st)), ag_inconclusive = (\<lambda>_ _. False),
     ag_failure = (\<lambda>_ st. (Failed_Event [] [] [], st_rest st)),
     ag_repair = (\<lambda>_ st. (Inr Retry_Solver, snd (runtime_repair_outcome Retry_Solver st)))\<rparr>"

definition ready_state :: "nat cfd_state" where
  "ready_state = \<lparr>
     st_intake = Some \<lparr>in_status = ''ready_for_review'', in_content = ''i''\<rparr>, st_intake_confirmed = True,
     st_intake_digest = Some ''i'', st_plan = Some solved_plan, st_seal = Some (case_sealed solved_case),
     st_has_case_dir = True, st_solve_approved = False, st_approval = None, st_pending = None,
     st_primary_failure = None, st_secondary_failures = [], st_simulation = None, st_report = None,
     st_simulation_attempts = 0, st_feedback = [], st_proposals = [], st_active_proposal = None,
     st_current = Wf_Solve_Ready, st_history = [], st_workspace = solved_case, st_rest = 0\<rparr>"

definition ready_approved :: "nat cfd_state" where
  "ready_approved = snd (approve_solve solve_digests None ready_state)"

lemma approve_ready: "approve_solve solve_digests None ready_state = (Inr (), ready_approved)"
  by (simp add: ready_approved_def approve_solve_def ready_state_def solve_approval_states_def)

lemma solved_case_sealed:
  "seal (dg_sha solve_digests) (dg_manifest solve_digests) solved_case (dg_plan solve_digests solved_plan) =
     Inr (case_sealed solved_case)"
proof -
  let ?r = "seal id (\<lambda>fs. concat (map fs_sha256 fs)) solved_case ''p''"
  have "\<not> isl ?r" by code_simp
  then have "?r = Inr (case_sealed solved_case)" by (cases ?r) (simp_all add: case_sealed_def)
  then show ?thesis by (simp add: solve_digests_def)
qed

lemma solved_case_ok: "store_ok solved_case" "list_all (\<lambda>l. 2 \<le> length l) (ws_links solved_case)"
  unfolding store_ok_def by code_simp+

lemma ready_case_as_sealed: "case_as_sealed solve_digests in_content ready_state"
proof -
  have "solved_case = solved_case\<lparr>ws_authored := ws_authored solved_case, ws_assets := ws_assets solved_case\<rparr>"
    by simp
  then have "sealed_files solve_digests solved_plan (case_sealed solved_case) solved_case"
    using solved_case_sealed solved_case_ok unfolding sealed_files_def by blast
  then show ?thesis by (simp add: case_as_sealed_def ready_state_def assert_confirmed_intake_def)
qed

lemma clean_agents_solve: "solves clean_result clean_agents"
  by (simp add: solves_def clean_agents_def clean_result_def)

lemma approved_case_reaches_review_witness:
  "st_current (workflow_run clean_agents solve_digests in_content
     \<lparr>wc_max_attempts = 3, wc_postprocessing_enabled = True\<rparr> 20 ready_approved) = Wf_Result_Review_Required"
proof -
  have "hands_to_review \<lparr>wc_max_attempts = 3, wc_postprocessing_enabled = True\<rparr> clean_agents"
    by (simp add: hands_to_review_def clean_agents_def transition_def)
  then show ?thesis
    using approved_case_reaches_review [OF approve_ready ready_case_as_sealed clean_agents_solve,
      of "\<lparr>wc_max_attempts = 3, wc_postprocessing_enabled = True\<rparr>" 18]
    by (simp add: numeral_eq_Suc)
qed

lemma ready_authorized: "authorized solve_digests ready_approved"
  using seal_then_verify [OF solved_case_ok(1) solved_case_sealed]
  by (auto simp: authorized_def ready_approved_def approve_solve_def ready_state_def solve_approval_states_def
      transition_def issue_approval_accepts verify_case_def)

text \<open>A solver that would break out when it is started without an approval.\<close>

definition rogue_solver :: "nat \<Rightarrow> nat cfd_state \<Rightarrow> (exn + native_run) \<times> nat" where
  "rogue_solver n st = (if st_approval st = None then (Inl (Ex_Other, ''escaped''), 666) else ag_execute clean_agents n st)"

lemma solver_needs_authority_witness:
  "rogue_solver 1 ready_state \<noteq> ag_execute clean_agents 1 ready_state \<and>
   authorized solve_digests ready_approved \<and>
   workflow_run (clean_agents\<lparr>ag_execute := rogue_solver\<rparr>) solve_digests in_content
     \<lparr>wc_max_attempts = 3, wc_postprocessing_enabled = False\<rparr> 20 ready_state =
   workflow_run clean_agents solve_digests in_content
     \<lparr>wc_max_attempts = 3, wc_postprocessing_enabled = False\<rparr> 20 ready_state"
proof -
  have "rogue_solver 1 ready_state \<noteq> ag_execute clean_agents 1 ready_state"
    by (simp add: rogue_solver_def ready_state_def clean_agents_def)
  moreover have "ag_execute clean_agents n st = rogue_solver n st" if "authorized solve_digests st" for n st
    using that by (auto simp: rogue_solver_def authorized_def)
  ultimately show ?thesis using solver_needs_authority ready_authorized by blast
qed

text \<open>A solver that crashes, and would break out of the phase outside \<open>SIMULATION\<close>.\<close>

definition crashing_agents :: "nat agents" where
  "crashing_agents = clean_agents\<lparr>
     ag_execute := (\<lambda>n st. if st_current st = Wf_Simulation then ag_execute clean_agents n st
       else (Inl (Ex_Other, ''escaped''), 0)),
     ag_parse := \<lambda>_ _ st. (Inr crashed_result, st_rest st)\<rparr>"

lemma crashing_agents_expected: "expected_agents crashing_agents"
  by (auto simp: expected_agents_def crashing_agents_def clean_agents_def keeps_authority_def
      runtime_repair_outcome_def transition_def)

lemma runtime_run_bounded_witness:
  "runtime_ended 3 None (runtime_run crashing_agents solve_digests in_content 3 ready_approved)"
proof -
  have "st_report ready_approved = None" "st_current ready_approved = Wf_Simulation"
    by (simp_all add: ready_approved_def approve_solve_def ready_state_def solve_approval_states_def transition_def)
  then show ?thesis using runtime_run_bounded [OF crashing_agents_expected, of 3] by (metis zero_less_numeral)
qed

lemma reject_restores_gate_witness:
  "st_current (snd (reject_revision (snd (review (\<lambda>_ _. Inr (False, True)) ''finer'' ready_state)))) = Wf_Solve_Ready"
proof -
  have "strip ''finer'' = ''finer''" by code_simp
  then have reviewed: "review (\<lambda>_ _. Inr (False, True)) ''finer'' ready_state =
      (Inr (), snd (review (\<lambda>_ _. Inr (False, True)) ''finer'' ready_state))"
    "st_current (snd (review (\<lambda>_ _. Inr (False, True)) ''finer'' ready_state)) = Wf_Revision_Ready"
    by (simp_all add: review_def ready_state_def feedback_states_def apply_assessment_def Let_def transition_def)
  show ?thesis using reject_restores_gate [OF reviewed] by (auto simp: ready_state_def)
qed

end
