(* ===== verification/Execution_Drivers.thy ===== *)
theory Execution_Drivers
  imports Workflow
begin

text \<open>
  The contracts of execution drivers, \<^verbatim>\<open>tools/execution_contracts.py\<close> with the package data it loads,
  \<^verbatim>\<open>data/execution_driver_contracts.json\<close>: how many scopes a driver takes, how they are named,
  whether they carry a solver, what \<^verbatim>\<open>system/controlDict\<close> has to say, and the arguments the program
  is started with.
\<close>

section \<open>Contracts\<close>

text \<open>Policies are the strings of the data file; no value is checked when it is loaded.\<close>

record driver_contract =
  dc_driver :: string
  dc_provider_ids :: "string list"
  dc_min_scopes :: int
  dc_max_scopes :: "int option"
  dc_scope_namespace :: string
  dc_scope_solver_binding :: string
  dc_control_mode :: string
  dc_control_entry :: "string option"
  dc_runtime_arguments :: "string list"
  dc_plan_solver_mirror :: string

text \<open>An object of the data file; an absent key and, for the maximum, \<open>null\<close> are \<open>None\<close>.\<close>

record driver_item =
  di_driver :: "string option"
  di_provider_ids :: "string list"
  di_min :: "int option"
  di_max :: "int option"
  di_namespace :: "string option"
  di_solver_binding :: "string option"
  di_control_mode :: "string option"
  di_control_entry :: "string option"
  di_arguments :: "string list"
  di_mirror :: "string option"

definition or_default :: "string \<Rightarrow> string option \<Rightarrow> string" where
  "or_default d v = (if present v then the v else d)"

definition parse_contract :: "string \<Rightarrow> driver_item \<Rightarrow> driver_contract" where
  "parse_contract default_driver it =
     \<lparr>dc_driver = or_default default_driver (di_driver it),
      dc_provider_ids = filter (\<lambda>x. x \<noteq> []) (di_provider_ids it),
      dc_min_scopes = get_default 1 (di_min it),
      dc_max_scopes = di_max it,
      dc_scope_namespace = get_default ''any'' (di_namespace it),
      dc_scope_solver_binding = get_default ''optional'' (di_solver_binding it),
      dc_control_mode = get_default ''none'' (di_control_mode it),
      dc_control_entry = (if present (di_control_entry it) then di_control_entry it else None),
      dc_runtime_arguments = di_arguments it,
      dc_plan_solver_mirror = get_default ''driver'' (di_mirror it)\<rparr>"

datatype driver_error =
    Unsupported_Schema_Version
  | Duplicate_Driver_Contract
  | Provider_Maps_To_Many string
  | Driver_Disagrees string string
  | Driver_Maps_To_Many string
  | Scope_Solver_Unbound
  | Topology_Not_Satisfied
  | Mirror_Without_Scope
  | Mirror_Incomplete
  | Scalar_Needs_One_Scope
  | Named_Map_Needs_Names
  | Unsupported_Control_Mode string

definition load_drivers ::
  "string \<Rightarrow> driver_item \<Rightarrow> driver_item list \<Rightarrow> driver_error + driver_contract \<times> driver_contract list" where
  "load_drivers version default_item items =
     (if version \<noteq> ''1.0'' then Inl Unsupported_Schema_Version
      else
        let drivers = map (parse_contract ''*'') items
        in if \<not> distinct (map dc_driver drivers) then Inl Duplicate_Driver_Contract
           else Inr (parse_contract ''*'' default_item, drivers))"

definition default_application_json :: driver_item where
  "default_application_json =
     \<lparr>di_driver = None, di_provider_ids = [], di_min = Some 1, di_max = Some 1,
      di_namespace = Some ''root_only'', di_solver_binding = Some ''forbidden'',
      di_control_mode = Some ''none'', di_control_entry = None, di_arguments = [],
      di_mirror = Some ''driver''\<rparr>"

definition drivers_json :: "driver_item list" where
  "drivers_json =
     [\<lparr>di_driver = Some ''foamRun'', di_provider_ids = [''execution.foamRun'', ''driver.foamRun''],
       di_min = Some 1, di_max = Some 1, di_namespace = Some ''root_only'',
       di_solver_binding = Some ''required'', di_control_mode = Some ''scalar'',
       di_control_entry = Some ''solver'', di_arguments = [''-solver'', ''{scope_solver}''],
       di_mirror = Some ''scope_solver''\<rparr>,
      \<lparr>di_driver = Some ''foamMultiRun'', di_provider_ids = [''execution.foamMultiRun'', ''driver.foamMultiRun''],
       di_min = Some 1, di_max = None, di_namespace = Some ''named_only'',
       di_solver_binding = Some ''required'', di_control_mode = Some ''named_map'',
       di_control_entry = Some ''regionSolvers'', di_arguments = [], di_mirror = Some ''driver''\<rparr>]"

definition driver_registry :: "driver_contract \<times> driver_contract list" where
  "driver_registry =
     (case load_drivers ''1.0'' default_application_json drivers_json of
        Inr r \<Rightarrow> r | Inl _ \<Rightarrow> (parse_contract ''*'' default_application_json, []))"

section \<open>Lookup and validation\<close>

definition execution_driver_contract :: "string \<Rightarrow> string option \<Rightarrow> driver_error + driver_contract" where
  "execution_driver_contract driver provider_id =
     (let provider = or_default [] provider_id; (default, contracts) = driver_registry;
          by_provider = filter (\<lambda>c. provider \<noteq> [] \<and> provider \<in> set (dc_provider_ids c)) contracts;
          by_name = filter (\<lambda>c. dc_driver c = driver) contracts
      in case by_provider of
           [c] \<Rightarrow> if dc_driver c \<noteq> driver then Inl (Driver_Disagrees driver (dc_driver c)) else Inr c
         | _ # _ # _ \<Rightarrow> Inl (Provider_Maps_To_Many provider)
         | [] \<Rightarrow>
             (case by_name of
                [c] \<Rightarrow> Inr c
              | _ # _ # _ \<Rightarrow> Inl (Driver_Maps_To_Many driver)
              | [] \<Rightarrow> Inr (default\<lparr>dc_driver := driver, dc_provider_ids := []\<rparr>)))"

definition stripped_name :: "execution_scope \<Rightarrow> string option" where
  "stripped_name sc =
     (case scope_name sc of
        None \<Rightarrow> None
      | Some n \<Rightarrow> if strip n = [] then None else Some (strip n))"

datatype driver_failure =
    Too_Few_Scopes string int nat
  | Too_Many_Scopes string int nat
  | Root_Scope_Only string
  | Named_Scopes_Only string
  | Solver_And_Provider_Together
  | Solver_Binding_Required string
  | Solver_Binding_Forbidden string

definition has_solver :: "execution_scope \<Rightarrow> bool" where
  "has_solver sc \<longleftrightarrow> present (scope_solver_module sc) \<or> present (scope_solver_provider_id sc)"

definition complete_solver :: "execution_scope \<Rightarrow> bool" where
  "complete_solver sc \<longleftrightarrow> present (scope_solver_module sc) \<and> present (scope_solver_provider_id sc)"

definition scope_binding_failures :: "driver_contract \<Rightarrow> string \<Rightarrow> execution_scope \<Rightarrow> driver_failure list" where
  "scope_binding_failures c provider sc =
     (if has_solver sc \<and> \<not> complete_solver sc then [Solver_And_Provider_Together] else []) @
     (if dc_scope_solver_binding c = ''required'' \<and> \<not> complete_solver sc
      then [Solver_Binding_Required provider] else []) @
     (if dc_scope_solver_binding c = ''forbidden'' \<and> has_solver sc
      then [Solver_Binding_Forbidden provider] else [])"

definition validate_execution_contract :: "execution_spec \<Rightarrow> driver_error + driver_failure list" where
  "validate_execution_contract ex =
     bind_result (execution_driver_contract (ex_driver ex) (Some (ex_driver_provider_id ex))) (\<lambda>c.
       let scopes = ex_scopes ex; n = length scopes; provider = ex_driver_provider_id ex;
           names = map stripped_name scopes
       in Inr (dict_fromkeys (
         (if int n < dc_min_scopes c then [Too_Few_Scopes provider (dc_min_scopes c) n] else []) @
         (case dc_max_scopes c of
            Some m \<Rightarrow> if int n > m then [Too_Many_Scopes provider m n] else []
          | None \<Rightarrow> []) @
         (if dc_scope_namespace c = ''root_only'' \<and> list_ex (\<lambda>s. s \<noteq> None) names
          then [Root_Scope_Only provider] else []) @
         (if dc_scope_namespace c = ''named_only'' \<and> list_ex (\<lambda>s. s = None) names
          then [Named_Scopes_Only provider] else []) @
         concat (map (scope_binding_failures c provider) scopes))))"

section \<open>What a run is started with\<close>

definition render_argument :: "string \<Rightarrow> execution_scope option \<Rightarrow> driver_error + string" where
  "render_argument token sc =
     (if token = ''{scope_solver}'' then
        (case Option.bind sc scope_solver_module of
           Some (c # cs) \<Rightarrow> Inr (c # cs)
         | _ \<Rightarrow> Inl Scope_Solver_Unbound)
      else Inr token)"

definition runtime_arguments :: "execution_spec \<Rightarrow> driver_error + string list" where
  "runtime_arguments ex =
     bind_result (execution_driver_contract (ex_driver ex) (Some (ex_driver_provider_id ex))) (\<lambda>c.
     bind_result (validate_execution_contract ex) (\<lambda>failures.
       if failures \<noteq> [] then Inl Topology_Not_Satisfied
       else
         let sc = (case ex_scopes ex of [] \<Rightarrow> None | sc # _ \<Rightarrow> Some sc)
         in bind_result (map_result (\<lambda>token. render_argument token sc) (dc_runtime_arguments c)) (\<lambda>prefix.
              Inr (prefix @ ex_arguments ex))))"

definition sealed_solver_mirror :: "execution_spec \<Rightarrow> driver_error + string \<times> string" where
  "sealed_solver_mirror ex =
     bind_result (execution_driver_contract (ex_driver ex) (Some (ex_driver_provider_id ex))) (\<lambda>c.
       if dc_plan_solver_mirror c = ''driver'' then Inr (ex_driver ex, ex_driver_provider_id ex)
       else case ex_scopes ex of
         [] \<Rightarrow> Inl Mirror_Without_Scope
       | sc # _ \<Rightarrow>
           if \<not> complete_solver sc then Inl Mirror_Incomplete
           else Inr (the (scope_solver_module sc), the (scope_solver_provider_id sc)))"

definition provider_requirements :: "execution_spec \<Rightarrow> (string \<times> string \<times> string) list" where
  "provider_requirements ex =
     (ex_driver_provider_id ex, ex_driver ex, ''execution driver'') #
     map (\<lambda>sc. (the (scope_solver_provider_id sc), the (scope_solver_module sc),
         ''scope solver '' @ or_default ''root'' (stripped_name sc)))
       (filter complete_solver (ex_scopes ex))"

datatype control_expectation =
    Control_None
  | Control_Scalar "string option"
  | Control_Map "(string \<times> string option) list"

definition control_dict_binding ::
  "execution_spec \<Rightarrow> driver_error + string \<times> string option \<times> control_expectation" where
  "control_dict_binding ex =
     bind_result (execution_driver_contract (ex_driver ex) (Some (ex_driver_provider_id ex))) (\<lambda>c.
       let entry = dc_control_entry c; scopes = ex_scopes ex; mode = dc_control_mode c
       in if mode = ''none'' then Inr (mode, entry, Control_None)
          else if mode = ''scalar'' then
            (case scopes of
               [sc] \<Rightarrow> Inr (mode, entry, Control_Scalar (scope_solver_module sc))
             | _ \<Rightarrow> Inl Scalar_Needs_One_Scope)
          else if mode = ''named_map'' then
            (if list_ex (\<lambda>sc. stripped_name sc = None) scopes then Inl Named_Map_Needs_Names
             else Inr (mode, entry, Control_Map
               (foldl (\<lambda>m sc. AList.update (the (stripped_name sc)) (scope_solver_module sc) m) [] scopes)))
          else Inl (Unsupported_Control_Mode mode))"

section \<open>The shipped contracts\<close>

definition foam_run_contract :: driver_contract where
  "foam_run_contract =
     \<lparr>dc_driver = ''foamRun'', dc_provider_ids = [''execution.foamRun'', ''driver.foamRun''], dc_min_scopes = 1,
      dc_max_scopes = Some 1, dc_scope_namespace = ''root_only'', dc_scope_solver_binding = ''required'',
      dc_control_mode = ''scalar'', dc_control_entry = Some ''solver'',
      dc_runtime_arguments = [''-solver'', ''{scope_solver}''], dc_plan_solver_mirror = ''scope_solver''\<rparr>"

definition foam_multi_run_contract :: driver_contract where
  "foam_multi_run_contract =
     \<lparr>dc_driver = ''foamMultiRun'', dc_provider_ids = [''execution.foamMultiRun'', ''driver.foamMultiRun''],
      dc_min_scopes = 1, dc_max_scopes = None, dc_scope_namespace = ''named_only'',
      dc_scope_solver_binding = ''required'', dc_control_mode = ''named_map'',
      dc_control_entry = Some ''regionSolvers'', dc_runtime_arguments = [], dc_plan_solver_mirror = ''driver''\<rparr>"

definition direct_contract :: "string \<Rightarrow> driver_contract" where
  "direct_contract driver =
     \<lparr>dc_driver = driver, dc_provider_ids = [], dc_min_scopes = 1, dc_max_scopes = Some 1,
      dc_scope_namespace = ''root_only'', dc_scope_solver_binding = ''forbidden'', dc_control_mode = ''none'',
      dc_control_entry = None, dc_runtime_arguments = [], dc_plan_solver_mirror = ''driver''\<rparr>"

lemma driver_registry_eq:
  "driver_registry = (direct_contract ''*'', [foam_run_contract, foam_multi_run_contract])"
  by code_simp

lemma execution_driver_contract_cases:
  assumes "execution_driver_contract driver provider = Inr c"
  obtains "driver = ''foamRun''" "c = foam_run_contract"
  | "driver = ''foamMultiRun''" "c = foam_multi_run_contract"
  | "driver \<noteq> ''foamRun''" "driver \<noteq> ''foamMultiRun''" "c = direct_contract driver"
  using assms
  by (auto simp: execution_driver_contract_def driver_registry_eq Let_def foam_run_contract_def
      foam_multi_run_contract_def direct_contract_def split: if_splits)


section \<open>The views of an execution agree\<close>

lemma region_char_not_space: "region_char c \<Longrightarrow> \<not> is_space c"
  by (auto simp: region_char_def is_space_def is_alpha_def is_digit_def Let_def)

lemma strip_region_name:
  assumes "region_name n"
  shows "strip n = n \<and> n \<noteq> []"
proof -
  have n: "n \<noteq> []" "\<And>c. c \<in> set n \<Longrightarrow> region_char c"
    using assms by (auto simp: region_name_def region_char_def list_all_iff split: list.splits)
  then have "\<not> is_space (hd n)" "\<not> is_space (last n)" using region_char_not_space by auto
  then have "dropWhile is_space n = n" "dropWhile is_space (rev n) = rev n"
    by (simp_all add: dropWhile_eq_self_iff hd_rev)
  then show ?thesis using n(1) by (simp add: strip_def)
qed

lemma stripped_name_valid: "valid_scope sc \<Longrightarrow> stripped_name sc = scope_name sc"
  using strip_region_name by (auto simp: stripped_name_def valid_scope_def split: option.splits)

lemma no_failures:
  assumes "validate_execution_contract ex = Inr []"
    and "execution_driver_contract (ex_driver ex) (Some (ex_driver_provider_id ex)) = Inr c"
  shows "dc_min_scopes c \<le> int (length (ex_scopes ex))"
    and "dc_max_scopes c = Some m \<Longrightarrow> int (length (ex_scopes ex)) \<le> m"
    and "dc_scope_namespace c = ''root_only'' \<Longrightarrow> sc \<in> set (ex_scopes ex) \<Longrightarrow> stripped_name sc = None"
    and "dc_scope_namespace c = ''named_only'' \<Longrightarrow> sc \<in> set (ex_scopes ex) \<Longrightarrow> stripped_name sc \<noteq> None"
    and "sc \<in> set (ex_scopes ex) \<Longrightarrow> scope_binding_failures c (ex_driver_provider_id ex) sc = []"
proof -
  have "set (dict_fromkeys xs) = set xs" for xs :: "driver_failure list"
    by (simp add: dict_fromkeys_def set_fromkeys_from)
  then have nil: "dict_fromkeys xs = [] \<longleftrightarrow> xs = []" for xs :: "driver_failure list"
    by (metis set_empty)
  have checks: "dc_min_scopes c \<le> int (length (ex_scopes ex)) \<and>
      (\<forall>m. dc_max_scopes c = Some m \<longrightarrow> int (length (ex_scopes ex)) \<le> m) \<and>
      (dc_scope_namespace c = ''root_only'' \<longrightarrow> (\<forall>sc \<in> set (ex_scopes ex). stripped_name sc = None)) \<and>
      (dc_scope_namespace c = ''named_only'' \<longrightarrow> None \<notin> stripped_name ` set (ex_scopes ex)) \<and>
      (\<forall>sc \<in> set (ex_scopes ex). scope_binding_failures c (ex_driver_provider_id ex) sc = [])"
    using assms
    by (auto simp: validate_execution_contract_def Let_def nil list_ex_iff not_less split: if_splits option.splits)
  then show "dc_min_scopes c \<le> int (length (ex_scopes ex))"
    "dc_max_scopes c = Some m \<Longrightarrow> int (length (ex_scopes ex)) \<le> m"
    "dc_scope_namespace c = ''root_only'' \<Longrightarrow> sc \<in> set (ex_scopes ex) \<Longrightarrow> stripped_name sc = None"
    "sc \<in> set (ex_scopes ex) \<Longrightarrow> scope_binding_failures c (ex_driver_provider_id ex) sc = []"
    by blast+
  show "stripped_name sc \<noteq> None" if "dc_scope_namespace c = ''named_only''" "sc \<in> set (ex_scopes ex)"
    using checks that by (metis image_eqI)
qed

lemma runtime_arguments_valid:
  assumes "validate_execution_contract ex = Inr []"
    and "execution_driver_contract (ex_driver ex) (Some (ex_driver_provider_id ex)) = Inr c"
    and "map_result (\<lambda>token. render_argument token (case ex_scopes ex of [] \<Rightarrow> None | sc # _ \<Rightarrow> Some sc))
      (dc_runtime_arguments c) = Inr front"
  shows "runtime_arguments ex = Inr (front @ ex_arguments ex)"
  using assms by (simp add: runtime_arguments_def)

lemma one_scope:
  assumes "1 \<le> int (length xs)" "int (length xs) \<le> 1"
  obtains x where "xs = [x]"
  using assms by (cases xs) auto

text \<open>What a validated execution of each kind looks like.\<close>

lemma valid_execution_cases:
  assumes topology: "validate_execution_topology ex0 = Inr ex" and valid: "validate_execution_contract ex = Inr []"
    and names: "\<forall>sc \<in> set (ex_scopes ex). valid_scope sc"
  obtains (modular) sc m p where "ex_driver ex = ''foamRun''" "ex_scopes ex = [sc]" "scope_name sc = None"
      "scope_solver_module sc = Some m" "m \<noteq> []" "scope_solver_provider_id sc = Some p" "p \<noteq> []"
      "ex_solver_module ex = Some m"
      "execution_driver_contract (ex_driver ex) (Some (ex_driver_provider_id ex)) = Inr foam_run_contract"
  | (regions) "ex_driver ex = ''foamMultiRun''" "\<forall>sc \<in> set (ex_scopes ex). scope_name sc \<noteq> None"
      "distinct (map scope_name (ex_scopes ex))"
      "execution_driver_contract (ex_driver ex) (Some (ex_driver_provider_id ex)) = Inr foam_multi_run_contract"
  | (direct) "ex_driver ex \<noteq> ''foamRun''" "ex_driver ex \<noteq> ''foamMultiRun''"
      "execution_driver_contract (ex_driver ex) (Some (ex_driver_provider_id ex)) = Inr (direct_contract (ex_driver ex))"
proof -
  from valid obtain c where c: "execution_driver_contract (ex_driver ex) (Some (ex_driver_provider_id ex)) = Inr c"
    by (auto simp: validate_execution_contract_def)
  note no = no_failures [OF valid c]
  from topology have mirrored: "ex = mirror_legacy_fields ex0" and keys: "distinct (map scope_key (ex_scopes ex0))"
    by (auto simp: validate_execution_topology_def split: if_splits list.splits)
  have scopes: "ex_scopes ex = ex_scopes ex0" using mirrored by (simp add: mirror_legacy_fields_def Let_def)
  from c show thesis
  proof (cases rule: execution_driver_contract_cases)
    case 1
    have "1 \<le> int (length (ex_scopes ex))" "int (length (ex_scopes ex)) \<le> 1"
      using no(1) no(2) [of 1] by (simp_all add: 1 foam_run_contract_def)
    then obtain sc where sc: "ex_scopes ex = [sc]" by (rule one_scope)
    have root: "scope_name sc = None"
      using no(3) [of sc] names by (simp add: sc 1 foam_run_contract_def stripped_name_valid)
    have "complete_solver sc"
      using no(5) [of sc] by (auto simp: sc 1 foam_run_contract_def scope_binding_failures_def split: if_splits)
    then obtain m p where solver: "scope_solver_module sc = Some m" "m \<noteq> []" "scope_solver_provider_id sc = Some p" "p \<noteq> []"
      by (auto simp: complete_solver_def present_def split: option.splits)
    have "root_only (ex_scopes ex0)" "ex_scopes ex0 = [sc]" using sc scopes root by (simp_all add: root_only_def)
    then have "ex_solver_module ex = Some m" using mirrored solver by (simp add: mirror_legacy_fields_def)
    with 1 sc root solver c show thesis by (intro modular [of sc m p]) auto
  next
    case 2
    have named: "\<forall>sc \<in> set (ex_scopes ex). scope_name sc \<noteq> None"
      using no(4) names stripped_name_valid by (auto simp: 2 foam_multi_run_contract_def)
    have "distinct (map scope_name (ex_scopes ex))"
      using keys unfolding scopes scope_key_def distinct_map
      by (auto simp: inj_on_def)
    with 2 named c show thesis by (intro regions) auto
  next
    case 3
    with c show thesis by (intro direct) auto
  qed
qed

lemma control_map_entries:
  assumes "distinct (map f scs)" "sc \<in> set scs"
  shows "map_of (foldl (\<lambda>m sc. AList.update (f sc) (g sc) m) m0 scs) (f sc) = Some (g sc)"
  using assms
proof (induction scs arbitrary: m0)
  case (Cons x xs)
  show ?case
  proof (cases "sc \<in> set xs")
    case True
    then show ?thesis using Cons by simp
  next
    case False
    have "map_of (foldl (\<lambda>m sc. AList.update (f sc) (g sc) m) m0 xs) k = map_of m0 k" if "k \<notin> f ` set xs" for m0 k
      using that by (induction xs arbitrary: m0) (auto simp: update_conv')
    with False Cons show ?thesis by (auto simp: update_conv')
  qed
qed simp

lemma driver_views:
  assumes "validate_execution_topology ex0 = Inr ex" and "validate_execution_contract ex = Inr []"
    and "\<forall>sc \<in> set (ex_scopes ex). valid_scope sc"
  shows "\<exists>args solver provider mode entry binding.
    runtime_arguments ex = Inr args \<and> ex_driver ex # args = expected_argv (Exec_Declared ex par) \<and>
    sealed_solver_mirror ex = Inr (solver, provider) \<and>
    (\<exists>label. (provider, solver, label) \<in> set (provider_requirements ex)) \<and>
    control_dict_binding ex = Inr (mode, entry, binding) \<and>
    (case binding of
       Control_None \<Rightarrow> args = ex_arguments ex
     | Control_Scalar v \<Rightarrow> v = Some solver \<and> args = [''-solver'', solver] @ ex_arguments ex
     | Control_Map m \<Rightarrow> args = ex_arguments ex \<and>
         (\<forall>sc \<in> set (ex_scopes ex). \<exists>region. scope_name sc = Some region \<and> map_of m region = Some (scope_solver_module sc)))"
  using assms
proof (cases rule: valid_execution_cases)
  case (modular sc m p)
  have "runtime_arguments ex = Inr ([''-solver'', m] @ ex_arguments ex)"
    using modular(4,5)
    by (intro runtime_arguments_valid [OF assms(2) modular(9)])
      (auto simp: modular(2) foam_run_contract_def render_argument_def neq_Nil_conv)
  moreover have "complete_solver sc" using modular(4-7) by (simp add: complete_solver_def present_def)
  ultimately show ?thesis
    using modular
    by (auto simp: expected_argv_def sealed_solver_mirror_def control_dict_binding_def provider_requirements_def
        foam_run_contract_def)
next
  case regions
  let ?m = "foldl (\<lambda>m sc. AList.update (the (stripped_name sc)) (scope_solver_module sc) m) [] (ex_scopes ex)"
  have stripped: "stripped_name sc = scope_name sc" "scope_name sc \<noteq> None" if "sc \<in> set (ex_scopes ex)" for sc
    using that assms(3) regions(2) stripped_name_valid by auto
  have "distinct (map (\<lambda>sc. the (stripped_name sc)) (ex_scopes ex))"
    using regions(3) stripped unfolding distinct_map inj_on_def by (metis option.expand)
  note entries = control_map_entries [OF this, of _ scope_solver_module "[]"]
  have "runtime_arguments ex = Inr ([] @ ex_arguments ex)"
    by (intro runtime_arguments_valid [OF assms(2) regions(4)]) (simp add: foam_multi_run_contract_def)
  moreover have "\<forall>sc \<in> set (ex_scopes ex). \<exists>region. scope_name sc = Some region \<and> map_of ?m region = Some (scope_solver_module sc)"
    using entries stripped by fastforce
  moreover have "\<not> list_ex (\<lambda>sc. stripped_name sc = None) (ex_scopes ex)"
    using stripped by (auto simp: list_ex_iff)
  ultimately show ?thesis
    using regions
    by (auto simp: expected_argv_def sealed_solver_mirror_def control_dict_binding_def provider_requirements_def
        foam_multi_run_contract_def)
next
  case direct
  have "runtime_arguments ex = Inr ([] @ ex_arguments ex)"
    by (intro runtime_arguments_valid [OF assms(2) direct(3)]) (simp add: direct_contract_def)
  with direct show ?thesis
    by (auto simp: expected_argv_def sealed_solver_mirror_def control_dict_binding_def provider_requirements_def
        direct_contract_def)
qed

text \<open>
  C32: for an execution the schema and the driver contract accept, no view of it raises, and
  the views agree: the arguments are those the approval expects, the sealed mirror names a solver the
  provider check looks at, a scalar \<^verbatim>\<open>controlDict\<close> binding names the solver on the command line, and a
  map binding gives every region its own solver.
\<close>

theorem driver_views_agree:
  assumes "validate_execution_topology ex0 = Inr ex" and "validate_execution_contract ex = Inr []"
    and "\<forall>sc \<in> set (ex_scopes ex). valid_scope sc"
  shows "\<exists>args solver provider mode entry binding.
    runtime_arguments ex = Inr args \<and> ex_driver ex # args = expected_argv (Exec_Declared ex par) \<and>
    sealed_solver_mirror ex = Inr (solver, provider) \<and>
    (\<exists>label. (provider, solver, label) \<in> set (provider_requirements ex)) \<and>
    control_dict_binding ex = Inr (mode, entry, binding) \<and>
    (case binding of
       Control_None \<Rightarrow> args = ex_arguments ex
     | Control_Scalar v \<Rightarrow> v = Some solver \<and> args = [''-solver'', solver] @ ex_arguments ex
     | Control_Map m \<Rightarrow> args = ex_arguments ex \<and>
         (\<forall>sc \<in> set (ex_scopes ex). \<exists>region. scope_name sc = Some region \<and> map_of m region = Some (scope_solver_module sc)))"
  by (rule driver_views [OF assms])

text \<open>
  What \<open>run_execution\<close> starts: the driver with its arguments, and \<open>-parallel\<close> behind them when \<open>run_mpi\<close>
  starts it.
\<close>

definition started_command :: "execution_spec \<Rightarrow> parallel_execution \<Rightarrow> string list \<Rightarrow> string list" where
  "started_command ex par args =
     ex_driver ex # args @ (if pe_mode par = ''local_mpi'' then [''-parallel''] else [])"

text \<open>The validator of \<open>ParallelExecution\<close>, with the values the schema gives the mode.\<close>

definition valid_parallel :: "parallel_execution \<Rightarrow> bool" where
  "valid_parallel par \<longleftrightarrow>
     (if pe_mode par = ''serial'' then pe_restart par = None \<and> pe_ranks par = 1
      else pe_mode par = ''local_mpi'' \<and> 2 \<le> pe_ranks par \<and> pe_decomposition_method par \<notin> {None, Some []})"

lemma length_drop_overrides: "length (drop_overrides mpi xs) \<le> length xs"
proof (induction mpi xs rule: drop_overrides.induct)
  case (2 mpi x xs)
  have "length (tl xs) \<le> length xs" by simp
  with 2 show ?case by (auto intro: le_SucI order_trans)
qed simp

lemma drop_overrides_append_parallel:
  assumes "''-case'' \<in> set xs \<or> ''-parallel'' \<in> set xs"
  shows "Suc (length (drop_overrides True (xs @ [''-parallel'']))) \<le> length xs"
  using assms
proof (induction "length xs" arbitrary: xs rule: less_induct)
  case less
  show ?case
  proof (cases xs)
    case (Cons x ys)
    have shorter: "length (drop_overrides True (zs @ [''-parallel''])) \<le> length zs" for zs :: "string list"
    proof (induction "length zs" arbitrary: zs rule: less_induct)
      case less
      show ?case
      proof (cases zs)
        case (Cons z ws)
        show ?thesis
        proof (cases "z = ''-case''")
          case True
          then show ?thesis using Cons less [of "tl ws"] by (cases ws) auto
        next
          case False
          then show ?thesis using Cons less [of ws] by auto
        qed
      qed simp
    qed
    show ?thesis
    proof (cases "x = ''-case''")
      case True
      then show ?thesis using Cons shorter [of "tl ys"] by (cases ys) auto
    next
      case False
      then show ?thesis using Cons less.hyps [of ys] less.prems shorter [of ys] by auto
    qed
  qed (use less.prems in simp)
qed

lemma drop_overrides_case: "''-case'' \<in> set xs \<Longrightarrow> length (drop_overrides mpi xs) < length xs"
proof (induction mpi xs rule: drop_overrides.induct)
  case (2 mpi x xs)
  have "length (drop_overrides mpi (tl xs)) \<le> length xs"
    using length_drop_overrides [of mpi "tl xs"] by simp
  with 2 length_drop_overrides [of mpi xs] show ?case by auto
qed simp

lemma plain_argv:
  assumes "''-case'' \<notin> set xs"
  shows "''-parallel'' \<notin> set xs \<or> \<not> mpi \<Longrightarrow> drop_overrides mpi xs = xs" "case_overrides xs = []"
    "''-parallel'' \<notin> set xs \<Longrightarrow> drop_overrides True (xs @ [''-parallel'']) = xs"
    "case_overrides (xs @ [''-parallel'']) = []"
  using assms by (induction xs) auto

lemma started_argv:
  assumes "valid_parallel par"
  shows "drop_overrides (1 < pe_ranks par) (tl (started_command ex par args)) = args \<and>
      (\<forall>d \<in> set (case_overrides (tl (started_command ex par args))). map_option res d = Some cwd) \<longleftrightarrow>
    ''-case'' \<notin> set args \<and> (pe_mode par = ''serial'' \<or> ''-parallel'' \<notin> set args)"
proof (cases "pe_mode par = ''local_mpi''")
  case True
  then have mpi: "(1 < pe_ranks par) = True" using assms by (simp add: valid_parallel_def)
  have "drop_overrides True (args @ [''-parallel'']) \<noteq> args" if "''-case'' \<in> set args \<or> ''-parallel'' \<in> set args"
    using drop_overrides_append_parallel [OF that] by (metis not_less_eq_eq order_refl)
  with True plain_argv [of args] show ?thesis unfolding mpi by (auto simp: started_command_def)
next
  case False
  then have serial: "pe_mode par = ''serial''" "(1 < pe_ranks par) = False" using assms by (auto simp: valid_parallel_def split: if_splits)
  have "drop_overrides False args \<noteq> args" if "''-case'' \<in> set args"
    using drop_overrides_case [OF that, of False] by (metis less_irrefl)
  with serial plain_argv(1) [of args False] plain_argv(2) [of args] show ?thesis unfolding serial(2) by (auto simp: started_command_def)
qed


section \<open>A concrete execution\<close>

definition modular_spec :: execution_spec where
  "modular_spec =
     \<lparr>ex_driver = ''foamRun'', ex_driver_provider_id = ''execution.foamRun'',
      ex_scopes = [\<lparr>scope_name = None, scope_solver_module = Some ''fluid'',
        scope_solver_provider_id = Some ''solver.fluid''\<rparr>],
      ex_solver_module = None, ex_solver_provider_id = None, ex_regions = [], ex_arguments = [''-noFunctionObjects'']\<rparr>"

definition modular_execution :: execution_spec where
  "modular_execution = mirror_legacy_fields modular_spec"

lemma modular_valid:
  "validate_execution_topology modular_spec = Inr modular_execution"
  "validate_execution_contract modular_execution = Inr []"
  "\<forall>sc \<in> set (ex_scopes modular_execution). valid_scope sc"
  "runtime_arguments modular_execution = Inr [''-solver'', ''fluid'', ''-noFunctionObjects'']"
  by code_simp+

definition serial_run :: parallel_execution where
  "serial_run = \<lparr>pe_mode = ''serial'', pe_ranks = 1, pe_launcher = [], pe_decomposition_method = None,
     pe_reconstruct = False, pe_restart = None\<rparr>"

lemma driver_views_agree_witness:
  "expected_argv (Exec_Declared modular_execution serial_run) =
     [''foamRun'', ''-solver'', ''fluid'', ''-noFunctionObjects''] \<and>
   sealed_solver_mirror modular_execution = Inr (''fluid'', ''solver.fluid'')"
proof -
  have "sealed_solver_mirror modular_execution = Inr (''fluid'', ''solver.fluid'')" "ex_driver modular_execution = ''foamRun''"
    by code_simp+
  then show ?thesis using driver_views_agree [OF modular_valid(1-3), of serial_run] modular_valid(4) by auto
qed

definition modular_plan :: approved_plan where
  "modular_plan = solved_plan\<lparr>ap_plan := (ap_plan solved_plan)\<lparr>plan_execution := Some modular_execution\<rparr>,
     ap_parallel := serial_run\<rparr>"

definition modular_context :: execution_context where
  "modular_context = \<lparr>
     xc_approval = issue_approval (\<lambda>_. ''x'') (\<lambda>_. ''y'') modular_plan (case_sealed solved_case) None,
     xc_plan = modular_plan, xc_seal = case_sealed solved_case, xc_workspace = solved_case,
     xc_case_dir = [''w'', ''case''], xc_phase = Runtime_Phase\<rparr>"

definition modular_digests :: digests where
  "modular_digests = solve_digests\<lparr>dg_execution := \<lambda>_. ''x'', dg_physical := \<lambda>_. ''y''\<rparr>"


end
