(* ===== verification/Checkpoint.thy ===== *)
theory Checkpoint
  imports Workflow
begin

text \<open>
  Checkpoints of a run, \<^verbatim>\<open>workflow/checkpoint.py\<close>: what is written, the decision whether a stored run
  may be resumed, and the transaction around a decision of the agent (\<open>execute_prepare_decision\<close> of
  \<^verbatim>\<open>engineering/phases/decision_controller.py\<close>) that makes a crash visible to that decision.

  The JSON text of a checkpoint is its value: dumping and loading, by \<open>json\<close> and by pydantic, is taken as
  the identity on it.  SHA-256 of the payload, the length of the text and the validation of a stored model
  are arguments, as are the process table and the control groups of the machine.
\<close>

section \<open>Values of the agent\<close>

text \<open>
  An attribute of the agent: plain data, a tuple, a set of strings, or a pydantic model given by its class
  and its dump.
\<close>

datatype py_value =
    Py_None
  | Py_Bool bool
  | Py_Num rat
  | Py_Str string
  | Py_List "py_value list"
  | Py_Tuple "py_value list"
  | Py_Set "string list"
  | Py_Dict "(string \<times> py_value) list"
  | Py_Model string json_value

fun jsonable :: "py_value \<Rightarrow> json_value" where
  "jsonable Py_None = J_Null"
| "jsonable (Py_Bool b) = J_Bool b"
| "jsonable (Py_Num x) = J_Num x"
| "jsonable (Py_Str s) = J_Str s"
| "jsonable (Py_List xs) = J_List (map jsonable xs)"
| "jsonable (Py_Tuple xs) = J_List (map jsonable xs)"
| "jsonable (Py_Set xs) = J_List (map J_Str (sort xs))"
| "jsonable (Py_Dict d) = J_Dict (map (\<lambda>(k, v). (k, jsonable v)) d)"
| "jsonable (Py_Model c dump) = dump"

fun of_json :: "json_value \<Rightarrow> py_value" where
  "of_json J_Null = Py_None"
| "of_json (J_Bool b) = Py_Bool b"
| "of_json (J_Num x) = Py_Num x"
| "of_json (J_Str s) = Py_Str s"
| "of_json (J_List xs) = Py_List (map of_json xs)"
| "of_json (J_Dict d) = Py_Dict (map (\<lambda>(k, v). (k, of_json v)) d)"

definition snapshot_fields :: "string list" where
  "snapshot_fields =
     [''_checkmesh_mesh_manifest'', ''_presolve_case_manifest'', ''_presolve_required_case_files'',
      ''_pending_execution_plan'', ''_draft_design_plan'', ''_draft_authoring_brief'', ''_authoring_task_queue'',
      ''_pending_candidate_execution'', ''_pending_candidate_failed_paths'',
      ''_pending_candidate_failure_diagnostic'', ''_structured_block_mesh'', ''_phase_prompt_counts'',
      ''_phase_context_snapshots'', ''_evidence_gap_ledger'', ''_retrieval_cycles'',
      ''_evidence_retrieval_disabled'', ''_active_transaction'']"

definition snapshot_models :: "(string \<times> string) list" where
  "snapshot_models =
     [(''_pending_execution_plan'', ''EngineeringPlan''), (''_draft_design_plan'', ''EngineeringPlan''),
      (''_pending_candidate_execution'', ''ExecuteCasePlanAction''),
      (''_structured_block_mesh'', ''TypedBlockMeshFile'')]"

definition snapshot_tuples :: "string list" where
  "snapshot_tuples = [''_presolve_required_case_files'', ''_pending_candidate_failed_paths'']"

section \<open>A run and its checkpoint\<close>

text \<open>The part of \<open>CFDState\<close> that only checkpoints and the agents use; an event is its JSON text.\<close>

record agent_part =
  as_events :: "string list"
  as_snapshot :: "(string \<times> json_value) list"
  as_process_records :: "process_row list"

type_synonym run_state = "agent_part cfd_state"

text \<open>The stored run; the workspace inside the model of the state is not part of the stored JSON.\<close>

record checkpoint_payload =
  pl_schema :: int
  pl_reason :: string
  pl_saved_unix :: rat
  pl_workspace :: string
  pl_environment :: string
  pl_inputs :: "file_seal list"
  pl_graph :: "string option"
  pl_state :: run_state

text \<open>\<^verbatim>\<open>checkpoint.json\<close>: no regular file, a link, or a file with its size and its envelope if readable.\<close>

datatype stored_checkpoint =
    No_Checkpoint
  | Checkpoint_Link
  | Stored nat "(checkpoint_payload \<times> string) option"

text \<open>
  A process of the program: its root directory, the fingerprint of its native environment, the bytes of
  \<^verbatim>\<open>mesh-dependencies.json\<close>, whether a restart journal exists, the checkpoint and its temporary file, the
  case, the process budget (\<open>None\<close> when the runner is not a \<open>SafeRunner\<close>), the agent's attributes.
\<close>

record session =
  se_root :: string
  se_environment :: string
  se_graph :: "string option"
  se_restart_journal :: bool
  se_checkpoint :: stored_checkpoint
  se_temporary_link :: bool
  se_workspace :: workspace
  se_budget :: "process_budget option"
  se_agent :: "(string \<times> py_value) list"
  se_resume_pending :: bool

text \<open>Digest of a payload, length of the written text, and whether a dump validates as a class.\<close>

record codec =
  cd_digest :: "checkpoint_payload \<Rightarrow> string"
  cd_size :: "checkpoint_payload \<times> string \<Rightarrow> nat"
  cd_valid :: "string \<Rightarrow> json_value \<Rightarrow> bool"

datatype checkpoint_error =
    Case_Unreadable workspace_error
  | Checkpoint_Symlink
  | Checkpoint_Not_Written
  | Directory_Not_Synced
  | No_Regular_Checkpoint
  | Checkpoint_Too_Large
  | Checkpoint_Unreadable
  | Checksum_Mismatch
  | Unsupported_Version
  | Relocated
  | Environment_Changed
  | Mesh_Graph_Changed
  | Intake_Refused state_error
  | Inputs_Changed
  | Interrupted_Transaction
  | Interrupted_Restart_Preparation
  | Uncertain_Completion
  | Not_Parallel
  | Untrusted_Cgroup
  | Cgroup_Unreadable
  | Cgroup_Populated
  | Missing_Pid
  | Pid_Unprovable
  | Pid_Exists
  | Group_Unprovable
  | Group_Exists
  | Probe_Failed
  | Process_In_Flight
  | Ledger_Advanced
  | Snapshot_Invalid string
  | Seal_Broken workspace_error

section \<open>Saving\<close>

definition take_snapshot :: "(string \<times> py_value) list \<Rightarrow> (string \<times> json_value) list" where
  "take_snapshot attrs = map (\<lambda>name. (name, jsonable (get_default Py_None (map_of attrs name)))) snapshot_fields"

text \<open>The state records the snapshot and the ledger before anything can fail.\<close>

definition record_snapshot :: "session \<Rightarrow> run_state \<Rightarrow> run_state" where
  "record_snapshot s st =
     (let rest = (st_rest st)\<lparr>as_snapshot := take_snapshot (se_agent s)\<rparr>
      in st\<lparr>st_rest := (case se_budget s of
              Some b \<Rightarrow> rest\<lparr>as_process_records := pb_records b\<rparr>
            | None \<Rightarrow> rest)\<rparr>)"

text \<open>
  What the disk does to a save.  It can fail before the new checkpoint has its name (while the temporary file
  is opened, written, synchronised, protected or moved), or after \<open>os.replace\<close>, when the directory is
  opened and synchronised: then \<open>save\<close> raises although the new checkpoint is the one that will be loaded.
\<close>

datatype disk_outcome = Disk_Sound | Disk_Write_Fails | Disk_Sync_Fails

definition save ::
  "(string \<Rightarrow> string) \<Rightarrow> codec \<Rightarrow> disk_outcome \<Rightarrow> string \<Rightarrow> rat \<Rightarrow> session \<Rightarrow> run_state \<Rightarrow>
     (checkpoint_error + unit) \<times> session \<times> run_state" where
  "save sha cd dk reason now s st =
     (let st = record_snapshot s st
      in case execution_file_seals sha (se_workspace s) of
           Inl e \<Rightarrow> (Inl (Case_Unreadable e), s, st)
         | Inr inputs \<Rightarrow>
             let payload = \<lparr>pl_schema = 1, pl_reason = reason, pl_saved_unix = now, pl_workspace = se_root s,
                   pl_environment = se_environment s, pl_inputs = inputs,
                   pl_graph = map_option sha (se_graph s), pl_state = st\<rparr>;
                 envelope = (payload, cd_digest cd payload);
                 replaced = s\<lparr>se_checkpoint := Stored (cd_size cd envelope) (Some envelope)\<rparr>
             in if se_checkpoint s = Checkpoint_Link \<or> se_temporary_link s
                then (Inl Checkpoint_Symlink, s, st)
                else (case dk of
                        Disk_Sound \<Rightarrow> (Inr (), replaced, st)
                      | Disk_Write_Fails \<Rightarrow> (Inl Checkpoint_Not_Written, s, st)
                      | Disk_Sync_Fails \<Rightarrow> (Inl Directory_Not_Synced, replaced, st)))"

section \<open>Reconciling recorded processes\<close>

text \<open>
  The machine: signal 0 to a process and to a process group, the control groups, and the directory they
  must be in when the runner isolates its processes.  A probe may raise something else.
\<close>

datatype probe = Probe_Gone | Probe_Denied | Probe_Alive | Probe_Raises

record cgroup =
  cg_populated :: "string option"
  cg_usage_usec :: "int option"

record host =
  ho_posix :: bool
  ho_kill :: "json_value \<Rightarrow> probe"
  ho_killpg :: "json_value \<Rightarrow> probe"
  ho_isolation :: "string option"
  ho_parent :: "string \<Rightarrow> string"
  ho_cgroup :: "string \<Rightarrow> cgroup option"

definition group_trusted :: "host \<Rightarrow> string \<Rightarrow> bool" where
  "group_trusted h path \<longleftrightarrow>
     ho_isolation h = Some (ho_parent h path) \<and> starts_with (path_name path) ''openfoam-agent-''"

definition reconcile_group :: "host \<Rightarrow> process_row \<Rightarrow> (checkpoint_error + unit) \<times> process_row" where
  "reconcile_group h row =
     (case map_of row ''cgroup_path'' of
        Some (J_Str path) \<Rightarrow>
          if \<not> group_trusted h path then (Inl Untrusted_Cgroup, row)
          else (case ho_cgroup h path of
                  None \<Rightarrow> (Inr (), row)
                | Some g \<Rightarrow>
                    if cg_populated g \<noteq> Some ''0'' then (Inl Cgroup_Populated, row)
                    else (case cg_usage_usec g of
                            None \<Rightarrow> (Inl Cgroup_Unreadable, row)
                          | Some usec \<Rightarrow> (Inr (),
                              AList.update ''aggregate_cpu_seconds'' (J_Num (of_int usec / 1000000)) row)))
      | _ \<Rightarrow> (Inl Cgroup_Unreadable, row))"

definition check_gone :: "host \<Rightarrow> process_row \<Rightarrow> checkpoint_error + unit" where
  "check_gone h row =
     (case map_of row ''pid'' of
        Some pid \<Rightarrow>
          if pid = J_Null then Inl Missing_Pid
          else (case ho_kill h pid of
                  Probe_Gone \<Rightarrow>
                    if \<not> ho_posix h then Inr ()
                    else (case ho_killpg h pid of
                            Probe_Gone \<Rightarrow> Inr ()
                          | Probe_Denied \<Rightarrow> Inl Group_Unprovable
                          | Probe_Alive \<Rightarrow> Inl Group_Exists
                          | Probe_Raises \<Rightarrow> Inl Probe_Failed)
                | Probe_Denied \<Rightarrow> Inl Pid_Unprovable
                | Probe_Alive \<Rightarrow> Inl Pid_Exists
                | Probe_Raises \<Rightarrow> Inl Probe_Failed)
      | None \<Rightarrow> Inl Missing_Pid)"

definition reconcile_row :: "host \<Rightarrow> process_row \<Rightarrow> (checkpoint_error + unit) \<times> process_row" where
  "reconcile_row h row =
     (if \<not> in_flight row then (Inr (), row)
      else
        case (if truthy (map_of row ''cgroup_path'') then reconcile_group h row else (Inr (), row)) of
          (Inl e, row) \<Rightarrow> (Inl e, row)
        | (Inr _, row) \<Rightarrow>
            (case check_gone h row of
               Inl e \<Rightarrow> (Inl e, row)
             | Inr _ \<Rightarrow> (Inr (),
                 AList.update ''reconciliation''
                   (J_Str ''PID and process group absent; outputs still require snapshot validation'')
                   (AList.update ''status'' (J_Str ''interrupted_reconciled_for_explicit_restart'') row))))"

text \<open>The rows are changed in place: those before the row that is refused stay changed.\<close>

fun reconcile_rows :: "host \<Rightarrow> process_row list \<Rightarrow> (checkpoint_error + unit) \<times> process_row list" where
  "reconcile_rows h [] = (Inr (), [])"
| "reconcile_rows h (row # rows) =
     (case reconcile_row h row of
        (Inl e, row') \<Rightarrow> (Inl e, row' # rows)
      | (Inr _, row') \<Rightarrow> (let (r, rows') = reconcile_rows h rows in (r, row' # rows')))"

text \<open>Equality of dictionaries does not look at the order of the keys.\<close>

definition same_row :: "process_row \<Rightarrow> process_row \<Rightarrow> bool" where
  "same_row a b \<longleftrightarrow>
     list_all (\<lambda>k. map_of a k = map_of b k) (map fst a) \<and> list_all (\<lambda>k. map_of a k = map_of b k) (map fst b)"

definition parallel_plan :: "run_state \<Rightarrow> bool" where
  "parallel_plan st \<longleftrightarrow>
     (case st_plan st of
        None \<Rightarrow> False
      | Some plan \<Rightarrow> plan_execution (ap_plan plan) \<noteq> None \<and> pe_mode (ap_parallel plan) = ''local_mpi'')"

definition process_records :: "session \<Rightarrow> run_state \<Rightarrow> process_row list" where
  "process_records s st =
     (case se_budget s of Some b \<Rightarrow> pb_records b | None \<Rightarrow> as_process_records (st_rest st))"

definition reconcile_processes ::
  "host \<Rightarrow> session \<Rightarrow> run_state \<Rightarrow> (checkpoint_error + run_state) \<times> session" where
  "reconcile_processes h s st =
     (if \<not> parallel_plan st then (Inl Not_Parallel, s)
      else case reconcile_rows h (process_records s st) of
        (Inl e, rows) \<Rightarrow> (Inl e, s\<lparr>se_budget := map_option (\<lambda>b. b\<lparr>pb_records := rows\<rparr>) (se_budget s)\<rparr>)
      | (Inr _, rows) \<Rightarrow>
          (Inr (st\<lparr>st_rest := (st_rest st)\<lparr>as_process_records := rows\<rparr>\<rparr>),
           s\<lparr>se_budget := map_option (\<lambda>b. persist (b\<lparr>pb_records := rows\<rparr>)) (se_budget s)\<rparr>))"

definition check_ledger :: "session \<Rightarrow> run_state \<Rightarrow> checkpoint_error + unit" where
  "check_ledger s st =
     (if list_ex in_flight (process_records s st) then Inl Process_In_Flight
      else case se_budget s of
        None \<Rightarrow> Inr ()
      | Some b \<Rightarrow>
          if list_all2 same_row (pb_records b) (as_process_records (st_rest st)) then Inr ()
          else Inl Ledger_Advanced)"

section \<open>Loading\<close>

definition read_checkpoint :: "codec \<Rightarrow> session \<Rightarrow> checkpoint_error + checkpoint_payload" where
  "read_checkpoint cd s =
     (case se_checkpoint s of
        Stored bytes content \<Rightarrow>
          if bytes > 64000000 then Inl Checkpoint_Too_Large
          else (case content of
                  None \<Rightarrow> Inl Checkpoint_Unreadable
                | Some (payload, sha) \<Rightarrow> if sha \<noteq> cd_digest cd payload then Inl Checksum_Mismatch else Inr payload)
      | _ \<Rightarrow> Inl No_Regular_Checkpoint)"

definition check_payload ::
  "(string \<Rightarrow> string) \<Rightarrow> (intake_spec \<Rightarrow> string) \<Rightarrow> session \<Rightarrow> checkpoint_payload \<Rightarrow> checkpoint_error + unit" where
  "check_payload sha idg s p =
     (if pl_schema p \<noteq> 1 then Inl Unsupported_Version
      else if pl_workspace p \<noteq> se_root s then Inl Relocated
      else if pl_environment p \<noteq> se_environment s then Inl Environment_Changed
      else if map_option sha (se_graph s) \<noteq> pl_graph p then Inl Mesh_Graph_Changed
      else if st_intake_confirmed (pl_state p)
      then (case assert_confirmed_intake idg (pl_state p) of Inl e \<Rightarrow> Inl (Intake_Refused e) | Inr _ \<Rightarrow> Inr ())
      else Inr ())"

text \<open>Who wrote the inputs is taken from the checkpoint, before it is known that they are unchanged.\<close>

definition own_inputs :: "file_seal list \<Rightarrow> workspace \<Rightarrow> workspace" where
  "own_inputs inputs w =
     w\<lparr>ws_authored := dict_fromkeys (map fs_path (filter (\<lambda>f. fs_origin f = Agent) inputs)),
       ws_assets := dict_fromkeys (map fs_path (filter (\<lambda>f. fs_origin f = User_Asset) inputs))\<rparr>"

definition check_inputs ::
  "(string \<Rightarrow> string) \<Rightarrow> workspace \<Rightarrow> file_seal list \<Rightarrow> checkpoint_error + unit" where
  "check_inputs sha w inputs =
     (case execution_file_seals sha w of
        Inl e \<Rightarrow> Inl (Case_Unreadable e)
      | Inr files \<Rightarrow> if files \<noteq> inputs then Inl Inputs_Changed else Inr ())"

definition unfinished :: "pending option \<Rightarrow> bool" where
  "unfinished p \<longleftrightarrow>
     (case p of
        Some (Pending_Intent _) \<Rightarrow> True | Some Pending_Restart \<Rightarrow> True | Some (Pending_Turn _ _ _) \<Rightarrow> True
      | _ \<Rightarrow> False)"

definition runtime_action :: "pending option \<Rightarrow> bool" where
  "runtime_action p \<longleftrightarrow> (case p of Some (Pending_Intent _) \<Rightarrow> True | Some (Pending_Completed _) \<Rightarrow> True | _ \<Rightarrow> False)"

definition check_interrupted :: "bool \<Rightarrow> session \<Rightarrow> run_state \<Rightarrow> checkpoint_error + unit" where
  "check_interrupted reconcile s st =
     (if truthy (map_of (as_snapshot (st_rest st)) ''_active_transaction'') then Inl Interrupted_Transaction
      else if se_restart_journal s then Inl Interrupted_Restart_Preparation
      else if unfinished (st_pending st) \<and> \<not> (reconcile \<and> runtime_action (st_pending st))
      then Inl Uncertain_Completion else Inr ())"

definition settle_pending :: "run_state \<Rightarrow> run_state" where
  "settle_pending st =
     (let events = as_events (st_rest st);
          events' = (case st_pending st of
              Some (Pending_Event e) \<Rightarrow> if e \<noteq> [] \<and> e \<notin> set events then events @ [e] else events
            | _ \<Rightarrow> events)
      in st\<lparr>st_rest := (st_rest st)\<lparr>as_events := events'\<rparr>, st_pending := None\<rparr>)"

text \<open>\<open>tuple(value)\<close> of a loaded value.\<close>

fun to_tuple :: "json_value \<Rightarrow> py_value option" where
  "to_tuple (J_List xs) = Some (Py_Tuple (map of_json xs))"
| "to_tuple (J_Str s) = Some (Py_Tuple (map (\<lambda>c. Py_Str [c]) s))"
| "to_tuple (J_Dict d) = Some (Py_Tuple (map (\<lambda>(k, v). Py_Str k) d))"
| "to_tuple _ = None"

definition restore_value :: "codec \<Rightarrow> string \<Rightarrow> json_value \<Rightarrow> checkpoint_error + py_value" where
  "restore_value cd name v =
     (case map_of snapshot_models name of
        Some c \<Rightarrow> if cd_valid cd c v then Inr (Py_Model c v) else Inl (Snapshot_Invalid name)
      | None \<Rightarrow>
          if name \<in> set snapshot_tuples
          then (case to_tuple v of Some t \<Rightarrow> Inr t | None \<Rightarrow> Inl (Snapshot_Invalid name))
          else Inr (of_json v))"

fun restore_attributes ::
  "codec \<Rightarrow> (string \<times> json_value) list \<Rightarrow> string list \<Rightarrow> (string \<times> py_value) list \<Rightarrow>
     (checkpoint_error + unit) \<times> (string \<times> py_value) list" where
  "restore_attributes cd snap [] attrs = (Inr (), attrs)"
| "restore_attributes cd snap (name # names) attrs =
     (case get_default J_Null (map_of snap name) of
        J_Null \<Rightarrow> restore_attributes cd snap names attrs
      | v \<Rightarrow>
          (case restore_value cd name v of
             Inl e \<Rightarrow> (Inl e, attrs)
           | Inr value \<Rightarrow> restore_attributes cd snap names (AList.update name value attrs)))"

text \<open>A new process is a new execution session: an approval is never carried over.\<close>

definition resume_state :: "run_state \<Rightarrow> run_state" where
  "resume_state st =
     (let st = st\<lparr>st_solve_approved := False, st_approval := None\<rparr>
      in if st_current st = Wf_Simulation then transition Wf_Solve_Ready st
         else if st_current st = Wf_Runtime_Repair then transition Wf_Engineering_Review_Required st
         else st)"

definition check_seal :: "digests \<Rightarrow> run_state \<Rightarrow> checkpoint_error + unit" where
  "check_seal dg st =
     (case (st_seal st, st_plan st) of
        (Some sl, Some plan) \<Rightarrow> lift_error Seal_Broken (verify_case dg plan sl st)
      | _ \<Rightarrow> Inr ())"

text \<open>The steps after the decision about processes: they change the agent and the state.\<close>

definition restore_run ::
  "digests \<Rightarrow> codec \<Rightarrow> session \<Rightarrow> run_state \<Rightarrow> (checkpoint_error + run_state) \<times> session" where
  "restore_run dg cd s st =
     (case check_ledger s st of
        Inl e \<Rightarrow> (Inl e, s)
      | Inr _ \<Rightarrow>
          let st = (settle_pending st)\<lparr>st_workspace := se_workspace s\<rparr>
          in case restore_attributes cd (as_snapshot (st_rest st)) snapshot_fields (se_agent s) of
               (Inl e, attrs) \<Rightarrow> (Inl e, s\<lparr>se_agent := attrs\<rparr>)
             | (Inr _, attrs) \<Rightarrow>
                 (case check_seal dg st of
                    Inl e \<Rightarrow> (Inl e, s\<lparr>se_agent := attrs\<rparr>)
                  | Inr _ \<Rightarrow> (Inr (resume_state st), s\<lparr>se_agent := attrs, se_resume_pending := True\<rparr>)))"

definition load ::
  "digests \<Rightarrow> (intake_spec \<Rightarrow> string) \<Rightarrow> codec \<Rightarrow> host \<Rightarrow> bool \<Rightarrow> session \<Rightarrow>
     (checkpoint_error + run_state) \<times> session" where
  "load dg idg cd h reconcile s =
     (case bind_result (read_checkpoint cd s) (\<lambda>p.
             bind_result (check_payload (dg_sha dg) idg s p) (\<lambda>_. Inr p)) of
        Inl e \<Rightarrow> (Inl e, s)
      | Inr p \<Rightarrow>
          let s = s\<lparr>se_workspace := own_inputs (pl_inputs p) (se_workspace s)\<rparr>; st = pl_state p
          in case bind_result (check_inputs (dg_sha dg) (se_workspace s) (pl_inputs p))
                   (\<lambda>_. check_interrupted reconcile s st) of
               Inl e \<Rightarrow> (Inl e, s)
             | Inr _ \<Rightarrow>
                 (case (if reconcile then reconcile_processes h s st else (Inr st, s)) of
                    (Inl e, s) \<Rightarrow> (Inl e, s)
                  | (Inr st, s) \<Rightarrow> restore_run dg cd s st))"

section \<open>The transaction around a decision\<close>

text \<open>
  \<open>execute_prepare_decision\<close>; what the decision does is an argument that may itself save checkpoints, as
  the tool actions do before and after their work, and \<open>dk\<close> gives what happens to its own three saves.
\<close>

definition execute_prepare_decision ::
  "(string \<Rightarrow> string) \<Rightarrow> codec \<Rightarrow> (string \<Rightarrow> disk_outcome) \<Rightarrow>
     (session \<times> run_state \<Rightarrow> (exn + 'a) \<times> session \<times> run_state) \<Rightarrow> string \<Rightarrow> nat \<Rightarrow> rat \<Rightarrow> session \<Rightarrow> run_state \<Rightarrow>
     ((checkpoint_error + exn) + 'a) \<times> session \<times> run_state" where
  "execute_prepare_decision sha cd dk impl action step now s st =
     (let active = Py_Dict [(''type'', Py_Str action), (''step'', Py_Num (of_nat step))];
          s = s\<lparr>se_agent := AList.update ''_active_transaction'' active (se_agent s)\<rparr>
      in case save sha cd (dk ''transaction-start'') ''transaction-start'' now s st of
           (Inl e, s, st) \<Rightarrow> (Inl (Inl e), s, st)
         | (Inr _, s, st) \<Rightarrow>
             (case impl (s, st) of
                (Inl x, s, st) \<Rightarrow>
                  (case save sha cd (dk ''transaction-interrupted'') ''transaction-interrupted'' now s st of
                     (Inl e, s, st) \<Rightarrow> (Inl (Inl e), s, st)
                   | (Inr _, s, st) \<Rightarrow> (Inl (Inr x), s, st))
              | (Inr outcome, s, st) \<Rightarrow>
                  let s = s\<lparr>se_agent := AList.update ''_active_transaction'' Py_None (se_agent s)\<rparr>;
                      st = st\<lparr>st_pending := None\<rparr>
                  in (case save sha cd (dk ''transaction-completed'') ''transaction-completed'' now s st of
                        (Inl e, s, st) \<Rightarrow> (Inl (Inl e), s, st)
                      | (Inr _, s, st) \<Rightarrow> (Inr outcome, s, st))))"

section \<open>What a resumed run is\<close>

lemma load_InrE:
  assumes "load dg idg cd h reconcile s = (Inr st', s')"
  obtains p s1 s2 st2 where
    "read_checkpoint cd s = Inr p" "check_payload (dg_sha dg) idg s p = Inr ()"
    "s1 = s\<lparr>se_workspace := own_inputs (pl_inputs p) (se_workspace s)\<rparr>"
    "check_inputs (dg_sha dg) (se_workspace s1) (pl_inputs p) = Inr ()"
    "check_interrupted reconcile s1 (pl_state p) = Inr ()"
    "(if reconcile then reconcile_processes h s1 (pl_state p) else (Inr (pl_state p), s1)) = (Inr st2, s2)"
    "restore_run dg cd s2 st2 = (Inr st', s')"
proof -
  from assms obtain p where p: "read_checkpoint cd s = Inr p" "check_payload (dg_sha dg) idg s p = Inr ()"
    by (cases "read_checkpoint cd s"; cases "check_payload (dg_sha dg) idg s (projr (read_checkpoint cd s))")
      (simp_all add: load_def)
  let ?s1 = "s\<lparr>se_workspace := own_inputs (pl_inputs p) (se_workspace s)\<rparr>"
  from assms p have inputs: "check_inputs (dg_sha dg) (se_workspace ?s1) (pl_inputs p) = Inr ()"
    by (cases "check_inputs (dg_sha dg) (se_workspace ?s1) (pl_inputs p)") (simp_all add: load_def Let_def)
  from assms p inputs have interrupted: "check_interrupted reconcile ?s1 (pl_state p) = Inr ()"
    by (cases "check_interrupted reconcile ?s1 (pl_state p)") (simp_all add: load_def Let_def)
  obtain r s2 where r: "(if reconcile then reconcile_processes h ?s1 (pl_state p) else (Inr (pl_state p), ?s1)) = (r, s2)"
    by fastforce
  with assms p inputs interrupted obtain st2 where "r = Inr st2" "restore_run dg cd s2 st2 = (Inr st', s')"
    by (cases r) (simp_all add: load_def Let_def)
  with p inputs interrupted r that show thesis by blast
qed

lemma restore_run_InrE:
  assumes "restore_run dg cd s st = (Inr st', s')"
  obtains settled attrs where
    "check_ledger s st = Inr ()" "settled = (settle_pending st)\<lparr>st_workspace := se_workspace s\<rparr>"
    "restore_attributes cd (as_snapshot (st_rest settled)) snapshot_fields (se_agent s) = (Inr (), attrs)"
    "check_seal dg settled = Inr ()" "st' = resume_state settled"
    "s' = s\<lparr>se_agent := attrs, se_resume_pending := True\<rparr>"
  using assms by (auto simp: restore_run_def Let_def split: sum.splits prod.splits)

lemma resume_state_kept [simp]:
  "st_plan (resume_state st) = st_plan st" "st_seal (resume_state st) = st_seal st"
  "st_workspace (resume_state st) = st_workspace st" "st_pending (resume_state st) = st_pending st"
  "st_rest (resume_state st) = st_rest st" "st_solve_approved (resume_state st) = False"
  "st_approval (resume_state st) = None"
  by (simp_all add: resume_state_def transition_def Let_def)

lemma resume_state_stops: "st_current (resume_state st) \<notin> {Wf_Simulation, Wf_Runtime_Repair}"
  by (simp add: resume_state_def transition_def Let_def)

lemma settle_pending_kept [simp]:
  "st_plan (settle_pending st) = st_plan st" "st_seal (settle_pending st) = st_seal st"
  "st_pending (settle_pending st) = None"
  "as_process_records (st_rest (settle_pending st)) = as_process_records (st_rest st)"
  "as_snapshot (st_rest (settle_pending st)) = as_snapshot (st_rest st)"
  by (simp_all add: settle_pending_def Let_def)

text \<open>
  What a resumed run has to be, field by field: the stored state without approval and pending action, stopped
  where it was unless it was running or repairing, with the pending event recorded, the given rows of the
  process ledger and the files of the process.
\<close>

definition unrecorded_event :: "pending option \<Rightarrow> string list \<Rightarrow> string list" where
  "unrecorded_event p events =
     (case p of Some (Pending_Event e) \<Rightarrow> if e \<noteq> [] \<and> e \<notin> set events then [e] else [] | _ \<Rightarrow> [])"

definition resumed_from :: "run_state \<Rightarrow> process_row list \<Rightarrow> workspace \<Rightarrow> run_state" where
  "resumed_from stored rows w = stored\<lparr>
     st_solve_approved := False, st_approval := None, st_pending := None,
     st_current :=
       (if st_current stored = Wf_Simulation then Wf_Solve_Ready
        else if st_current stored = Wf_Runtime_Repair then Wf_Engineering_Review_Required else st_current stored),
     st_history := st_history stored @
       (if st_current stored = Wf_Simulation then [(Wf_Simulation, Wf_Solve_Ready)]
        else if st_current stored = Wf_Runtime_Repair then [(Wf_Runtime_Repair, Wf_Engineering_Review_Required)] else []),
     st_workspace := w,
     st_rest := (st_rest stored)\<lparr>
       as_events := as_events (st_rest stored) @ unrecorded_event (st_pending stored) (as_events (st_rest stored)),
       as_process_records := rows\<rparr>\<rparr>"

lemma resume_settled:
  "resume_state ((settle_pending st)\<lparr>st_workspace := w\<rparr>) = resumed_from st (as_process_records (st_rest st)) w"
  by (cases "st_pending st")
    (auto simp: resume_state_def settle_pending_def resumed_from_def unrecorded_event_def transition_def Let_def
      split: pending.split)

lemma resumed_from_records [simp]:
  "resumed_from (st\<lparr>st_rest := (st_rest st)\<lparr>as_process_records := old\<rparr>\<rparr>) rows w = resumed_from st rows w"
  by (simp add: resumed_from_def)

text \<open>What reconciliation does to a row: only its status, the note and the measured processor time.\<close>

definition row_reconciled :: "process_row \<Rightarrow> process_row \<Rightarrow> bool" where
  "row_reconciled row row' \<longleftrightarrow>
     (if in_flight row
      then map_of row' ''status'' = Some (J_Str ''interrupted_reconciled_for_explicit_restart'') \<and>
        (\<forall>k. k \<notin> {''status'', ''reconciliation'', ''aggregate_cpu_seconds''} \<longrightarrow> map_of row' k = map_of row k)
      else row' = row)"

lemma reconcile_group_keeps:
  "reconcile_group h row = (r, row') \<Longrightarrow> k \<noteq> ''aggregate_cpu_seconds'' \<Longrightarrow> map_of row' k = map_of row k"
  by (auto simp: reconcile_group_def update_conv' split: option.splits json_value.splits if_splits)

lemma reconcile_row_keeps:
  assumes "reconcile_row h row = (Inr (), row')"
  shows "row_reconciled row row'"
proof (cases "in_flight row")
  case True
  obtain r row1 where group: "(if truthy (map_of row ''cgroup_path'') then reconcile_group h row else (Inr (), row)) = (r, row1)"
    by fastforce
  then have "map_of row1 k = map_of row k" if "k \<noteq> ''aggregate_cpu_seconds''" for k
    using that reconcile_group_keeps by (auto split: if_splits)
  then show ?thesis
    using assms True unfolding reconcile_row_def group by (auto simp: row_reconciled_def update_conv' split: sum.splits)
qed (use assms in \<open>simp add: reconcile_row_def row_reconciled_def\<close>)

lemma reconcile_rows_keep:
  "reconcile_rows h rows = (Inr (), rows') \<Longrightarrow> list_all2 row_reconciled rows rows'"
proof (induction rows arbitrary: rows')
  case (Cons row rows)
  then show ?case using reconcile_row_keeps by (fastforce split: prod.splits sum.splits)
qed simp

lemma own_inputs_files [simp]: "ws_files (own_inputs inputs w) = ws_files w"
  by (simp add: own_inputs_def)

text \<open>A process is proved to be gone: it had an id, and neither it nor its group exists.\<close>

definition proved_gone :: "host \<Rightarrow> process_row \<Rightarrow> bool" where
  "proved_gone h row \<longleftrightarrow>
     (\<exists>pid. map_of row ''pid'' = Some pid \<and> pid \<noteq> J_Null \<and> ho_kill h pid = Probe_Gone \<and>
        (ho_posix h \<longrightarrow> ho_killpg h pid = Probe_Gone))"

lemma check_gone_iff: "check_gone h row = Inr () \<longleftrightarrow> proved_gone h row"
  by (auto simp: check_gone_def proved_gone_def split: option.splits probe.splits)

lemma reconcile_group_keeps_pid:
  "reconcile_group h row = (r, row') \<Longrightarrow> map_of row' ''pid'' = map_of row ''pid''"
  by (auto simp: reconcile_group_def update_conv' split: option.splits json_value.splits if_splits)

lemma reconcile_row_Inr:
  assumes "reconcile_row h row = (Inr (), row')"
  shows "in_flight row \<longrightarrow> proved_gone h row" "\<not> in_flight row'"
proof -
  show "in_flight row \<longrightarrow> proved_gone h row"
  proof
    assume flying: "in_flight row"
    obtain r row1 where group: "(if truthy (map_of row ''cgroup_path'') then reconcile_group h row else (Inr (), row)) = (r, row1)"
      by fastforce
    have "check_gone h row1 = Inr ()"
      using assms flying unfolding reconcile_row_def group by (auto split: sum.splits)
    moreover have "map_of row1 ''pid'' = map_of row ''pid''"
      using group reconcile_group_keeps_pid by (auto split: if_splits)
    ultimately show "proved_gone h row" by (simp add: check_gone_iff proved_gone_def)
  qed
  show "\<not> in_flight row'"
  proof (cases "in_flight row")
    case True
    obtain r row1 where group: "(if truthy (map_of row ''cgroup_path'') then reconcile_group h row else (Inr (), row)) = (r, row1)"
      by fastforce
    then obtain v where "map_of row' ''status'' = Some (J_Str ''interrupted_reconciled_for_explicit_restart'')"
      using assms True unfolding reconcile_row_def group by (auto simp: update_conv' split: sum.splits)
    then show ?thesis by (simp add: in_flight_def)
  qed (use assms in \<open>simp add: reconcile_row_def\<close>)
qed

lemma reconcile_rows_Inr:
  assumes "reconcile_rows h rows = (Inr (), rows')"
  shows "\<forall>row \<in> set rows. in_flight row \<longrightarrow> proved_gone h row" "\<not> list_ex in_flight rows'"
  using assms
proof (induction rows arbitrary: rows')
  case (Cons row rows)
  {
    case 1
    with Cons.IH(1) reconcile_row_Inr(1) show ?case by (fastforce split: prod.splits sum.splits)
  next
    case 2
    with Cons.IH(2) reconcile_row_Inr(2) show ?case by (fastforce split: prod.splits sum.splits)
  }
qed simp_all

lemma resumed_run:
  assumes "load dg idg cd h reconcile s = (Inr st', s')"
  shows "\<exists>p bytes. se_checkpoint s = Stored bytes (Some (p, cd_digest cd p)) \<and> pl_schema p = 1 \<and>
      pl_workspace p = se_root s \<and> pl_environment p = se_environment s \<and>
      pl_graph p = map_option (dg_sha dg) (se_graph s) \<and>
      ws_files (se_workspace s') = ws_files (se_workspace s) \<and>
      execution_file_seals (dg_sha dg) (se_workspace s') = Inr (pl_inputs p) \<and>
      \<not> truthy (map_of (as_snapshot (st_rest (pl_state p))) ''_active_transaction'') \<and>
      \<not> se_restart_journal s \<and> \<not> list_ex in_flight (process_records s' st') \<and>
      (unfinished (st_pending (pl_state p)) \<or> list_ex in_flight (process_records s (pl_state p)) \<longrightarrow>
        reconcile \<and> parallel_plan (pl_state p) \<and>
        (\<forall>row \<in> set (process_records s (pl_state p)). in_flight row \<longrightarrow> proved_gone h row)) \<and>
      (\<exists>rows. st' = resumed_from (pl_state p) rows (se_workspace s') \<and>
        (if reconcile then list_all2 row_reconciled (process_records s (pl_state p)) rows
         else rows = as_process_records (st_rest (pl_state p))))"
    and "st_pending st' = None \<and> st_current st' \<notin> {Wf_Simulation, Wf_Runtime_Repair} \<and>
      st_approval st' = None \<and> \<not> authorized dg st' \<and> st_workspace st' = se_workspace s' \<and>
      (\<forall>plan sl. st_plan st' = Some plan \<and> st_seal st' = Some sl \<longrightarrow> verify_case dg plan sl st' = Inr ())"
proof -
  from assms obtain p s1 s2 st2 where
      read: "read_checkpoint cd s = Inr p" and payload: "check_payload (dg_sha dg) idg s p = Inr ()"
    and s1: "s1 = s\<lparr>se_workspace := own_inputs (pl_inputs p) (se_workspace s)\<rparr>"
    and inputs: "check_inputs (dg_sha dg) (se_workspace s1) (pl_inputs p) = Inr ()"
    and interrupted: "check_interrupted reconcile s1 (pl_state p) = Inr ()"
    and processes: "(if reconcile then reconcile_processes h s1 (pl_state p) else (Inr (pl_state p), s1)) = (Inr st2, s2)"
    and restored: "restore_run dg cd s2 st2 = (Inr st', s')" by (rule load_InrE)
  from restored obtain settled attrs where ledger: "check_ledger s2 st2 = Inr ()"
    and settled: "settled = (settle_pending st2)\<lparr>st_workspace := se_workspace s2\<rparr>"
    and seal: "check_seal dg settled = Inr ()" and st': "st' = resume_state settled"
    and s': "s' = s2\<lparr>se_agent := attrs, se_resume_pending := True\<rparr>" by (rule restore_run_InrE)
  have workspace: "se_workspace s2 = se_workspace s1"
    using processes by (auto simp: reconcile_processes_def split: if_splits prod.splits sum.splits)
  have stored: "\<exists>bytes. se_checkpoint s = Stored bytes (Some (p, cd_digest cd p))"
    using read by (auto simp: read_checkpoint_def split: stored_checkpoint.splits option.splits if_splits)
  have header: "pl_schema p = 1 \<and> pl_workspace p = se_root s \<and> pl_environment p = se_environment s \<and>
      pl_graph p = map_option (dg_sha dg) (se_graph s)"
    using payload by (auto simp: check_payload_def split: if_splits)
  have files: "execution_file_seals (dg_sha dg) (se_workspace s') = Inr (pl_inputs p)"
    using inputs unfolding s' by (simp add: workspace check_inputs_def split: sum.splits if_splits)
  have journal: "\<not> se_restart_journal s \<and> \<not> truthy (map_of (as_snapshot (st_rest (pl_state p))) ''_active_transaction'') \<and>
      (unfinished (st_pending (pl_state p)) \<longrightarrow> reconcile)"
    using interrupted unfolding s1 by (simp add: check_interrupted_def split: if_splits)
  have idle: "\<not> list_ex in_flight (process_records s2 st2)"
    using ledger by (simp add: check_ledger_def split: if_splits)
  have records: "process_records s' st' = process_records s2 st2"
    unfolding s' st' settled by (simp add: process_records_def split: option.split)
  have same: "process_records s1 (pl_state p) = process_records s (pl_state p)"
    unfolding s1 by (simp add: process_records_def)
  have gone: "parallel_plan (pl_state p) \<and>
      (\<forall>row \<in> set (process_records s (pl_state p)). in_flight row \<longrightarrow> proved_gone h row)" if reconcile
    using processes that same reconcile_rows_Inr(1)
    by (fastforce simp: reconcile_processes_def split: if_splits prod.splits sum.splits)
  have unreconciled: "process_records s2 st2 = process_records s (pl_state p)" if "\<not> reconcile"
    using processes that same by simp
  have uncertain: "unfinished (st_pending (pl_state p)) \<or> list_ex in_flight (process_records s (pl_state p)) \<longrightarrow>
      reconcile \<and> parallel_plan (pl_state p) \<and>
      (\<forall>row \<in> set (process_records s (pl_state p)). in_flight row \<longrightarrow> proved_gone h row)"
    using gone unreconciled idle journal by (cases reconcile) simp_all
  have resumed: "\<exists>rows. st' = resumed_from (pl_state p) rows (se_workspace s') \<and>
      (if reconcile then list_all2 row_reconciled (process_records s (pl_state p)) rows
       else rows = as_process_records (st_rest (pl_state p)))"
  proof (cases reconcile)
    case True
    then have "reconcile_processes h s1 (pl_state p) = (Inr st2, s2)" using processes by simp
    then obtain rows where "reconcile_rows h (process_records s1 (pl_state p)) = (Inr (), rows)"
        "st2 = (pl_state p)\<lparr>st_rest := (st_rest (pl_state p))\<lparr>as_process_records := rows\<rparr>\<rparr>"
      by (auto simp: reconcile_processes_def split: if_splits prod.splits sum.splits)
    then show ?thesis using True reconcile_rows_keep same unfolding st' settled resume_settled s' by auto
  next
    case False
    then show ?thesis using processes unfolding st' settled resume_settled s' by auto
  qed
  have files_kept: "ws_files (se_workspace s') = ws_files (se_workspace s)" by (simp add: s' workspace s1)
  show "\<exists>p bytes. se_checkpoint s = Stored bytes (Some (p, cd_digest cd p)) \<and> pl_schema p = 1 \<and>
      pl_workspace p = se_root s \<and> pl_environment p = se_environment s \<and>
      pl_graph p = map_option (dg_sha dg) (se_graph s) \<and>
      ws_files (se_workspace s') = ws_files (se_workspace s) \<and>
      execution_file_seals (dg_sha dg) (se_workspace s') = Inr (pl_inputs p) \<and>
      \<not> truthy (map_of (as_snapshot (st_rest (pl_state p))) ''_active_transaction'') \<and>
      \<not> se_restart_journal s \<and> \<not> list_ex in_flight (process_records s' st') \<and>
      (unfinished (st_pending (pl_state p)) \<or> list_ex in_flight (process_records s (pl_state p)) \<longrightarrow>
        reconcile \<and> parallel_plan (pl_state p) \<and>
        (\<forall>row \<in> set (process_records s (pl_state p)). in_flight row \<longrightarrow> proved_gone h row)) \<and>
      (\<exists>rows. st' = resumed_from (pl_state p) rows (se_workspace s') \<and>
        (if reconcile then list_all2 row_reconciled (process_records s (pl_state p)) rows
         else rows = as_process_records (st_rest (pl_state p))))"
    using stored header files files_kept journal idle uncertain resumed unfolding records by blast
  have verified: "\<forall>plan sl. st_plan st' = Some plan \<and> st_seal st' = Some sl \<longrightarrow> verify_case dg plan sl st' = Inr ()"
    using seal by (auto simp: check_seal_def verify_case_def st')
  show "st_pending st' = None \<and> st_current st' \<notin> {Wf_Simulation, Wf_Runtime_Repair} \<and>
      st_approval st' = None \<and> \<not> authorized dg st' \<and> st_workspace st' = se_workspace s' \<and>
      (\<forall>plan sl. st_plan st' = Some plan \<and> st_seal st' = Some sl \<longrightarrow> verify_case dg plan sl st' = Inr ())"
    using verified resume_state_stops [of settled] unfolding st' s'
    by (simp add: settled authorized_def)
qed

text \<open>
  C34: a run that is resumed is the stored run of this workspace: its envelope has its digest, root, environment
  and mesh graph are those of the process, and every execution input on disk is the recorded one.  Every field of
  the resumed state is the stored one (feedback, proposals, report, history, plan and seal among them), except
  that the approval and the pending action are dropped, a pending event is recorded, a run stopped in SIMULATION
  or RUNTIME_REPAIR is moved to SOLVE_READY or to the engineering review, and reconciled rows of the ledger are
  marked as such.  It was not inside a transaction or a restart preparation, no process of its ledger may
  still run, and one that was recorded as running was resumed only on explicit request, for a parallel
  plan, and when it was proved to be gone.  The resumed run carries no approval, so no solver can be
  started in its state, no pending action, and its seal verifies on the files of the process.
\<close>

theorem resumed_run_is_clean:
  assumes "load dg idg cd h reconcile s = (Inr st', s')"
  shows "(\<exists>p bytes. se_checkpoint s = Stored bytes (Some (p, cd_digest cd p)) \<and> pl_schema p = 1 \<and>
      pl_workspace p = se_root s \<and> pl_environment p = se_environment s \<and>
      pl_graph p = map_option (dg_sha dg) (se_graph s) \<and>
      ws_files (se_workspace s') = ws_files (se_workspace s) \<and>
      execution_file_seals (dg_sha dg) (se_workspace s') = Inr (pl_inputs p) \<and>
      \<not> truthy (map_of (as_snapshot (st_rest (pl_state p))) ''_active_transaction'') \<and>
      \<not> se_restart_journal s \<and> \<not> list_ex in_flight (process_records s' st') \<and>
      (unfinished (st_pending (pl_state p)) \<or> list_ex in_flight (process_records s (pl_state p)) \<longrightarrow>
        reconcile \<and> parallel_plan (pl_state p) \<and>
        (\<forall>row \<in> set (process_records s (pl_state p)). in_flight row \<longrightarrow> proved_gone h row)) \<and>
      (\<exists>rows. st' = resumed_from (pl_state p) rows (se_workspace s') \<and>
        (if reconcile then list_all2 row_reconciled (process_records s (pl_state p)) rows
         else rows = as_process_records (st_rest (pl_state p))))) \<and>
      (st_pending st' = None \<and> st_current st' \<notin> {Wf_Simulation, Wf_Runtime_Repair} \<and>
      st_approval st' = None \<and> \<not> authorized dg st' \<and> st_workspace st' = se_workspace s' \<and>
      (\<forall>plan sl. st_plan st' = Some plan \<and> st_seal st' = Some sl \<longrightarrow> verify_case dg plan sl st' = Inr ()))"
  using resumed_run [OF assms] by (rule conjI)

section \<open>A checkpoint that is loaded again\<close>

text \<open>Plain data survives JSON; the declared types of the attributes say which ones need more.\<close>

fun plain_value :: "py_value \<Rightarrow> bool" where
  "plain_value (Py_List xs) = list_all plain_value xs"
| "plain_value (Py_Dict d) = list_all (\<lambda>(k, v). plain_value v) d"
| "plain_value (Py_Tuple xs) = False"
| "plain_value (Py_Set xs) = False"
| "plain_value (Py_Model c dump) = False"
| "plain_value _ = True"

definition attribute_ok :: "codec \<Rightarrow> string \<Rightarrow> py_value \<Rightarrow> bool" where
  "attribute_ok cd name v \<longleftrightarrow> v = Py_None \<or>
     (case map_of snapshot_models name of
        Some c \<Rightarrow> (\<exists>dump. v = Py_Model c dump \<and> dump \<noteq> J_Null \<and> cd_valid cd c dump)
      | None \<Rightarrow>
          if name \<in> set snapshot_tuples then (\<exists>xs. v = Py_Tuple xs \<and> list_all plain_value xs)
          else plain_value v)"

lemma plain_value_roundtrip: "plain_value v \<Longrightarrow> of_json (jsonable v) = v"
  by (induction v rule: plain_value.induct) (auto simp: list_all_iff intro!: map_idI)

lemma plain_values_roundtrip: "list_all plain_value xs \<Longrightarrow> map (of_json \<circ> jsonable) xs = xs"
  by (induction xs) (simp_all add: plain_value_roundtrip)

lemma attribute_restored:
  assumes "attribute_ok cd name v" "v \<noteq> Py_None"
  shows "jsonable v \<noteq> J_Null \<and> restore_value cd name (jsonable v) = Inr v"
proof (cases "map_of snapshot_models name")
  case (Some c)
  then show ?thesis using assms by (auto simp: attribute_ok_def restore_value_def)
next
  case None
  show ?thesis
  proof (cases "name \<in> set snapshot_tuples")
    case True
    then show ?thesis using assms None
      by (auto simp: attribute_ok_def restore_value_def plain_values_roundtrip)
  next
    case False
    moreover have "jsonable v \<noteq> J_Null" if "plain_value v" using that assms(2) by (cases v) auto
    ultimately show ?thesis using assms None
      by (auto simp: attribute_ok_def restore_value_def plain_value_roundtrip)
  qed
qed

lemma distinct_snapshot_fields: "distinct snapshot_fields"
  by code_simp

lemma map_of_take_snapshot:
  "name \<in> set snapshot_fields \<Longrightarrow>
     map_of (take_snapshot attrs) name = Some (jsonable (get_default Py_None (map_of attrs name)))"
  by (simp add: take_snapshot_def map_of_map_restrict)

text \<open>An attribute is the saved one, or, when that was \<open>None\<close>, what the new process has.\<close>

lemma restore_attributes_saved:
  assumes "set names \<subseteq> set snapshot_fields" "distinct names"
    and "\<forall>name \<in> set names. attribute_ok cd name (get_default Py_None (map_of saved name))"
  shows "\<exists>attrs'. restore_attributes cd (take_snapshot saved) names attrs = (Inr (), attrs') \<and>
    (\<forall>name. map_of attrs' name =
      (if name \<in> set names \<and> get_default Py_None (map_of saved name) \<noteq> Py_None then map_of saved name
       else map_of attrs name))"
  using assms
proof (induction names arbitrary: attrs)
  case (Cons name names)
  let ?v = "get_default Py_None (map_of saved name)"
  have json: "get_default J_Null (map_of (take_snapshot saved) name) = jsonable ?v"
    using Cons.prems(1) by (simp add: map_of_take_snapshot get_default_def)
  have ok: "attribute_ok cd name ?v" using Cons.prems(3) by simp
  have fresh: "name \<notin> set names" using Cons.prems(2) by simp
  have rest: "set names \<subseteq> set snapshot_fields" "distinct names"
    "\<forall>name \<in> set names. attribute_ok cd name (get_default Py_None (map_of saved name))"
    using Cons.prems by simp_all
  show ?case
  proof (cases "?v = Py_None")
    case True
    obtain attrs' where "restore_attributes cd (take_snapshot saved) names attrs = (Inr (), attrs')"
      "\<forall>name. map_of attrs' name = (if name \<in> set names \<and> get_default Py_None (map_of saved name) \<noteq> Py_None
        then map_of saved name else map_of attrs name)"
      using Cons.IH [OF rest] by blast
    then show ?thesis using True fresh by (auto simp: json)
  next
    case False
    then have v: "map_of saved name = Some ?v" by (cases "map_of saved name") (simp_all add: get_default_def)
    obtain attrs' where "restore_attributes cd (take_snapshot saved) names (AList.update name ?v attrs) = (Inr (), attrs')"
      "\<forall>n. map_of attrs' n = (if n \<in> set names \<and> get_default Py_None (map_of saved n) \<noteq> Py_None
        then map_of saved n else map_of (AList.update name ?v attrs) n)"
      using Cons.IH [OF rest] by blast
    moreover have "restore_attributes cd (take_snapshot saved) (name # names) attrs =
        restore_attributes cd (take_snapshot saved) names (AList.update name ?v attrs)"
      using attribute_restored [OF ok False] by (cases "jsonable ?v") (simp_all add: json)
    ultimately show ?thesis using False fresh v by (intro exI [of _ attrs']) (auto simp: update_conv')
  qed
qed simp

lemma own_inputs_seals:
  assumes "execution_file_seals sha w = Inr inputs"
  shows "execution_file_seals sha (own_inputs inputs (w\<lparr>ws_authored := names, ws_assets := assets\<rparr>)) = Inr inputs"
proof -
  define owned where "owned orig = dict_fromkeys (map fs_path (filter (\<lambda>f. fs_origin f = orig) inputs))" for orig
  have owned: "set (owned orig) = sealed_as w orig (execution_paths w)" for orig
    unfolding owned_def execution_file_seals_Inr [OF assms] sealed_as_def
    by (auto simp: dict_fromkeys_def set_fromkeys_from filter_map the_seal_def comp_def)
  let ?w = "w\<lparr>ws_assets := owned User_Asset, ws_authored := owned Agent\<rparr>"
  have "execution_file_seals sha ?w = execution_file_seals sha w"
  proof (rule seals_of_owners)
    fix q assume "q \<in> set (execution_paths w)"
    then show "origin_of ?w (posix_join q) = origin_of w (posix_join q)"
      unfolding origin_of_def [of ?w]
      by (cases "origin_of w (posix_join q)") (auto simp: owned, auto simp: sealed_as_def)
  qed
  moreover have "own_inputs inputs (w\<lparr>ws_authored := names, ws_assets := assets\<rparr>) = ?w"
    by (simp add: own_inputs_def owned_def)
  ultimately show ?thesis using assms by simp
qed

lemma load_saved:
  assumes saved: "save (dg_sha dg) cd Disk_Sound reason now s st = (Inr (), s1, st1)" "se_workspace s = st_workspace st"
    and small: "se_checkpoint s1 = Stored bytes content" "bytes \<le> 64000000"
    and fresh: "se_root s2 = se_root s" "se_environment s2 = se_environment s" "se_graph s2 = se_graph s"
      "\<not> se_restart_journal s2" "se_checkpoint s2 = se_checkpoint s1"
      "se_workspace s2 = (se_workspace s)\<lparr>ws_authored := names, ws_assets := assets\<rparr>"
      "map_option pb_records (se_budget s2) = map_option pb_records (se_budget s)"
    and settled: "\<not> truthy (map_of (as_snapshot (st_rest st1)) ''_active_transaction'')"
      "\<not> unfinished (st_pending st)" "\<not> list_ex in_flight (process_records s st)"
    and valid: "st_intake_confirmed st \<longrightarrow> assert_confirmed_intake idg st = Inr ()" "check_seal dg st = Inr ()"
      "\<forall>name \<in> set snapshot_fields. attribute_ok cd name (get_default Py_None (map_of (se_agent s) name))"
  shows "\<exists>s3. load dg idg cd h False s2 =
      (Inr (resumed_from (st\<lparr>st_rest := (st_rest st)\<lparr>as_snapshot := take_snapshot (se_agent s)\<rparr>\<rparr>)
         (process_records s st) (se_workspace s3)), s3) \<and>
    execution_file_seals (dg_sha dg) (se_workspace s3) = execution_file_seals (dg_sha dg) (se_workspace s) \<and>
    (\<forall>name. map_of (se_agent s3) name =
      (if name \<in> set snapshot_fields \<and> get_default Py_None (map_of (se_agent s) name) \<noteq> Py_None
       then map_of (se_agent s) name else map_of (se_agent s2) name))"
proof -
  from saved(1) obtain inputs where inputs: "execution_file_seals (dg_sha dg) (se_workspace s) = Inr inputs"
    and st1: "st1 = record_snapshot s st"
    by (auto simp: save_def Let_def split: sum.splits if_splits)
  define p where "p = \<lparr>pl_schema = 1, pl_reason = reason, pl_saved_unix = now, pl_workspace = se_root s,
    pl_environment = se_environment s, pl_inputs = inputs, pl_graph = map_option (dg_sha dg) (se_graph s),
    pl_state = st1\<rparr>"
  have parts: "pl_inputs p = inputs" "pl_state p = st1" by (simp_all add: p_def)
  have "se_checkpoint s1 = Stored (cd_size cd (p, cd_digest cd p)) (Some (p, cd_digest cd p))"
    using saved(1) inputs by (auto simp: save_def Let_def p_def st1 split: if_splits)
  then have read: "read_checkpoint cd s2 = Inr p" using small fresh(5) by (simp add: read_checkpoint_def)
  have st1_kept: "st1 = st\<lparr>st_rest := st_rest st1\<rparr>" "as_events (st_rest st1) = as_events (st_rest st)"
    "as_snapshot (st_rest st1) = take_snapshot (se_agent s)"
    by (simp_all add: st1 record_snapshot_def Let_def split: option.split)
  have intake: "st_intake_confirmed st1 = st_intake_confirmed st"
    "assert_confirmed_intake idg st1 = assert_confirmed_intake idg st"
    by (subst st1_kept(1), simp add: assert_confirmed_intake_def split: option.split)+
  have payload: "check_payload (dg_sha dg) idg s2 p = Inr ()"
    using valid(1) fresh(1-3) by (simp add: check_payload_def p_def intake)
  let ?s = "s2\<lparr>se_workspace := own_inputs inputs (se_workspace s2)\<rparr>"
  have seals: "execution_file_seals (dg_sha dg) (se_workspace ?s) = Inr inputs"
    using own_inputs_seals [OF inputs] by (simp add: fresh(6))
  have interrupted: "check_interrupted False ?s st1 = Inr ()"
    using settled(1,2) fresh(4) by (subst st1_kept(1)) (simp add: check_interrupted_def)
  have records: "process_records ?s st1 = process_records s st" "case se_budget s2 of None \<Rightarrow> True |
      Some b \<Rightarrow> pb_records b = as_process_records (st_rest st1)"
    using fresh(7)
    by (auto simp: process_records_def st1 record_snapshot_def Let_def split: option.splits)
  have "same_row row row" for row by (simp add: same_row_def list_all_iff)
  then have "list_all2 same_row rows rows" for rows by (simp add: list_all2_same)
  then have ledger: "check_ledger ?s st1 = Inr ()"
    using settled(3) records by (auto simp: check_ledger_def split: option.splits)
  obtain attrs where attrs: "restore_attributes cd (take_snapshot (se_agent s)) snapshot_fields (se_agent s2) = (Inr (), attrs)"
    "\<forall>name. map_of attrs name =
      (if name \<in> set snapshot_fields \<and> get_default Py_None (map_of (se_agent s) name) \<noteq> Py_None
       then map_of (se_agent s) name else map_of (se_agent s2) name)"
    using restore_attributes_saved [OF order.refl distinct_snapshot_fields valid(3)] by blast
  let ?st = "(settle_pending st1)\<lparr>st_workspace := se_workspace ?s\<rparr>"
  have plan: "st_plan st1 = st_plan st" "st_seal st1 = st_seal st" by (subst st1_kept(1), simp)+
  have "verify_case dg plan sl ?st = verify_case dg plan sl st" for plan sl
    using seals inputs by (simp add: verify_case_def verify_seal_def saved(2) [symmetric])
  then have sealed: "check_seal dg ?st = Inr ()"
    using valid(2) by (simp add: check_seal_def plan cong: option.case_cong)
  let ?s3 = "?s\<lparr>se_agent := attrs, se_resume_pending := True\<rparr>"
  have "restore_run dg cd ?s st1 = (Inr (resume_state ?st), ?s3)"
    using sealed attrs(1) by (simp add: restore_run_def ledger st1_kept(3))
  then have "load dg idg cd h False s2 = (Inr (resume_state ?st), ?s3)"
    using interrupted seals by (simp add: load_def read payload check_inputs_def Let_def parts)
  moreover have "resume_state ?st =
      resumed_from (st\<lparr>st_rest := (st_rest st)\<lparr>as_snapshot := take_snapshot (se_agent s)\<rparr>\<rparr>)
        (process_records s st) (se_workspace ?s3)"
    unfolding resume_settled
    by (simp add: st1 record_snapshot_def resumed_from_def process_records_def Let_def split: option.split)
  ultimately show ?thesis
    using attrs(2) seals inputs by (intro exI [of _ ?s3]) simp
qed


section \<open>A transaction that did not finish\<close>

text \<open>
  The processes whose transaction has begun: it was marked and saved, work that leaves the mark and the
  stored file alone was done, further checkpoints were saved.  A crash can happen in any of them.
\<close>

inductive in_transaction :: "(string \<Rightarrow> string) \<Rightarrow> codec \<Rightarrow> session \<Rightarrow> bool" for sha cd where
  begun: "save sha cd dk reason now s st = (r, s', st') \<Longrightarrow> r = Inr () \<or> r = Inl Directory_Not_Synced \<Longrightarrow>
    map_of (se_agent s) ''_active_transaction'' = Some (Py_Dict d) \<Longrightarrow> d \<noteq> [] \<Longrightarrow> in_transaction sha cd s'"
| worked: "in_transaction sha cd s \<Longrightarrow> se_checkpoint s' = se_checkpoint s \<Longrightarrow>
    map_of (se_agent s') ''_active_transaction'' = map_of (se_agent s) ''_active_transaction'' \<Longrightarrow> in_transaction sha cd s'"
| saved: "in_transaction sha cd s \<Longrightarrow> save sha cd dk reason now s st = (r, s', st') \<Longrightarrow> in_transaction sha cd s'"

definition marked :: "session \<Rightarrow> bool" where
  "marked s \<longleftrightarrow>
     (\<exists>d n p sha. map_of (se_agent s) ''_active_transaction'' = Some (Py_Dict d) \<and> d \<noteq> [] \<and>
        se_checkpoint s = Stored n (Some (p, sha)) \<and>
        truthy (map_of (as_snapshot (st_rest (pl_state p))) ''_active_transaction''))"

lemma save_cases:
  assumes "save sha cd dk reason now s st = (r, s', st')"
  obtains (failed) e where "r = Inl e" "e \<noteq> Directory_Not_Synced" "s' = s"
  | (stored) n p where "r = Inr () \<or> r = Inl Directory_Not_Synced" "s' = s\<lparr>se_checkpoint := Stored n (Some (p, cd_digest cd p))\<rparr>"
      "pl_state p = st'" "as_snapshot (st_rest st') = take_snapshot (se_agent s)" "st_pending st' = st_pending st"
proof -
  have "as_snapshot (st_rest (record_snapshot s st)) = take_snapshot (se_agent s)"
    "st_pending (record_snapshot s st) = st_pending st"
    by (simp_all add: record_snapshot_def Let_def split: option.split)
  with assms that show thesis
    by (auto simp: save_def Let_def split: sum.splits if_splits disk_outcome.splits)
qed

lemma active_transaction_field: "''_active_transaction'' \<in> set snapshot_fields"
  by code_simp

lemma in_transaction_marked: "in_transaction sha cd s \<Longrightarrow> marked s"
proof (induction rule: in_transaction.induct)
  case (begun dk reason now s st r s' st' d)
  from begun(1) show ?case
  proof (cases rule: save_cases)
    case (stored n p)
    then show ?thesis using begun(3,4)
      by (auto simp: marked_def map_of_take_snapshot [OF active_transaction_field] get_default_def)
  qed (use begun(2) in simp)
next
  case (worked s s')
  then show ?case by (simp add: marked_def)
next
  case (saved s dk reason now st r s' st')
  from saved(2) show ?case
  proof (cases rule: save_cases)
    case (stored n p)
    then show ?thesis using saved(3)
      by (auto simp: marked_def map_of_take_snapshot [OF active_transaction_field] get_default_def)
  qed (simp add: saved(3))
qed

lemma marked_refused:
  assumes "marked s" "se_checkpoint s2 = se_checkpoint s"
  shows "isl (fst (load dg idg cd h reconcile s2))"
proof (cases "load dg idg cd h reconcile s2")
  case (Pair r s3)
  then show ?thesis
  proof (cases r)
    case (Inr st')
    with Pair obtain p where "read_checkpoint cd s2 = Inr p"
        "check_interrupted reconcile (s2\<lparr>se_workspace := own_inputs (pl_inputs p) (se_workspace s2)\<rparr>) (pl_state p) = Inr ()"
      by (metis load_InrE)
    with assms show ?thesis
      by (auto simp: marked_def read_checkpoint_def check_interrupted_def split: if_splits)
  qed (simp add: Pair)
qed

text \<open>
  C36: a decision of the agent is all or flagged.  At every moment between the start of its transaction and its
  end, whatever it did and whichever checkpoints it saved, a later process refuses the stored run (with or
  without the request to reconcile), so nothing is replayed on a half-done case.  When the decision itself
  raises, this stays so.  When one of the saves around it fails, the stored run is the one from before the
  decision, or one that is refused, or, when only the directory could not be synchronised after the last
  checkpoint was put in place, the completed one.  When the decision returns, the stored run is the completed
  one: it has the final state, no transaction and no pending action.
\<close>

theorem interrupted_decision_refused:
  assumes impl: "\<And>s st r s' st'. in_transaction sha cd s \<Longrightarrow> impl (s, st) = (r, s', st') \<Longrightarrow> in_transaction sha cd s'"
    and run: "execute_prepare_decision sha cd dk impl action step now s st = (r, s', st')"
  shows "(in_transaction sha cd s4 \<and> se_checkpoint s2 = se_checkpoint s4 \<longrightarrow> isl (fst (load dg idg cd h reconcile s2))) \<and>
    (let completed = st_pending st' = None \<and>
           (\<exists>n p. se_checkpoint s' = Stored n (Some (p, cd_digest cd p)) \<and> pl_state p = st') \<and>
           \<not> truthy (map_of (as_snapshot (st_rest st')) ''_active_transaction'')
     in case r of
       Inr _ \<Rightarrow> completed
     | Inl (Inr _) \<Rightarrow> se_checkpoint s2 = se_checkpoint s' \<longrightarrow> isl (fst (load dg idg cd h reconcile s2))
     | Inl (Inl e) \<Rightarrow> se_checkpoint s2 = se_checkpoint s' \<longrightarrow>
         se_checkpoint s2 = se_checkpoint s \<or> isl (fst (load dg idg cd h reconcile s2)) \<or>
         e = Directory_Not_Synced \<and> completed)"
proof (rule conjI)
  show "in_transaction sha cd s4 \<and> se_checkpoint s2 = se_checkpoint s4 \<longrightarrow> isl (fst (load dg idg cd h reconcile s2))"
    using in_transaction_marked marked_refused by blast
  have refused: "isl (fst (load dg idg cd h reconcile s2))"
    if "in_transaction sha cd s5" "se_checkpoint s2 = se_checkpoint s5" for s5
    using that in_transaction_marked marked_refused by blast
  let ?d = "[(''type'', Py_Str action), (''step'', Py_Num (of_nat step))]"
  let ?s = "s\<lparr>se_agent := AList.update ''_active_transaction'' (Py_Dict ?d) (se_agent s)\<rparr>"
  obtain r1 s1 st1 where start: "save sha cd (dk ''transaction-start'') ''transaction-start'' now ?s st = (r1, s1, st1)"
    by (metis prod_cases3)
  have begun: "in_transaction sha cd s1" if "r1 = Inr () \<or> r1 = Inl Directory_Not_Synced"
    using in_transaction.begun [OF start that, of ?d] by (simp add: update_conv')
  show "let completed = st_pending st' = None \<and>
           (\<exists>n p. se_checkpoint s' = Stored n (Some (p, cd_digest cd p)) \<and> pl_state p = st') \<and>
           \<not> truthy (map_of (as_snapshot (st_rest st')) ''_active_transaction'')
     in case r of
       Inr _ \<Rightarrow> completed
     | Inl (Inr _) \<Rightarrow> se_checkpoint s2 = se_checkpoint s' \<longrightarrow> isl (fst (load dg idg cd h reconcile s2))
     | Inl (Inl e) \<Rightarrow> se_checkpoint s2 = se_checkpoint s' \<longrightarrow>
         se_checkpoint s2 = se_checkpoint s \<or> isl (fst (load dg idg cd h reconcile s2)) \<or>
         e = Directory_Not_Synced \<and> completed"
  proof (cases r1)
    case (Inl e)
    with start run have r: "r = Inl (Inl e)" "s' = s1" by (simp_all add: execute_prepare_decision_def Let_def)
    from start show ?thesis
    proof (cases rule: save_cases)
      case (stored n p)
      with Inl begun have "in_transaction sha cd s1" by simp
      with r refused show ?thesis by simp
    qed (simp add: r)
  next
    case (Inr u)
    obtain ri s3 st3 where mid: "impl (s1, st1) = (ri, s3, st3)" by (metis prod_cases3)
    with begun Inr impl have inside3: "in_transaction sha cd s3" by simp
    show ?thesis
    proof (cases ri)
      case (Inl x)
      obtain r5 s5 st5 where save5: "save sha cd (dk ''transaction-interrupted'') ''transaction-interrupted'' now s3 st3 = (r5, s5, st5)"
        by (metis prod_cases3)
      then have "in_transaction sha cd s5" by (rule in_transaction.saved [OF inside3])
      moreover have "isl r" "s' = s5"
        using run start Inr mid Inl save5 by (auto simp: execute_prepare_decision_def Let_def split: sum.splits)
      ultimately show ?thesis using refused by (auto split: sum.splits)
    next
      case (Inr outcome)
      let ?s3 = "s3\<lparr>se_agent := AList.update ''_active_transaction'' Py_None (se_agent s3)\<rparr>"
      obtain r5 s5 st5 where save5:
        "save sha cd (dk ''transaction-completed'') ''transaction-completed'' now ?s3 (st3\<lparr>st_pending := None\<rparr>) = (r5, s5, st5)"
        by (metis prod_cases3)
      have run5: "r = (case r5 of Inl e \<Rightarrow> Inl (Inl e) | Inr _ \<Rightarrow> Inr outcome)" "s' = s5" "st' = st5"
        using run start \<open>r1 = Inr u\<close> mid Inr save5
        by (auto simp: execute_prepare_decision_def Let_def split: sum.splits)
      from save5 show ?thesis
      proof (cases rule: save_cases)
        case (failed e)
        then show ?thesis using run5 refused [OF inside3] by simp
      next
        case (stored n p)
        then show ?thesis
          using run5 by (auto simp: map_of_take_snapshot [OF active_transaction_field] update_conv' get_default_def)
      qed
    qed
  qed
qed

section \<open>A concrete run\<close>

text \<open>A run that was stored between the solver's start and its end, and a new process on the same case.\<close>

definition plain_codec :: codec where
  "plain_codec = \<lparr>cd_digest = pl_reason, cd_size = (\<lambda>_. 10), cd_valid = (\<lambda>_ _. True)\<rparr>"

definition no_processes :: host where
  "no_processes = \<lparr>ho_posix = True, ho_kill = (\<lambda>_. Probe_Gone), ho_killpg = (\<lambda>_. Probe_Gone),
     ho_isolation = None, ho_parent = id, ho_cgroup = (\<lambda>_. None)\<rparr>"

definition running_session :: session where
  "running_session = \<lparr>se_root = ''/w'', se_environment = ''e'', se_graph = None, se_restart_journal = False,
     se_checkpoint = No_Checkpoint, se_temporary_link = False, se_workspace = solved_case,
     se_budget = None, se_agent = [(''_draft_authoring_brief'', Py_Str ''brief'')], se_resume_pending = False\<rparr>"

definition running_state :: run_state where
  "running_state = \<lparr>
     st_intake = None, st_intake_confirmed = False, st_intake_digest = None, st_plan = Some solved_plan,
     st_seal = Some (case_sealed solved_case), st_has_case_dir = True, st_solve_approved = True,
     st_approval = Some (issue_approval (dg_execution solve_digests) (dg_physical solve_digests) solved_plan
       (case_sealed solved_case) None),
     st_pending = Some (Pending_Completed 1), st_primary_failure = None, st_secondary_failures = [],
     st_simulation = None, st_report = None, st_simulation_attempts = 1, st_feedback = [], st_proposals = [],
     st_active_proposal = None, st_current = Wf_Simulation, st_history = [], st_workspace = solved_case,
     st_rest = \<lparr>as_events = [], as_snapshot = [], as_process_records = []\<rparr>\<rparr>"

definition saved_run :: "(checkpoint_error + unit) \<times> session \<times> run_state" where
  "saved_run = save (dg_sha solve_digests) plain_codec Disk_Sound ''solver-result-captured'' 0 running_session running_state"

definition later_session :: session where
  "later_session = (fst (snd saved_run))\<lparr>se_workspace := solved_case\<lparr>ws_authored := [], ws_assets := []\<rparr>, se_agent := []\<rparr>"

lemma saved_run_eq:
  obtains s1 st1 p where
    "save (dg_sha solve_digests) plain_codec Disk_Sound ''solver-result-captured'' 0 running_session running_state = (Inr (), s1, st1)"
    "s1 = running_session\<lparr>se_checkpoint := Stored 10 (Some p)\<rparr>" "st1 = record_snapshot running_session running_state"
    "later_session = s1\<lparr>se_workspace := solved_case\<lparr>ws_authored := [], ws_assets := []\<rparr>, se_agent := []\<rparr>"
proof -
  from solved_case_sealed obtain files where "execution_file_seals (dg_sha solve_digests) solved_case = Inr files"
    by (auto simp: seal_def split: if_splits)
  then show thesis
    using that by (simp add: later_session_def saved_run_def save_def Let_def running_session_def plain_codec_def)
qed

lemma later_conditions:
  obtains s1 st1 content where
    "save (dg_sha solve_digests) plain_codec Disk_Sound ''solver-result-captured'' 0 running_session running_state = (Inr (), s1, st1)"
    "se_workspace running_session = st_workspace running_state" "se_checkpoint s1 = Stored 10 content" "(10::nat) \<le> 64000000"
    "se_root later_session = se_root running_session" "se_environment later_session = se_environment running_session"
    "se_graph later_session = se_graph running_session" "\<not> se_restart_journal later_session"
    "se_checkpoint later_session = se_checkpoint s1"
    "se_workspace later_session = (se_workspace running_session)\<lparr>ws_authored := [], ws_assets := []\<rparr>"
    "map_option pb_records (se_budget later_session) = map_option pb_records (se_budget running_session)"
    "\<not> truthy (map_of (as_snapshot (st_rest st1)) ''_active_transaction'')" "\<not> unfinished (st_pending running_state)"
    "\<not> list_ex in_flight (process_records running_session running_state)"
    "st_intake_confirmed running_state \<longrightarrow> assert_confirmed_intake in_content running_state = Inr ()"
    "check_seal solve_digests running_state = Inr ()"
    "\<forall>name \<in> set snapshot_fields. attribute_ok plain_codec name (get_default Py_None (map_of (se_agent running_session) name))"
proof -
  obtain s1 st1 p where run: "save (dg_sha solve_digests) plain_codec Disk_Sound ''solver-result-captured'' 0 running_session running_state = (Inr (), s1, st1)"
    and s1: "s1 = running_session\<lparr>se_checkpoint := Stored 10 (Some p)\<rparr>" and st1: "st1 = record_snapshot running_session running_state"
    and later: "later_session = s1\<lparr>se_workspace := solved_case\<lparr>ws_authored := [], ws_assets := []\<rparr>, se_agent := []\<rparr>"
    by (rule saved_run_eq)
  have attrs: "attribute_ok plain_codec name (get_default Py_None (map_of (se_agent running_session) name))" for name
    by (auto simp: running_session_def attribute_ok_def get_default_def snapshot_models_def snapshot_tuples_def)
  have sealed: "check_seal solve_digests running_state = Inr ()"
    using seal_then_verify [OF solved_case_ok(1) solved_case_sealed]
    by (simp add: check_seal_def running_state_def verify_case_def)
  have "map_of (as_snapshot (st_rest st1)) ''_active_transaction'' = Some J_Null"
    by (simp add: st1 record_snapshot_def running_session_def map_of_take_snapshot [OF active_transaction_field] get_default_def)
  then show thesis
    by (intro that [OF run])
      (use attrs sealed in \<open>simp_all add: later s1, simp_all add: running_session_def running_state_def unfinished_def process_records_def\<close>)
qed


lemma resumed_run_is_clean_witness:
  "\<exists>st' s'. load solve_digests in_content plain_codec no_processes False later_session = (Inr st', s') \<and>
     st_current st' \<notin> {Wf_Simulation, Wf_Runtime_Repair} \<and> \<not> authorized solve_digests st'"
proof -
  obtain st' s' where "load solve_digests in_content plain_codec no_processes False later_session = (Inr st', s')"
    by (rule later_conditions, drule (16) load_saved [of solve_digests plain_codec, where h = no_processes]) auto
  with conjunct2 [OF resumed_run_is_clean [OF this]] show ?thesis by blast
qed

lemma interrupted_decision_refused_witness:
  "isl (fst (load solve_digests in_content plain_codec no_processes True
     (fst (snd (execute_prepare_decision id plain_codec (\<lambda>_. Disk_Sound)
        (\<lambda>(s, st). (Inl (Ex_Other, ''lost'') :: exn + unit, s, st)) ''write_files'' 3 0 running_session running_state)))))"
proof -
  let ?impl = "\<lambda>(s :: session, st :: run_state). (Inl (Ex_Other, ''lost'') :: exn + unit, s, st)"
  have "\<not> isl (execution_file_seals id solved_case)" by code_simp
  then obtain files where files: "execution_file_seals id solved_case = Inr files"
    by (cases "execution_file_seals id solved_case") simp_all
  obtain s' st' where run: "execute_prepare_decision id plain_codec (\<lambda>_. Disk_Sound) ?impl ''write_files'' 3 0
      running_session running_state = (Inl (Inr (Ex_Other, ''lost'')), s', st')"
    by (simp add: execute_prepare_decision_def save_def Let_def running_session_def files)
  from interrupted_decision_refused [of id plain_codec ?impl, OF _ run, of s' s' solve_digests in_content no_processes True]
  show ?thesis unfolding run by simp
qed

end
