(* ===== verification/Presolve.thy ===== *)
theory Presolve
  imports Boundary_Resolution Foam_File Workspace Execution_Scopes
begin

text \<open>
  The completeness gate before a solve, \<^verbatim>\<open>verification/presolve.py\<close>, with the region layouts it works on
  (\<^verbatim>\<open>contracts/regions.py\<close>, \<open>RegionCaseLayout\<close> and \<open>RegionInterface\<close> of \<^verbatim>\<open>contracts/models.py\<close>): the inputs a
  plan declares exist and have the header of their kind, the mesh has patches, and every declared field
  has an entry for every patch, of the right type where the mesh prescribes one.

  A failure or a warning is a constructor with its data; the prose of the messages is left out.
  \<open>re.fullmatch\<close> is the argument \<open>fullmatch\<close> of the boundary resolution.
\<close>

section \<open>Reading a case file\<close>

text \<open>
  \<open>read_text(errors="replace")\<close>.  The replacement character is none of the characters of this model; it is
  represented by the pilcrow, which like it is no letter, no space and has no meaning in a dictionary.
\<close>

definition replacement :: char where
  "replacement = CHR 0xB6"

fun utf8_replace :: "string \<Rightarrow> string" where
  "utf8_replace [] = []"
| "utf8_replace (c # cs) =
     (let n = (of_char c :: nat)
      in if n < 128 then c # utf8_replace cs
         else case cs of
           [] \<Rightarrow> [replacement]
         | d # ds \<Rightarrow>
             let k = (of_char d :: nat)
             in if (n = 194 \<or> n = 195) \<and> 128 \<le> k \<and> k < 192
                then char_of ((n - 192) * 64 + (k - 128)) # utf8_replace ds
                else replacement # utf8_replace (d # ds))"

definition case_text :: "workspace \<Rightarrow> string list \<Rightarrow> string" where
  "case_text w q = universal_newlines (utf8_replace (get_default [] (map_of (ws_files w) q)))"

section \<open>Region layouts\<close>

definition under_region :: "string \<Rightarrow> string \<Rightarrow> string" where
  "under_region base region = (if region \<noteq> [] then base @ ''/'' @ region else base)"

definition layout_field_dir :: "region_case_layout \<Rightarrow> string" where
  "layout_field_dir l = under_region ''0'' (layout_region l)"

definition layout_system_dir :: "region_case_layout \<Rightarrow> string" where
  "layout_system_dir l = under_region ''system'' (layout_region l)"

definition layout_constant_dir :: "region_case_layout \<Rightarrow> string" where
  "layout_constant_dir l = under_region ''constant'' (layout_region l)"

definition layout_mesh_dir :: "region_case_layout \<Rightarrow> string" where
  "layout_mesh_dir l = layout_constant_dir l @ ''/polyMesh''"

datatype layout_error = Bad_Region_Name string | Duplicate_Required_Fields | Bad_Field_Names

text \<open>The validators of \<open>RegionCaseLayout\<close>; the pattern of a region name excludes \<open>.\<close> and \<open>..\<close> already.\<close>

definition make_layout :: "string \<Rightarrow> string option \<Rightarrow> string list \<Rightarrow> layout_error + region_case_layout" where
  "make_layout region solver names =
     (if region \<noteq> [] \<and> \<not> region_name region then Inl (Bad_Region_Name region)
      else if \<not> distinct names then Inl Duplicate_Required_Fields
      else if \<not> list_all region_name names then Inl Bad_Field_Names
      else Inr \<lparr>layout_region = region, layout_solver_module = solver, layout_required_fields = names\<rparr>)"

definition required_fields :: "string list \<Rightarrow> string \<Rightarrow> string list" where
  "required_fields required region =
     map path_name (filter (\<lambda>p. path_parent p = under_region ''0'' region) required)"

definition region_layouts :: "execution_scope list \<Rightarrow> string list \<Rightarrow> layout_error + region_case_layout list" where
  "region_layouts scopes required =
     map_result (\<lambda>sc. let region = get_default [] (scope_name sc)
       in make_layout region (scope_solver_module sc) (required_fields required region)) scopes"

section \<open>Results\<close>

datatype presolve_failure =
    Control_Dict_Not_Declared
  | No_Field_Files
  | Input_Missing string
  | Header_Failed string header_failure
  | Boundary_Missing string
  | No_Patches string
  | Patches_Uncovered string "string list"
  | Constraint_Mismatch string string string string match_kind "string option"
  | Key_Not_Declared string string
  | Interface_Patch_Missing string string
  | Interface_Neighbour_Missing string string
  | Interface_Field_Missing string string
  | Layouts_Refused layout_error
  | Contract_Refused contract_error

datatype presolve_warning =
    Header_Warned string header_warning
  | Coverage_Indeterminate string string string
  | Key_Indeterminate string string
  | Interface_Unproven string string

datatype presolve_error = Path_Refused workspace_error | Header_Refused contract_error

record region_view =
  rv_valid :: bool
  rv_mesh_patches :: "string list"
  rv_mesh_patch_types :: "(string \<times> string) list"
  rv_checked_files :: "string list"
  rv_solver_module :: "string option"

record presolve_result =
  pr_valid :: bool
  pr_regions :: "(string \<times> region_view) list"
  pr_failures :: "presolve_failure list"
  pr_checked_files :: "string list"
  pr_mesh_patches :: "string list"
  pr_mesh_patch_types :: "(string \<times> string) list"
  pr_warnings :: "presolve_warning list"
  pr_boundary_resolutions :: "(string \<times> (string \<times> match_kind) list) list"
  pr_header_classes :: "(string \<times> string) list"

definition empty_result :: presolve_result where
  "empty_result =
     \<lparr>pr_valid = True, pr_regions = [], pr_failures = [], pr_checked_files = [], pr_mesh_patches = [],
      pr_mesh_patch_types = [], pr_warnings = [], pr_boundary_resolutions = [], pr_header_classes = []\<rparr>"

definition case_path :: "workspace \<Rightarrow> string \<Rightarrow> presolve_error + string list" where
  "case_path w p = (case resolve_case_path w p False of Inl e \<Rightarrow> Inl (Path_Refused e) | Inr q \<Rightarrow> Inr q)"

definition dict_update :: "('k \<times> 'v) list \<Rightarrow> ('k \<times> 'v) list \<Rightarrow> ('k \<times> 'v) list" where
  "dict_update m items = foldl (\<lambda>m (k, v). AList.update k v m) m items"

section \<open>The inputs of a region\<close>

definition should_dictionary_validate :: "string \<Rightarrow> bool" where
  "should_dictionary_validate p \<longleftrightarrow>
     lower (path_suffix p) \<notin> {''.stl'', ''.obj'', ''.off'', ''.vtk'', ''.csv'', ''.dat'', ''.emesh''}"

definition expected_header_class :: "string \<Rightarrow> string option" where
  "expected_header_class p = (if starts_with p ''system/'' then Some ''dictionary'' else None)"

text \<open>Failures, warnings and the class of the header of one required file.\<close>

definition check_input ::
  "workspace \<Rightarrow> string \<Rightarrow>
     presolve_error + presolve_failure list \<times> presolve_warning list \<times> (string \<times> string) list" where
  "check_input w p =
     bind_result (case_path w p) (\<lambda>q.
       if \<not> is_file w q then Inr ([Input_Missing p], [], [])
       else if \<not> should_dictionary_validate p then Inr ([], [], [])
       else case validate_foam_file_header p (case_text w q) (expected_header_class p) None of
         Inl e \<Rightarrow> Inl (Header_Refused e)
       | Inr h \<Rightarrow> Inr (map (Header_Failed p) (hv_failures h), map (Header_Warned p) (hv_warnings h),
           [(p, fh_class_name (hv_header h))]))"

definition read_boundary ::
  "workspace \<Rightarrow> region_case_layout \<Rightarrow> presolve_error + presolve_failure list \<times> mesh_patch list" where
  "read_boundary w l =
     (let p = layout_mesh_dir l @ ''/boundary''
      in bind_result (case_path w p) (\<lambda>q.
           if \<not> is_file w q then Inr ([Boundary_Missing p], [])
           else let patches = parse_mesh_boundary (case_text w q)
                in Inr (if patches = [] then [No_Patches p] else [], patches)))"

section \<open>The fields of a region\<close>

definition constraint_patch_types :: "string list" where
  "constraint_patch_types = [''empty'', ''wedge'', ''symmetry'', ''symmetryPlane'', ''cyclic'', ''cyclicAMI'']"

definition constraint_violated :: "boundary_resolution \<Rightarrow> bool" where
  "constraint_violated r \<longleftrightarrow>
     br_status r = Resolved \<and> br_field_type r \<noteq> [] \<and>
     (mp_patch_type (br_patch r) \<in> set constraint_patch_types \<or> br_field_type r \<in> set constraint_patch_types) \<and>
     mp_patch_type (br_patch r) \<noteq> br_field_type r"

definition constraint_failures :: "string \<Rightarrow> (string \<times> boundary_resolution) list \<Rightarrow> presolve_failure list" where
  "constraint_failures p resolutions =
     concat (map (\<lambda>(name, r). if constraint_violated r
         then [Constraint_Mismatch p name (mp_patch_type (br_patch r)) (br_field_type r) (br_kind r)
           (map_option (\<lambda>s. fk_raw (bs_key s)) (br_selector r))]
         else []) (sort_key fst resolutions))"

definition field_keys :: "string list" where
  "field_keys = [''internalField'', ''dimensions'']"

definition check_field ::
  "(string \<Rightarrow> string \<Rightarrow> string + bool) \<Rightarrow> workspace \<Rightarrow> mesh_patch list \<Rightarrow> string \<Rightarrow>
     presolve_error + presolve_failure list \<times> presolve_warning list \<times> (string \<times> (string \<times> match_kind) list) list" where
  "check_field fullmatch w patches p =
     bind_result (case_path w p) (\<lambda>q.
       if \<not> is_file w q then Inr ([], [], [])
       else
         let text = case_text w q;
             resolutions = resolve_all fullmatch patches (parse_boundary_selectors text);
             missing = sort (map fst (filter (\<lambda>(n, r). br_status r = Missing) resolutions));
             unknown = filter (\<lambda>(n, r). br_status r = Indeterminate_Status) resolutions;
             (entries, complete) = parse_top_level_assignments text;
             absent = filter (\<lambda>k. map_of entries k = None) field_keys
         in Inr ((if missing \<noteq> [] then [Patches_Uncovered p missing] else []) @ constraint_failures p resolutions @
               (if complete then map (Key_Not_Declared p) absent else []),
             map (\<lambda>(n, r). Coverage_Indeterminate p (mp_name (br_patch r)) (br_reason r)) unknown @
               (if complete then [] else map (Key_Indeterminate p) absent),
             [(p, map (\<lambda>(n, r). (n, br_kind r)) resolutions)]))"

section \<open>Regions and the whole case\<close>

definition region_inputs :: "string list \<Rightarrow> region_case_layout \<Rightarrow> string list" where
  "region_inputs required_case_files l =
     dict_fromkeys (filter (\<lambda>p. length (path_parts p) = 2 \<or>
       path_parent p \<in> {layout_field_dir l, layout_system_dir l, layout_constant_dir l}) required_case_files)"

definition field_files :: "string list \<Rightarrow> region_case_layout \<Rightarrow> string list" where
  "field_files required l = filter (\<lambda>p. path_parent p = layout_field_dir l) required"

text \<open>The result of a region from its required files, its fields, and what was found about each of them.\<close>

definition region_result ::
  "string list \<Rightarrow> string list \<Rightarrow>
     (presolve_failure list \<times> presolve_warning list \<times> (string \<times> string) list) list \<Rightarrow>
     presolve_failure list \<times> mesh_patch list \<Rightarrow>
     (presolve_failure list \<times> presolve_warning list \<times> (string \<times> (string \<times> match_kind) list) list) list \<Rightarrow>
     presolve_result" where
  "region_result required declared inputs boundary checks =
     (let failures =
            (if ''system/controlDict'' \<notin> set required then [Control_Dict_Not_Declared] else []) @
            (if declared = [] then [No_Field_Files] else []) @
            concat (map fst inputs) @ fst boundary @ concat (map fst checks)
      in \<lparr>pr_valid = (failures = []), pr_regions = [], pr_failures = failures,
          pr_checked_files = required, pr_mesh_patches = map mp_name (snd boundary),
          pr_mesh_patch_types = dict_update [] (map (\<lambda>p. (mp_name p, mp_patch_type p)) (snd boundary)),
          pr_warnings = concat (map (fst \<circ> snd) inputs) @ concat (map (fst \<circ> snd) checks),
          pr_boundary_resolutions = dict_update [] (concat (map (snd \<circ> snd) checks)),
          pr_header_classes = dict_update [] (concat (map (snd \<circ> snd) inputs))\<rparr>)"

definition validate_region ::
  "(string \<Rightarrow> string \<Rightarrow> string + bool) \<Rightarrow> workspace \<Rightarrow> string list \<Rightarrow> region_case_layout \<Rightarrow>
     presolve_error + presolve_result" where
  "validate_region fullmatch w required_case_files l =
     (let required = region_inputs required_case_files l; declared = field_files required l
      in bind_result (map_result (check_input w) required) (\<lambda>inputs.
         bind_result (read_boundary w l) (\<lambda>boundary.
         bind_result (if snd boundary = [] then Inr []
             else map_result (check_field fullmatch w (snd boundary)) declared) (\<lambda>checks.
           Inr (region_result required declared inputs boundary checks)))))"

definition merge_region ::
  "presolve_result \<Rightarrow> region_case_layout \<times> presolve_result \<Rightarrow> presolve_result" where
  "merge_region result entry =
     (case entry of (l, partial) \<Rightarrow>
        let name = layout_region l; pre = (if name \<noteq> [] then name @ ''/'' else [])
        in \<lparr>pr_valid = pr_valid result,
            pr_regions = AList.update name
              \<lparr>rv_valid = pr_valid partial, rv_mesh_patches = pr_mesh_patches partial,
               rv_mesh_patch_types = pr_mesh_patch_types partial, rv_checked_files = pr_checked_files partial,
               rv_solver_module = layout_solver_module l\<rparr> (pr_regions result),
            pr_failures = pr_failures result @ pr_failures partial,
            pr_checked_files = pr_checked_files result @
              filter (\<lambda>p. p \<notin> set (pr_checked_files result)) (pr_checked_files partial),
            pr_mesh_patches = pr_mesh_patches result @ map ((@) pre) (pr_mesh_patches partial),
            pr_mesh_patch_types = dict_update (pr_mesh_patch_types result)
              (map (\<lambda>(k, v). (pre @ k, v)) (pr_mesh_patch_types partial)),
            pr_warnings = pr_warnings result @ pr_warnings partial,
            pr_boundary_resolutions = dict_update (pr_boundary_resolutions result) (pr_boundary_resolutions partial),
            pr_header_classes = dict_update (pr_header_classes result) (pr_header_classes partial)\<rparr>)"

definition settle_validity :: "presolve_result \<Rightarrow> presolve_result" where
  "settle_validity r = r\<lparr>pr_valid := (pr_failures r = [])\<rparr>"

definition validate_layouts ::
  "(string \<Rightarrow> string \<Rightarrow> string + bool) \<Rightarrow> workspace \<Rightarrow> string list \<Rightarrow> region_case_layout list \<Rightarrow>
     presolve_error + presolve_result" where
  "validate_layouts fullmatch w required_case_files layouts =
     bind_result (map_result (validate_region fullmatch w required_case_files) layouts) (\<lambda>partials.
       Inr (settle_validity (foldl merge_region empty_result (zip layouts partials))))"

record region_interface =
  ri_region :: string
  ri_patch :: string
  ri_neighbour_region :: string
  ri_neighbour_patch :: string
  ri_fields :: "string list"

definition patches_of :: "presolve_result \<Rightarrow> string \<Rightarrow> string list" where
  "patches_of r region = (case map_of (pr_regions r) region of None \<Rightarrow> [] | Some v \<Rightarrow> rv_mesh_patches v)"

definition check_interface :: "presolve_result \<Rightarrow> region_interface \<Rightarrow> presolve_failure list \<times> presolve_warning list"
where
  "check_interface r i =
     ((if ri_patch i \<notin> set (patches_of r (ri_region i))
       then [Interface_Patch_Missing (ri_region i) (ri_patch i)] else []) @
      (if ri_neighbour_patch i \<notin> set (patches_of r (ri_neighbour_region i))
       then [Interface_Neighbour_Missing (ri_neighbour_region i) (ri_neighbour_patch i)] else []) @
      concat (map (\<lambda>field. concat (map (\<lambda>region.
          if ''0/'' @ region @ ''/'' @ field \<notin> set (pr_checked_files r)
          then [Interface_Field_Missing region field] else []) [ri_region i, ri_neighbour_region i])) (ri_fields i)),
      [Interface_Unproven (ri_region i) (ri_patch i)])"

definition refused_result :: "presolve_failure \<Rightarrow> presolve_result" where
  "refused_result e = empty_result\<lparr>pr_valid := False, pr_failures := [e]\<rparr>"

definition validate_presolve ::
  "(string \<Rightarrow> string \<Rightarrow> string + bool) \<Rightarrow> workspace \<Rightarrow> engineering_plan \<Rightarrow> region_interface list \<Rightarrow>
     presolve_error + presolve_result" where
  "validate_presolve fullmatch w plan interfaces =
     (case region_layouts (execution_scopes (Of_Plan plan)) (plan_required_case_files plan) of
        Inl e \<Rightarrow> Inr (refused_result (Layouts_Refused e))
      | Inr layouts \<Rightarrow>
          bind_result (validate_layouts fullmatch w (plan_required_case_files plan) layouts) (\<lambda>r.
            Inr (settle_validity (r\<lparr>
              pr_failures := pr_failures r @ concat (map (fst \<circ> check_interface r) interfaces),
              pr_warnings := pr_warnings r @ concat (map (snd \<circ> check_interface r) interfaces)\<rparr>))))"

text \<open>
  Here a \<open>ValueError\<close> of the validation is caught too: a refused header contract is one, a refused case path is
  a \<open>RuntimeError\<close> and is raised.
\<close>

definition validate_required_case_files ::
  "(string \<Rightarrow> string \<Rightarrow> string + bool) \<Rightarrow> workspace \<Rightarrow> string list \<Rightarrow> presolve_error + presolve_result" where
  "validate_required_case_files fullmatch w required_case_files =
     (case region_layouts [named_scope None] required_case_files of
        Inl e \<Rightarrow> Inr (refused_result (Layouts_Refused e))
      | Inr layouts \<Rightarrow>
          (case validate_layouts fullmatch w required_case_files layouts of
             Inl (Header_Refused e) \<Rightarrow> Inr (refused_result (Contract_Refused e))
           | r \<Rightarrow> r))"

section \<open>What is accepted\<close>

text \<open>
  The conditions of an accepted case, written out on the files and the parsed dictionaries.  The header of an
  input is complete, names the file and its directory, and its class is the one its place asks for.
\<close>

definition header_ok :: "string \<Rightarrow> string \<Rightarrow> bool" where
  "header_ok p text \<longleftrightarrow>
     (\<exists>hv. validate_foam_file_header p text None None = Inr hv \<and>
        (let h = hv_header hv; n = hv_path hv
         in fh_class_name h \<noteq> [] \<and> fh_format h \<in> {''ascii'', ''binary''} \<and>
            fh_object_name h \<noteq> [] \<and> fh_object_name h = path_name n \<and> fh_location h \<in> {[], path_location n} \<and>
            (starts_with p ''system/'' \<longrightarrow> fh_class_name h = ''dictionary'') \<and>
            (starts_with n ''0/'' \<longrightarrow> is_field_class (fh_class_name h) \<and>
               (\<forall>c. infer_field_class_from_text text = Some c \<and> c \<noteq> [] \<longrightarrow>
                  c = fh_class_name h \<or> field_classes_value_compatible (fh_class_name h) c))))"

definition input_ok :: "workspace \<Rightarrow> string \<Rightarrow> bool" where
  "input_ok w p \<longleftrightarrow>
     (\<exists>q. resolve_case_path w p False = Inr q \<and> is_file w q \<and>
        (lower (path_suffix p) \<in> {''.stl'', ''.obj'', ''.off'', ''.vtk'', ''.csv'', ''.dat'', ''.emesh''} \<or>
         header_ok p (case_text w q)))"

text \<open>
  What OpenFOAM does with a patch: an entry of the strongest tier that covers it is used, and must not
  contradict the type the mesh prescribes; an \<open>empty\<close> patch needs none; or the text is not decidable here.
\<close>

definition fits :: "mesh_patch \<Rightarrow> string \<Rightarrow> bool" where
  "fits patch field_type \<longleftrightarrow>
     field_type = [] \<or> field_type = mp_patch_type patch \<or>
     (\<forall>constraint \<in> {''empty'', ''wedge'', ''symmetry'', ''symmetryPlane'', ''cyclic'', ''cyclicAMI''}.
        mp_patch_type patch \<noteq> constraint \<and> field_type \<noteq> constraint)"

definition selected_by ::
  "(string \<Rightarrow> string \<Rightarrow> string + bool) \<Rightarrow> mesh_patch \<Rightarrow> boundary_selector list \<Rightarrow> boundary_selector \<Rightarrow> bool" where
  "selected_by fullmatch patch selectors s \<longleftrightarrow>
     winner fullmatch patch Exact selectors s \<or>
     uncovered fullmatch patch Exact selectors \<and>
       (winner fullmatch patch Group selectors s \<or>
        uncovered fullmatch patch Group selectors \<and> mp_patch_type patch \<noteq> ''empty'' \<and>
          winner fullmatch patch Regex selectors s)"

text \<open>
  A patch is accepted when the entry that is used for it fits, when it is an \<open>empty\<close> patch no name or group
  covers, when the dictionary has an entry only OpenFOAM can expand, or when nothing covers it and one of
  the patterns could not be compiled.
\<close>

definition patch_accepted ::
  "(string \<Rightarrow> string \<Rightarrow> string + bool) \<Rightarrow> mesh_patch \<Rightarrow> boundary_selector list \<Rightarrow> bool" where
  "patch_accepted fullmatch patch selectors \<longleftrightarrow>
     (\<exists>s \<in> set selectors. fk_state (bs_key s) = Indeterminate) \<or>
     (\<exists>s. selected_by fullmatch patch selectors s \<and> fits patch (bs_field_type s)) \<or>
     uncovered fullmatch patch Exact selectors \<and> uncovered fullmatch patch Group selectors \<and>
       (mp_patch_type patch = ''empty'' \<or>
        uncovered fullmatch patch Regex selectors \<and>
          (\<exists>s \<in> set selectors. fk_state (bs_key s) = Pattern \<and> isl (fullmatch (fk_value (bs_key s)) (mp_name patch))))"

text \<open>Of patches of the same name the dictionary of their resolutions keeps the last.\<close>

definition named_patches :: "mesh_patch list \<Rightarrow> mesh_patch set" where
  "named_patches patches = {patch. map_of (rev (map (\<lambda>p. (mp_name p, p)) patches)) (mp_name patch) = Some patch}"

definition field_ok :: "(string \<Rightarrow> string \<Rightarrow> string + bool) \<Rightarrow> workspace \<Rightarrow> mesh_patch list \<Rightarrow> string \<Rightarrow> bool" where
  "field_ok fullmatch w patches p \<longleftrightarrow>
     (\<exists>q. resolve_case_path w p False = Inr q \<and> is_file w q \<and>
        (\<forall>patch \<in> named_patches patches. patch_accepted fullmatch patch (parse_boundary_selectors (case_text w q))) \<and>
        (\<forall>k \<in> {''internalField'', ''dimensions''}.
           map_of (fst (parse_top_level_assignments (case_text w q))) k \<noteq> None \<or>
           \<not> snd (parse_top_level_assignments (case_text w q))))"

text \<open>The directories of a region, its declared inputs, and its mesh.\<close>

definition region_dir :: "string \<Rightarrow> string \<Rightarrow> string" where
  "region_dir base region = base @ (if region = [] then [] else ''/'' @ region)"

definition in_region :: "string \<Rightarrow> string \<Rightarrow> bool" where
  "in_region region p \<longleftrightarrow> length (path_parts p) = 2 \<or>
     path_parent p \<in> {region_dir ''0'' region, region_dir ''system'' region, region_dir ''constant'' region}"

definition mesh_of :: "workspace \<Rightarrow> string \<Rightarrow> mesh_patch list" where
  "mesh_of w region =
     (case resolve_case_path w (region_dir ''constant'' region @ ''/polyMesh/boundary'') False of
        Inr q \<Rightarrow> if is_file w q then parse_mesh_boundary (case_text w q) else []
      | Inl _ \<Rightarrow> [])"

text \<open>The name of a region and of its fields are words, and no field is declared twice.\<close>

definition well_named :: "string list \<Rightarrow> string \<Rightarrow> bool" where
  "well_named required_case_files region \<longleftrightarrow>
     (region = [] \<or> region_name region) \<and>
     (let names = map path_name (filter (\<lambda>p. path_parent p = region_dir ''0'' region) required_case_files)
      in distinct names \<and> (\<forall>name \<in> set names. region_name name))"

definition region_complete ::
  "(string \<Rightarrow> string \<Rightarrow> string + bool) \<Rightarrow> workspace \<Rightarrow> string list \<Rightarrow> string \<Rightarrow> bool" where
  "region_complete fullmatch w required_case_files region \<longleftrightarrow>
     well_named required_case_files region \<and>
     ''system/controlDict'' \<in> set required_case_files \<and>
     (\<exists>p \<in> set required_case_files. path_parent p = region_dir ''0'' region) \<and>
     (\<forall>p \<in> set required_case_files. in_region region p \<longrightarrow> input_ok w p) \<and>
     mesh_of w region \<noteq> [] \<and>
     (\<forall>p \<in> set required_case_files. path_parent p = region_dir ''0'' region \<longrightarrow> field_ok fullmatch w (mesh_of w region) p)"

definition interface_ok :: "workspace \<Rightarrow> string list \<Rightarrow> string list \<Rightarrow> region_interface \<Rightarrow> bool" where
  "interface_ok w required_case_files regions i \<longleftrightarrow>
     ri_region i \<in> set regions \<and> ri_patch i \<in> mp_name ` set (mesh_of w (ri_region i)) \<and>
     ri_neighbour_region i \<in> set regions \<and> ri_neighbour_patch i \<in> mp_name ` set (mesh_of w (ri_neighbour_region i)) \<and>
     (\<forall>field \<in> set (ri_fields i). \<forall>region \<in> {ri_region i, ri_neighbour_region i}.
        ''0/'' @ region @ ''/'' @ field \<in> set required_case_files \<and>
        (\<exists>l \<in> set regions. in_region l (''0/'' @ region @ ''/'' @ field)))"

definition boundary_patches :: "workspace \<Rightarrow> region_case_layout \<Rightarrow> mesh_patch list" where
  "boundary_patches w l = (case read_boundary w l of Inr (_, patches) \<Rightarrow> patches | Inl _ \<Rightarrow> [])"

lemma region_dirs [simp]:
  "layout_field_dir l = region_dir ''0'' (layout_region l)" "layout_system_dir l = region_dir ''system'' (layout_region l)"
  "layout_constant_dir l = region_dir ''constant'' (layout_region l)" "under_region base region = region_dir base region"
  by (simp_all add: layout_field_dir_def layout_system_dir_def layout_constant_dir_def under_region_def region_dir_def)

lemma set_region_inputs [simp]: "set (region_inputs files l) = {p \<in> set files. in_region (layout_region l) p}"
  by (auto simp: region_inputs_def in_region_def)

lemma case_path_Inr [simp]: "case_path w p = Inr q \<longleftrightarrow> resolve_case_path w p False = Inr q"
  by (simp add: case_path_def split: sum.split)

lemma boundary_patches_mesh:
  assumes "read_boundary w l = Inr (fs, patches)"
  shows "boundary_patches w l = patches" "patches = mesh_of w (layout_region l)" "fs = [] \<longleftrightarrow> patches \<noteq> []"
proof -
  show "boundary_patches w l = patches" by (simp add: boundary_patches_def assms)
  show "patches = mesh_of w (layout_region l)" "fs = [] \<longleftrightarrow> patches \<noteq> []"
    using assms by (auto simp: read_boundary_def mesh_of_def layout_mesh_dir_def Let_def split: if_splits)
qed

text \<open>The header.\<close>

lemma header_cases:
  assumes "normalize_case_path p = Inr n"
  obtains (unread) b f where "\<And>cls. validate_foam_file_header p text cls None = Inr (no_header n b f)"
  | (read) vals where "\<And>cls. \<exists>hv. validate_foam_file_header p text cls None = Inr hv \<and> hv_path hv = n \<and>
      hv_header hv = header_of_values vals \<and> hv_failures hv = header_failures n text vals cls (starts_with n ''0/'')"
proof -
  let ?start = "skip_ws (strip_comments text)"
  let ?brace = "dropWhile (\<lambda>c. c \<noteq> CHR ''{'') (drop 8 ?start)"
  consider "\<not> starts_with ?start ''FoamFile''" | "starts_with ?start ''FoamFile''" "?brace = []"
    | "starts_with ?start ''FoamFile''" "?brace \<noteq> []" "matching_delimiter (CHR ''{'') (CHR ''}'') ?brace = None"
    | m where "starts_with ?start ''FoamFile''" "?brace \<noteq> []" "matching_delimiter (CHR ''{'') (CHR ''}'') ?brace = Some m"
    by blast
  then show thesis
  proof cases
    case 4
    then show thesis
      by (intro read [of "header_values None [] (take (m - 1) (tl ?brace))"])
        (simp add: validate_foam_file_header_def assms Let_def get_default_def del: dropWhile_eq_Nil_conv)
  qed (rule unread, simp add: validate_foam_file_header_def assms Let_def del: dropWhile_eq_Nil_conv)+
qed

lemma header_failures_nil:
  "header_failures n text values cls required = [] \<longleftrightarrow>
     (let h = header_of_values values
      in fh_class_name h \<noteq> [] \<and> fh_format h \<in> {''ascii'', ''binary''} \<and>
         fh_object_name h \<noteq> [] \<and> fh_object_name h = path_name n \<and> fh_location h \<in> {[], path_location n} \<and>
         (or_empty cls \<noteq> [] \<longrightarrow> fh_class_name h = or_empty cls) \<and>
         (required \<longrightarrow> is_field_class (fh_class_name h)) \<and>
         (starts_with n ''0/'' \<longrightarrow> (\<forall>c. infer_field_class_from_text text = Some c \<and> c \<noteq> [] \<longrightarrow>
            c = fh_class_name h \<or> field_classes_value_compatible (fh_class_name h) c)))"
  by (cases "infer_field_class_from_text text")
    (auto simp: header_failures_def header_of_values_def Let_def or_empty_def get_default_def)

lemma header_ok_iff:
  assumes "validate_foam_file_header p text (expected_header_class p) None = Inr hv"
  shows "hv_failures hv = [] \<longleftrightarrow> header_ok p text"
proof -
  obtain n where n: "normalize_case_path p = Inr n" using assms by (auto simp: validate_foam_file_header_def)
  from n show ?thesis
  proof (cases rule: header_cases [of p n "text"])
    case (unread b f)
    then show ?thesis using assms by (auto simp: header_ok_def no_header_def present_header_def)
  next
    case (read vals)
    obtain hv0 where "validate_foam_file_header p text None None = Inr hv0" "hv_path hv0 = n"
      "hv_header hv0 = header_of_values vals" using read by blast
    moreover have "hv_failures hv = header_failures n text vals (expected_header_class p) (starts_with n ''0/'')"
      using read [of "expected_header_class p"] assms by auto
    moreover have "or_empty (expected_header_class p) = (if starts_with p ''system/'' then ''dictionary'' else [])"
      by (simp add: expected_header_class_def or_empty_def get_default_def)
    ultimately show ?thesis by (auto simp: header_ok_def header_failures_nil Let_def)
  qed
qed

lemma check_input_iff:
  assumes "check_input w p = Inr x"
  shows "fst x = [] \<longleftrightarrow> input_ok w p"
proof -
  from assms obtain q where q: "resolve_case_path w p False = Inr q" by (auto simp: check_input_def)
  have "fst x = [] \<longleftrightarrow> is_file w q \<and> (should_dictionary_validate p \<longrightarrow> header_ok p (case_text w q))"
    using assms q header_ok_iff
    by (cases "validate_foam_file_header p (case_text w q) (expected_header_class p) None")
      (auto simp: check_input_def case_path_def split: if_splits)
  then show ?thesis using q by (auto simp: input_ok_def should_dictionary_validate_def)
qed

text \<open>The entry of a patch.\<close>

lemma violated_iff:
  "constraint_violated r \<longleftrightarrow> br_status r = Resolved \<and> \<not> fits (br_patch r) (br_field_type r)"
  by (auto simp: constraint_violated_def fits_def constraint_patch_types_def)

lemma winner_unique:
  assumes "sorted_wrt (<) (map bs_order selectors)" "winner fullmatch patch kind selectors s" "winner fullmatch patch kind selectors t"
  shows "s = t"
proof -
  have "distinct (map bs_order selectors)" using assms(1) strict_sorted_iff by blast
  moreover have "bs_order s = bs_order t" "s \<in> set selectors" "t \<in> set selectors"
    using assms(2,3) by (auto simp: winner_def intro: antisym)
  ultimately show ?thesis by (auto simp: distinct_map dest: inj_onD)
qed

lemma winner_covers: "winner fullmatch patch kind selectors s \<Longrightarrow> \<not> uncovered fullmatch patch kind selectors"
  by (auto simp: winner_def uncovered_def)

lemma patch_accepted_iff:
  assumes orders: "sorted_wrt (<) (map bs_order selectors)"
  shows "br_status (resolve fullmatch patch selectors) \<noteq> Missing \<and> \<not> constraint_violated (resolve fullmatch patch selectors) \<longleftrightarrow>
    patch_accepted fullmatch patch selectors"
proof -
  let ?r = "resolve fullmatch patch selectors"
  note sorted = strict_sorted_imp_sorted [OF orders]
  note spec = resolve_spec_sorted [OF sorted, of fullmatch patch, unfolded Let_def]
  note outcome = resolve_outcome [of fullmatch patch selectors]
  have patch: "br_patch ?r = patch" using spec by blast
  have chosen: "patch_accepted fullmatch patch selectors \<longleftrightarrow> fits patch (bs_field_type s)"
    if "\<forall>s \<in> set selectors. fk_state (bs_key s) \<noteq> Indeterminate" "\<And>t. selected_by fullmatch patch selectors t \<longleftrightarrow> t = s"
      "\<not> (uncovered fullmatch patch Exact selectors \<and> uncovered fullmatch patch Group selectors \<and>
          (mp_patch_type patch = ''empty'' \<or> uncovered fullmatch patch Regex selectors))" for s
    using that by (auto simp: patch_accepted_def)
  have picked: "br_status ?r \<noteq> Missing \<and> \<not> constraint_violated ?r \<longleftrightarrow> fits patch (bs_field_type s)"
    if "br_kind ?r \<in> {Exact, Group, Regex}" "br_selector ?r = Some s" for s
    using that outcome patch by (auto simp: violated_iff status_of_kind_def)
  show ?thesis
  proof (cases "\<forall>s \<in> set selectors. fk_state (bs_key s) \<noteq> Indeterminate")
    case False
    then show ?thesis using spec by (auto simp: patch_accepted_def constraint_violated_def)
  next
    case clear: True
    show ?thesis
    proof (cases "br_kind ?r")
      case Exact
      then obtain s where s: "br_selector ?r = Some s" "winner fullmatch patch Exact selectors s"
        using spec clear by auto
      have "selected_by fullmatch patch selectors t \<longleftrightarrow> t = s" for t
        unfolding selected_by_def using s(2) winner_unique [OF orders s(2)] winner_covers [OF s(2)] by blast
      then have "patch_accepted fullmatch patch selectors \<longleftrightarrow> fits patch (bs_field_type s)"
        by (rule chosen [OF clear]) (use winner_covers [OF s(2)] in blast)
      with picked [of s] Exact s(1) show ?thesis by simp
    next
      case Group
      then obtain s where s: "br_selector ?r = Some s" "winner fullmatch patch Group selectors s"
        "uncovered fullmatch patch Exact selectors"
        using spec clear by auto
      have "selected_by fullmatch patch selectors t \<longleftrightarrow> t = s" for t
        unfolding selected_by_def using s(2,3) winner_unique [OF orders s(2)] winner_covers [OF s(2)]
          winner_covers [of fullmatch patch Exact selectors t] by blast
      then have "patch_accepted fullmatch patch selectors \<longleftrightarrow> fits patch (bs_field_type s)"
        by (rule chosen [OF clear]) (use winner_covers [OF s(2)] in blast)
      with picked [of s] Group s(1) show ?thesis by simp
    next
      case Regex
      then obtain s where s: "br_selector ?r = Some s" "winner fullmatch patch Regex selectors s"
        "uncovered fullmatch patch Exact selectors" "uncovered fullmatch patch Group selectors" "mp_patch_type patch \<noteq> ''empty''"
        using spec clear by auto
      have "selected_by fullmatch patch selectors t \<longleftrightarrow> t = s" for t
        unfolding selected_by_def using s(2-5) winner_unique [OF orders s(2)] winner_covers [of fullmatch patch Exact selectors t]
          winner_covers [of fullmatch patch Group selectors t] by blast
      then have "patch_accepted fullmatch patch selectors \<longleftrightarrow> fits patch (bs_field_type s)"
        by (rule chosen [OF clear]) (use winner_covers [OF s(2)] s(5) in blast)
      with picked [of s] Regex s(1) show ?thesis by simp
    next
      case Auto_Empty
      then show ?thesis using spec clear outcome patch
        by (auto simp: patch_accepted_def violated_iff fits_def status_of_kind_def)
    next
      case Indeterminate_Match
      then show ?thesis using spec clear outcome
        by (auto simp: patch_accepted_def constraint_violated_def status_of_kind_def)
    next
      case No_Match
      then have missing: "br_status ?r = Missing" "uncovered fullmatch patch Exact selectors" "uncovered fullmatch patch Group selectors"
        "mp_patch_type patch \<noteq> ''empty''"
        "\<forall>s \<in> set selectors. fk_state (bs_key s) \<noteq> Pattern \<or> fullmatch (fk_value (bs_key s)) (mp_name patch) = Inr False"
        using spec clear by auto
      then have "uncovered fullmatch patch Regex selectors" by (auto simp: uncovered_def covers_def)
      then have "\<not> selected_by fullmatch patch selectors t" for t
        using missing(2,3) winner_covers by (metis selected_by_def)
      then show ?thesis using missing clear unfolding patch_accepted_def by fastforce
    qed
  qed
qed

lemma map_of_resolve_all:
  "map_of (resolve_all fullmatch patches selectors) n =
     map_option (\<lambda>p. resolve fullmatch p selectors) (map_of (rev (map (\<lambda>p. (mp_name p, p)) patches)) n)"
proof -
  have "map_of (foldl (\<lambda>m p. AList.update (mp_name p) (resolve fullmatch p selectors) m) m0 patches) n =
      (case map_of (rev (map (\<lambda>p. (mp_name p, p)) patches)) n of
         Some p \<Rightarrow> Some (resolve fullmatch p selectors) | None \<Rightarrow> map_of m0 n)" for m0
    by (induction patches arbitrary: m0) (auto simp: update_conv' map_add_def split: option.split)
  then show ?thesis by (simp add: resolve_all_def map_option_case split: option.split)
qed

lemma distinct_resolve_all: "distinct (map fst (resolve_all fullmatch patches selectors))"
proof -
  have "distinct (map fst m0) \<Longrightarrow>
      distinct (map fst (foldl (\<lambda>m p. AList.update (mp_name p) (resolve fullmatch p selectors) m) m0 patches))" for m0
    by (induction patches arbitrary: m0) (simp_all add: distinct_update)
  then show ?thesis by (simp add: resolve_all_def)
qed

lemma resolve_all_Ball:
  "(\<forall>(n, r) \<in> set (resolve_all fullmatch patches selectors). P r) \<longleftrightarrow>
     (\<forall>patch \<in> named_patches patches. P (resolve fullmatch patch selectors))"
proof -
  have "(n, r) \<in> set (resolve_all fullmatch patches selectors) \<longleftrightarrow>
      (\<exists>p \<in> named_patches patches. n = mp_name p \<and> r = resolve fullmatch p selectors)" for n r
  proof -
    have "map_of (rev (map (\<lambda>p. (mp_name p, p)) patches)) n = Some p \<longleftrightarrow> n = mp_name p \<and> p \<in> named_patches patches" for p
    proof
      assume found: "map_of (rev (map (\<lambda>p. (mp_name p, p)) patches)) n = Some p"
      then have "n = mp_name p" by (auto dest!: map_of_SomeD)
      with found show "n = mp_name p \<and> p \<in> named_patches patches" by (simp add: named_patches_def)
    qed (simp add: named_patches_def)
    then show ?thesis
      unfolding map_of_eq_Some_iff [OF distinct_resolve_all, symmetric] map_of_resolve_all map_option_eq_Some by blast
  qed
  then have "set (resolve_all fullmatch patches selectors) =
      (\<lambda>p. (mp_name p, resolve fullmatch p selectors)) ` named_patches patches" by auto
  then show ?thesis by simp
qed

lemma constraint_failures_nil:
  "constraint_failures p resolutions = [] \<longleftrightarrow> (\<forall>(n, r) \<in> set resolutions. \<not> constraint_violated r)"
  by (auto simp: constraint_failures_def split: if_splits)

lemma check_field_iff:
  assumes "check_field fullmatch w patches p = Inr x" "input_ok w p"
  shows "fst x = [] \<longleftrightarrow> field_ok fullmatch w patches p"
proof -
  from assms(2) obtain q where q: "resolve_case_path w p False = Inr q" "is_file w q" by (auto simp: input_ok_def)
  obtain entries complete where e: "parse_top_level_assignments (case_text w q) = (entries, complete)" by fastforce
  let ?sel = "parse_boundary_selectors (case_text w q)"
  let ?rs = "resolve_all fullmatch patches ?sel"
  let ?missing = "filter (\<lambda>(n, r). br_status r = Missing) ?rs"
  have sorted: "sort xs = [] \<longleftrightarrow> xs = []" for xs :: "string list" by (metis set_empty set_sort)
  have x: "fst x = (if sort (map fst ?missing) \<noteq> [] then [Patches_Uncovered p (sort (map fst ?missing))] else []) @
      constraint_failures p ?rs @
      (if complete then map (Key_Not_Declared p) (filter (\<lambda>k. map_of entries k = None) field_keys) else [])"
  proof -
    obtain f rest where "x = (f, rest)" by (cases x)
    then show ?thesis using assms(1) q by (simp add: check_field_def case_path_def e Let_def)
  qed
  have "?missing = [] \<and> constraint_failures p ?rs = [] \<longleftrightarrow>
      (\<forall>(n, r) \<in> set ?rs. br_status r \<noteq> Missing \<and> \<not> constraint_violated r)"
    unfolding constraint_failures_nil by (auto simp: filter_empty_conv)
  also have "\<dots> \<longleftrightarrow> (\<forall>patch \<in> named_patches patches. patch_accepted fullmatch patch ?sel)"
    unfolding resolve_all_Ball patch_accepted_iff [OF parse_boundary_selectors_orders] ..
  finally have patches: "?missing = [] \<and> constraint_failures p ?rs = [] \<longleftrightarrow>
      (\<forall>patch \<in> named_patches patches. patch_accepted fullmatch patch ?sel)" .
  have "filter (\<lambda>k. map_of entries k = None) field_keys = [] \<longleftrightarrow>
      (\<forall>k \<in> {''internalField'', ''dimensions''}. map_of entries k \<noteq> None)"
    unfolding field_keys_def filter_empty_conv by simp
  then have "fst x = [] \<longleftrightarrow> (\<forall>patch \<in> named_patches patches. patch_accepted fullmatch patch ?sel) \<and>
      (\<forall>k \<in> {''internalField'', ''dimensions''}. map_of entries k \<noteq> None \<or> \<not> complete)"
    unfolding patches [symmetric] x by (auto simp: sorted)
  then show ?thesis using q unfolding field_ok_def by (simp add: e)
qed

lemma map_result_concat:
  assumes "map_result f xs = Inr ys" "\<And>x y. x \<in> set xs \<Longrightarrow> f x = Inr y \<Longrightarrow> g y = [] \<longleftrightarrow> P x"
  shows "concat (map g ys) = [] \<longleftrightarrow> (\<forall>x \<in> set xs. P x)"
  using assms
proof (induction xs arbitrary: ys)
  case (Cons x xs)
  then obtain y zs where y: "f x = Inr y" "map_result f xs = Inr zs" "ys = y # zs" by auto
  have "g y = [] \<longleftrightarrow> P x" using Cons.prems(2) y(1) by (metis list.set_intros(1))
  moreover have "concat (map g zs) = [] \<longleftrightarrow> (\<forall>x \<in> set xs. P x)"
    by (rule Cons.IH [OF y(2)]) (use Cons.prems(2) in simp)
  ultimately show ?case by (simp add: y(3) del: concat_eq_Nil_conv)
qed simp

text \<open>The layouts of the scopes.\<close>

lemma region_layouts_Inr:
  assumes "region_layouts scopes files = Inr layouts"
  shows "map layout_region layouts = map (\<lambda>sc. get_default [] (scope_name sc)) scopes"
    and "\<forall>sc \<in> set scopes. well_named files (get_default [] (scope_name sc))"
  using assms
  by (induction scopes arbitrary: layouts)
    (auto simp: region_layouts_def make_layout_def required_fields_def well_named_def list_all_iff Let_def split: if_splits)

lemma region_layouts_Inl:
  assumes "region_layouts scopes files = Inl e"
  shows "\<exists>sc \<in> set scopes. \<not> well_named files (get_default [] (scope_name sc))"
  using assms
  by (induction scopes)
    (auto simp: region_layouts_def make_layout_def required_fields_def well_named_def list_all_iff bind_result_eq_Inl Let_def
      split: if_splits)

definition inputs_complete ::
  "(string \<Rightarrow> string \<Rightarrow> string + bool) \<Rightarrow> workspace \<Rightarrow> string list \<Rightarrow> string \<Rightarrow> bool" where
  "inputs_complete fullmatch w files region \<longleftrightarrow>
     ''system/controlDict'' \<in> set files \<and> (\<exists>p \<in> set files. path_parent p = region_dir ''0'' region) \<and>
     (\<forall>p \<in> set files. in_region region p \<longrightarrow> input_ok w p) \<and> mesh_of w region \<noteq> [] \<and>
     (\<forall>p \<in> set files. path_parent p = region_dir ''0'' region \<longrightarrow> field_ok fullmatch w (mesh_of w region) p)"

lemma region_complete_iff:
  "region_complete fullmatch w files region \<longleftrightarrow> well_named files region \<and> inputs_complete fullmatch w files region"
  by (simp add: region_complete_def inputs_complete_def)

lemma control_dict_in_region: "in_region region ''system/controlDict''"
proof -
  have "length (path_parts ''system/controlDict'') = 2" by code_simp
  then show ?thesis by (simp add: in_region_def)
qed

lemma validate_region_iff:
  assumes "validate_region fullmatch w files l = Inr r"
  shows "pr_failures r = [] \<longleftrightarrow> inputs_complete fullmatch w files (layout_region l)"
    and "pr_mesh_patches r = map mp_name (mesh_of w (layout_region l))" "pr_checked_files r = region_inputs files l"
    and "boundary_patches w l = mesh_of w (layout_region l)"
proof -
  let ?required = "region_inputs files l"
  let ?declared = "field_files ?required l"
  from assms obtain inputs boundary checks where inputs: "map_result (check_input w) ?required = Inr inputs"
    and "read_boundary w l = Inr boundary"
      "(if snd boundary = [] then Inr [] else map_result (check_field fullmatch w (snd boundary)) ?declared) = Inr checks"
      "r = region_result ?required ?declared inputs boundary checks"
    unfolding validate_region_def Let_def bind_result_eq_Inr sum.inject by blast
  moreover obtain bf patches where "boundary = (bf, patches)" by (cases boundary)
  ultimately have b: "read_boundary w l = Inr (bf, patches)"
    and checks: "(if patches = [] then Inr [] else map_result (check_field fullmatch w patches) ?declared) = Inr checks"
    and result: "r = region_result ?required ?declared inputs (bf, patches) checks" by (simp_all split: if_splits)
  have r: "pr_failures r = (if ''system/controlDict'' \<notin> set ?required then [Control_Dict_Not_Declared] else []) @
        (if ?declared = [] then [No_Field_Files] else []) @ concat (map fst inputs) @ bf @ concat (map fst checks)"
      "pr_mesh_patches r = map mp_name patches" "pr_checked_files r = ?required"
    by (simp_all add: result region_result_def Let_def)
  note mesh = boundary_patches_mesh [OF b]
  have ins: "concat (map fst inputs) = [] \<longleftrightarrow> (\<forall>p \<in> set ?required. input_ok w p)"
    by (rule map_result_concat [OF inputs check_input_iff])
  have declared: "set ?declared = {p \<in> set files. path_parent p = region_dir ''0'' (layout_region l)}"
    by (auto simp: field_files_def in_region_def)
  have chk: "concat (map fst checks) = [] \<longleftrightarrow> (\<forall>p \<in> set ?declared. field_ok fullmatch w patches p)"
    if "\<forall>p \<in> set ?required. input_ok w p" "patches \<noteq> []"
  proof -
    have "map_result (check_field fullmatch w patches) ?declared = Inr checks" using checks that(2) by simp
    moreover have "set ?declared \<subseteq> set ?required" by (auto simp: field_files_def)
    ultimately show ?thesis by (elim map_result_concat) (use check_field_iff that(1) in blast)
  qed
  have some: "?declared \<noteq> [] \<longleftrightarrow> (\<exists>p \<in> set files. path_parent p = region_dir ''0'' (layout_region l))"
    unfolding set_empty [symmetric] declared by blast
  have "pr_failures r = [] \<longleftrightarrow> ''system/controlDict'' \<in> set ?required \<and> ?declared \<noteq> [] \<and>
      (\<forall>p \<in> set ?required. input_ok w p) \<and> patches \<noteq> [] \<and> (\<forall>p \<in> set ?declared. field_ok fullmatch w patches p)"
    unfolding r(1) append_is_Nil_conv ins mesh(3) using chk by (simp split: if_split) blast
  then show "pr_failures r = [] \<longleftrightarrow> inputs_complete fullmatch w files (layout_region l)"
    unfolding inputs_complete_def some declared mesh(2) set_region_inputs using control_dict_in_region by auto
  show "pr_mesh_patches r = map mp_name (mesh_of w (layout_region l))" "pr_checked_files r = ?required"
    "boundary_patches w l = mesh_of w (layout_region l)"
    using r(2,3) mesh by simp_all
qed

lemma merge_regions:
  "pr_failures (foldl merge_region r entries) = pr_failures r @ concat (map (pr_failures \<circ> snd) entries) \<and>
   set (pr_checked_files (foldl merge_region r entries)) =
     set (pr_checked_files r) \<union> (\<Union>e \<in> set entries. set (pr_checked_files (snd e))) \<and>
   patches_of (foldl merge_region r entries) region =
     get_default (patches_of r region)
       (map_of (rev (map (\<lambda>(l, p). (layout_region l, pr_mesh_patches p)) entries)) region)"
proof (induction entries arbitrary: r)
  case Nil
  show ?case by (simp add: get_default_def)
next
  case (Cons e es)
  obtain l p where e: "e = (l, p)" by fastforce
  have "patches_of (merge_region r e) region = (if layout_region l = region then pr_mesh_patches p else patches_of r region)"
    by (simp add: e merge_region_def Let_def patches_of_def update_conv')
  moreover have "pr_failures (merge_region r e) = pr_failures r @ pr_failures p"
    "set (pr_checked_files (merge_region r e)) = set (pr_checked_files r) \<union> set (pr_checked_files p)"
    by (auto simp: e merge_region_def Let_def)
  ultimately show ?case using Cons.IH [of "merge_region r e"]
    by (auto simp: e get_default_def map_add_def split: option.splits)
qed

lemma merged_validity [simp]: "pr_failures (settle_validity r) = pr_failures r" "pr_valid (settle_validity r) \<longleftrightarrow> pr_failures r = []"
  "pr_checked_files (settle_validity r) = pr_checked_files r" "patches_of (settle_validity r) = patches_of r"
  "pr_warnings (settle_validity r) = pr_warnings r"
  by (simp_all add: settle_validity_def patches_of_def fun_eq_iff)

lemma same_regions: "map_of (map (\<lambda>l. (g l, h (g l))) ls) region = (if region \<in> g ` set ls then Some (h region) else None)"
  by (induction ls) auto

lemma validate_layouts_iff:
  assumes "validate_layouts fullmatch w files layouts = Inr r"
  shows "pr_failures r = [] \<longleftrightarrow> (\<forall>region \<in> layout_region ` set layouts. inputs_complete fullmatch w files region)"
    and "set (pr_checked_files r) = {p \<in> set files. \<exists>region \<in> layout_region ` set layouts. in_region region p}"
    and "set (patches_of r region) = {name. region \<in> layout_region ` set layouts \<and> name \<in> mp_name ` set (mesh_of w region)}"
    and "\<forall>l \<in> set layouts. boundary_patches w l = mesh_of w (layout_region l)"
proof -
  from assms obtain partials where p: "map_result (validate_region fullmatch w files) layouts = Inr partials"
    and r: "r = settle_validity (foldl merge_region empty_result (zip layouts partials))"
    by (auto simp: validate_layouts_def)
  from p have len: "length partials = length layouts" and each: "list_all2 (\<lambda>l q. validate_region fullmatch w files l = Inr q) layouts partials"
    by (auto simp: map_result_Inr_iff dest: list_all2_lengthD)
  note merged = merge_regions [of empty_result "zip layouts partials"]
  have "map (pr_failures \<circ> snd) (zip layouts partials) = map pr_failures partials"
    using len by (simp add: comp_assoc [symmetric] map_map [symmetric] del: map_map)
  then have "pr_failures r = concat (map pr_failures partials)"
    using merged by (simp add: r empty_result_def)
  then show "pr_failures r = [] \<longleftrightarrow> (\<forall>region \<in> layout_region ` set layouts. inputs_complete fullmatch w files region)"
    using map_result_concat [OF p validate_region_iff(1)] by simp
  have "(\<Union>e \<in> set (zip layouts partials). set (pr_checked_files (snd e))) = (\<Union>l \<in> set layouts. set (region_inputs files l))"
    using each validate_region_iff(3)
    by (induction rule: list_all2_induct) (simp_all del: set_region_inputs)
  then show "set (pr_checked_files r) = {p \<in> set files. \<exists>region \<in> layout_region ` set layouts. in_region region p}"
    using merged by (auto simp: r empty_result_def)
  have "map (\<lambda>(l, p). (layout_region l, pr_mesh_patches p)) (zip layouts partials) =
      map (\<lambda>l. (layout_region l, map mp_name (mesh_of w (layout_region l)))) layouts"
    using each validate_region_iff(2)
    by (induction rule: list_all2_induct) simp_all
  then have "patches_of r region =
      get_default [] (map_of (map (\<lambda>l. (layout_region l, map mp_name (mesh_of w (layout_region l)))) (rev layouts)) region)"
    using merged [of region] by (simp add: r empty_result_def patches_of_def get_default_def rev_map)
  then show "set (patches_of r region) = {name. region \<in> layout_region ` set layouts \<and> name \<in> mp_name ` set (mesh_of w region)}"
    unfolding same_regions [of layout_region "\<lambda>region. map mp_name (mesh_of w region)"] by (auto simp: get_default_def)
  show "\<forall>l \<in> set layouts. boundary_patches w l = mesh_of w (layout_region l)"
    using each validate_region_iff(4) by (induction rule: list_all2_induct) auto
qed

lemma check_interface_iff:
  assumes "\<And>region. set (patches_of r region) = {name. region \<in> set regions \<and> name \<in> mp_name ` set (mesh_of w region)}"
    and "set (pr_checked_files r) = {p \<in> set files. \<exists>region \<in> set regions. in_region region p}"
  shows "fst (check_interface r i) = [] \<longleftrightarrow> interface_ok w files regions i"
  unfolding check_interface_def interface_ok_def by (simp add: assms) blast

lemma presolve_valid:
  assumes "validate_presolve fullmatch w plan interfaces = Inr r"
    and "region_layouts (execution_scopes (Of_Plan plan)) (plan_required_case_files plan) = Inr layouts"
  shows "pr_valid r \<longleftrightarrow>
      (\<forall>region \<in> layout_region ` set layouts. inputs_complete fullmatch w (plan_required_case_files plan) region) \<and>
      (\<forall>i \<in> set interfaces. interface_ok w (plan_required_case_files plan) (map layout_region layouts) i)"
    and "\<forall>l \<in> set layouts. boundary_patches w l = mesh_of w (layout_region l)"
proof -
  from assms obtain r0 where r0: "validate_layouts fullmatch w (plan_required_case_files plan) layouts = Inr r0"
    and r: "pr_valid r \<longleftrightarrow> pr_failures r0 @ concat (map (fst \<circ> check_interface r0) interfaces) = []"
    by (auto simp: validate_presolve_def)
  note iff = validate_layouts_iff [OF r0]
  have "fst (check_interface r0 i) = [] \<longleftrightarrow> interface_ok w (plan_required_case_files plan) (map layout_region layouts) i" for i
    by (rule check_interface_iff) (use iff(2,3) in \<open>simp_all add: image_image\<close>)
  then show "pr_valid r \<longleftrightarrow>
      (\<forall>region \<in> layout_region ` set layouts. inputs_complete fullmatch w (plan_required_case_files plan) region) \<and>
      (\<forall>i \<in> set interfaces. interface_ok w (plan_required_case_files plan) (map layout_region layouts) i)"
    using r iff(1) by (simp add: comp_def)
  show "\<forall>l \<in> set layouts. boundary_patches w l = mesh_of w (layout_region l)" by (rule iff(4))
qed


section \<open>Every patch of an accepted case is covered\<close>

definition undecidable ::
  "(string \<Rightarrow> string \<Rightarrow> string + bool) \<Rightarrow> mesh_patch \<Rightarrow> boundary_selector list \<Rightarrow> bool" where
  "undecidable fullmatch patch selectors \<longleftrightarrow>
     (\<exists>s \<in> set selectors. fk_state (bs_key s) = Indeterminate \<or>
        fk_state (bs_key s) = Pattern \<and> isl (fullmatch (fk_value (bs_key s)) (mp_name patch)))"

lemma patch_covered:
  assumes "patch_accepted fullmatch patch selectors"
  shows "(\<exists>s. selected_by fullmatch patch selectors s \<and> fits patch (bs_field_type s)) \<or>
    mp_patch_type patch = ''empty'' \<and> uncovered fullmatch patch Exact selectors \<and> uncovered fullmatch patch Group selectors \<or>
    undecidable fullmatch patch selectors"
  using assms by (auto simp: patch_accepted_def undecidable_def)

lemma named_patches_distinct:
  "distinct (map mp_name patches) \<Longrightarrow> named_patches patches = set patches"
proof -
  assume "distinct (map mp_name patches)"
  then have "distinct (map fst (rev (map (\<lambda>p. (mp_name p, p)) patches)))" by (simp add: rev_map [symmetric] comp_def)
  then show ?thesis by (auto simp: named_patches_def map_of_eq_Some_iff)
qed


section \<open>A concrete case\<close>

definition header_text :: "string \<Rightarrow> string \<Rightarrow> string" where
  "header_text c n = ''FoamFile{format ascii;class '' @ c @ '';object '' @ n @ '';}''"

definition cavity_case :: workspace where
  "cavity_case = new_workspace\<lparr>ws_files :=
     [([''system'', ''controlDict''], header_text ''dictionary'' ''controlDict''),
      ([''0'', ''p''], header_text ''volScalarField'' ''p'' @
         ''dimensions [0];internalField uniform 0;boundaryField{lid{type zeroGradient;}front{type empty;}}''),
      ([''constant'', ''polyMesh'', ''boundary''], ''2(lid{type wall;}front{type empty;})'')]\<rparr>"

definition cavity_plan :: engineering_plan where
  "cavity_plan = \<lparr>plan_solver = ''icoFoam'', plan_solver_provider_id = ''s'', plan_execution = None,
     plan_region_layouts = [], plan_required_case_files = [''system/controlDict'', ''0/p'']\<rparr>"

definition cavity_layout :: region_case_layout where
  "cavity_layout = \<lparr>layout_region = [], layout_solver_module = Some ''icoFoam'', layout_required_fields = [''p'']\<rparr>"

definition no_patterns :: "string \<Rightarrow> string \<Rightarrow> string + bool" where
  "no_patterns p n = Inr False"

lemma cavity_layouts:
  "region_layouts (execution_scopes (Of_Plan cavity_plan)) (plan_required_case_files cavity_plan) = Inr [cavity_layout]"
  by code_simp

lemma cavity_patches: "map mp_name (boundary_patches cavity_case cavity_layout) = [''lid'', ''front'']"
  by code_simp

lemma cavity_accepted:
  "case validate_presolve no_patterns cavity_case cavity_plan [] of Inl _ \<Rightarrow> False | Inr r \<Rightarrow> pr_valid r"
  by code_simp

lemma cavity_result:
  obtains r where "validate_presolve no_patterns cavity_case cavity_plan [] = Inr r" "pr_valid r"
  using cavity_accepted by (cases "validate_presolve no_patterns cavity_case cavity_plan []") auto



end
