(* ===== verification/Design_Seal.thy ===== *)
theory Design_Seal
  imports Execution_Drivers
begin

text \<open>
  Sealing of a design, \<^verbatim>\<open>engineering/design_seal.py\<close>: the agent's design and the confirmed intake become an
  engineering plan, whose validators are those of \<open>EngineeringPlan\<close> (\<^verbatim>\<open>schemas/engineering.py\<close>), and the design
  check that follows it, \<open>validate_design\<close> of \<^verbatim>\<open>contracts/regions.py\<close>.

  The capability catalog is an argument, a function from a provider's id to the provider.  Fields that no
  code here looks into are kept as one text, \<open>rest\<close>, which stands for their JSON.
\<close>

section \<open>Data\<close>

text \<open>A confirmed fact, and a claim how one is implemented: the paths it refers to and everything else.\<close>

record intake_fact =
  if_id :: string
  if_category :: string

record requirement_binding =
  rb_fact_id :: string
  rb_case_files :: "string list"
  rb_assertion_paths :: "string list"
  rb_relation_paths :: "string list option"
  rb_rest :: string

record design_default =
  dd_parameter :: string
  dd_rest :: string

text \<open>\<open>EngineeringDesign\<close>; the result fields are those of the completion contract, if there is one.\<close>

record engineering_design =
  en_solver :: "string option"
  en_solver_provider_id :: "string option"
  en_execution :: "execution_spec option"
  en_result_fields :: "string list option"
  en_required_case_files :: "string list"
  en_bindings :: "requirement_binding list"
  en_defaults :: "design_default list"
  en_rest :: string

text \<open>The part of \<open>EngineeringPlan\<close> the seal decides.\<close>

record sealed_plan =
  dp_solver :: string
  dp_solver_provider_id :: string
  dp_execution :: "execution_spec option"
  dp_result_fields :: "string list option"
  dp_openfoam_version :: string
  dp_required_case_files :: "string list"
  dp_confirmed_fact_ids :: "string list"
  dp_bindings :: "requirement_binding list"
  dp_defaults :: "design_default list"
  dp_plan_conflicts :: "string list"
  dp_confirmed_intake_sha256 :: string
  dp_rest :: string

record capability_provider =
  cp_name :: string
  cp_type :: string
  cp_openfoam_version :: string

record provider_requirement =
  pq_provider_id :: string
  pq_expected_name :: string
  pq_allowed_types :: "string list"
  pq_label :: string

datatype design_error =
    Intake_Unavailable
  | Empty_Manifest
  | No_Result_Fields
  | Unsafe_Result_Field string
  | Result_Without_Initial_Field "string list"
  | Topology_Violates_Contract "driver_failure list"
  | Driver_Refused driver_error
  | Solver_Pair_Missing
  | Unknown_Provider string string
  | Provider_Type_Refused string string string
  | Provider_Name_Differs string string string
  | Versions_Differ "string list"
  | Version_Unsupported string
  | Bindings_Unknown "string list"
  | Plan_Execution_Refused execution_error
  | Plan_Field_Refused
  | Duplicate_Assertions
  | Assertions_Unknown "string list"
  | Unsafe_Required_Path string
  | Undeclared_References string "string list"

section \<open>The validators of a plan\<close>

text \<open>\<open>re.fullmatch(r"(?:0|constant|system)/[A-Za-z0-9_.\/-]+", path)\<close>, without two dots in a row\<close>

definition required_path_char :: "char \<Rightarrow> bool" where
  "required_path_char c \<longleftrightarrow> region_char c \<or> c = CHR ''/''"

definition required_path_ok :: "string \<Rightarrow> bool" where
  "required_path_ok p \<longleftrightarrow>
     list_ex (\<lambda>base. starts_with p base \<and> length base < length p \<and>
       list_all required_path_char (drop (length base) p)) [''0/'', ''constant/'', ''system/''] \<and>
     \<not> sublist ''..'' p"

definition references :: "requirement_binding \<Rightarrow> string list" where
  "references b = rb_case_files b @ rb_assertion_paths b @ get_default [] (rb_relation_paths b)"

definition nonblank :: "string list \<Rightarrow> string list" where
  "nonblank xs = dict_fromkeys (filter (\<lambda>x. strip x \<noteq> []) xs)"

text \<open>
  \<open>normalize_progressive_plan\<close>: an item that repeats an earlier one with the same token is dropped; one that
  differs from it is kept, and recorded as a conflict.
\<close>

fun merge_duplicates ::
  "string \<Rightarrow> ('a \<Rightarrow> string) \<Rightarrow> 'a list \<Rightarrow> (string \<times> 'a) list \<Rightarrow> string list \<Rightarrow> 'a list \<times> string list" where
  "merge_duplicates key ident [] seen conflicts = ([], conflicts)"
| "merge_duplicates key ident (item # items) seen conflicts =
     (let token = ident item
      in case (if token = [] then None else map_of seen token) of
           Some prior \<Rightarrow>
             if prior = item then merge_duplicates key ident items seen conflicts
             else
               let marker = ''conflicting-'' @ key @ '':'' @ token;
                   (out, conflicts) = merge_duplicates key ident items seen
                     (if marker \<in> set conflicts then conflicts else conflicts @ [marker])
               in (item # out, conflicts)
         | None \<Rightarrow>
             let (out, conflicts) = merge_duplicates key ident items
                   (if token = [] then seen else (token, item) # seen) conflicts
             in (item # out, conflicts))"

definition execution_mirror :: "execution_spec option \<Rightarrow> string \<times> string \<Rightarrow> string \<times> string" where
  "execution_mirror execution mirror =
     (case execution of
        None \<Rightarrow> mirror
      | Some ex \<Rightarrow>
          let driver = ex_driver ex; (solver, provider) = mirror
          in if driver = ''foamRun'' then
               (or_default solver (ex_solver_module ex), or_default provider (ex_solver_provider_id ex))
             else if driver = ''foamMultiRun'' then
               (''foamMultiRun'', or_default provider (Some (ex_driver_provider_id ex)))
             else if driver \<noteq> [] then (driver, or_default provider (Some (ex_driver_provider_id ex)))
             else mirror)"

definition normalize_plan :: "sealed_plan \<Rightarrow> sealed_plan" where
  "normalize_plan p =
     (let (bindings, conflicts) = merge_duplicates ''confirmed_fact_bindings'' rb_fact_id (dp_bindings p) []
            (filter (\<lambda>x. strip x \<noteq> []) (dp_plan_conflicts p));
          (defaults, conflicts) = merge_duplicates ''engineering_defaults'' (\<lambda>d. casefold (dd_parameter d))
            (dp_defaults p) [] conflicts;
          (solver, provider) = execution_mirror (dp_execution p) (dp_solver p, dp_solver_provider_id p)
      in p\<lparr>dp_confirmed_fact_ids := nonblank (dp_confirmed_fact_ids p),
           dp_required_case_files := nonblank (dp_required_case_files p),
           dp_bindings := bindings, dp_defaults := defaults, dp_plan_conflicts := take 40 conflicts,
           dp_solver := solver, dp_solver_provider_id := provider\<rparr>)"

definition solver_char :: "char \<Rightarrow> bool" where
  "solver_char c \<longleftrightarrow> region_char c \<or> c = CHR ''+''"

definition lower_hex :: "char \<Rightarrow> bool" where
  "lower_hex c \<longleftrightarrow> is_digit c \<or> c \<in> set ''abcdef''"

text \<open>The constraints of the declared fields.\<close>

definition plan_fields_ok :: "sealed_plan \<Rightarrow> bool" where
  "plan_fields_ok p \<longleftrightarrow>
     (case dp_solver p of [] \<Rightarrow> False | c # cs \<Rightarrow> is_alpha c \<and> list_all solver_char cs) \<and> length (dp_solver p) \<le> 160 \<and>
     1 \<le> length (dp_solver_provider_id p) \<and> length (dp_solver_provider_id p) \<le> 240 \<and>
     dp_openfoam_version p \<in> {''13'', ''14''} \<and>
     length (dp_confirmed_fact_ids p) \<le> 200 \<and> length (dp_bindings p) \<le> 200 \<and> length (dp_defaults p) \<le> 80 \<and>
     length (dp_required_case_files p) \<le> 80 \<and>
     length (dp_confirmed_intake_sha256 p) = 64 \<and> list_all lower_hex (dp_confirmed_intake_sha256 p)"

definition difference :: "string list \<Rightarrow> string list \<Rightarrow> string list" where
  "difference xs ys = sort (dict_fromkeys (filter (\<lambda>x. x \<notin> set ys) xs))"

definition validate_unique_audit_fields :: "sealed_plan \<Rightarrow> design_error + unit" where
  "validate_unique_audit_fields p =
     (let ids = map rb_fact_id (dp_bindings p);
          unknown = difference ids (dp_confirmed_fact_ids p);
          undeclared = \<lambda>b. difference (references b) (dp_required_case_files p)
      in if \<not> distinct ids then Inl Duplicate_Assertions
         else if unknown \<noteq> [] then Inl (Assertions_Unknown unknown)
         else case filter (\<lambda>x. \<not> required_path_ok x) (dp_required_case_files p) of
           path # _ \<Rightarrow> Inl (Unsafe_Required_Path path)
         | [] \<Rightarrow>
             (case filter (\<lambda>b. undeclared b \<noteq> []) (dp_bindings p) of
                b # _ \<Rightarrow> Inl (Undeclared_References (rb_fact_id b) (undeclared b))
              | [] \<Rightarrow> Inr ()))"

text \<open>The execution of the plan is validated again from its own dump.\<close>

definition validate_plan_execution :: "execution_spec option \<Rightarrow> design_error + execution_spec option" where
  "validate_plan_execution execution =
     (case execution of
        None \<Rightarrow> Inr None
      | Some ex \<Rightarrow>
          (case validate_execution_topology (migrate_legacy_topology ex) of
             Inl e \<Rightarrow> Inl (Plan_Execution_Refused e)
           | Inr ex' \<Rightarrow> Inr (Some ex')))"

definition validate_plan :: "sealed_plan \<Rightarrow> design_error + sealed_plan" where
  "validate_plan p =
     (let p = normalize_plan p
      in bind_result (validate_plan_execution (dp_execution p)) (\<lambda>execution.
           let p = p\<lparr>dp_execution := execution\<rparr>
           in if \<not> plan_fields_ok p then Inl Plan_Field_Refused
              else bind_result (validate_unique_audit_fields p) (\<lambda>_. Inr p)))"

section \<open>The seal\<close>

definition solver_types :: "string list" where
  "solver_types = [''solver'', ''solver_module'', ''generated_solver'']"

definition driver_types :: "string list" where
  "driver_types = [''execution_driver'', ''solver_application'']"

definition provider_requirements_of :: "engineering_design \<Rightarrow> design_error + provider_requirement list" where
  "provider_requirements_of d =
     (case en_execution d of
        None \<Rightarrow>
          (case (en_solver d, en_solver_provider_id d) of
             (Some solver, Some provider) \<Rightarrow>
               Inr [\<lparr>pq_provider_id = provider, pq_expected_name = solver, pq_allowed_types = solver_types,
                 pq_label = ''solver''\<rparr>]
           | _ \<Rightarrow> Inl Solver_Pair_Missing)
      | Some ex \<Rightarrow>
          Inr (map (\<lambda>(provider, name, label). \<lparr>pq_provider_id = provider, pq_expected_name = name,
              pq_allowed_types = (if label = ''execution driver'' then driver_types else solver_types),
              pq_label = label\<rparr>) (provider_requirements ex)))"

definition solver_mirror_of :: "engineering_design \<Rightarrow> design_error + string \<times> string" where
  "solver_mirror_of d =
     (case en_execution d of
        None \<Rightarrow>
          (case (en_solver d, en_solver_provider_id d) of
             (Some solver, Some provider) \<Rightarrow> Inr (solver, provider)
           | _ \<Rightarrow> Inl Solver_Pair_Missing)
      | Some ex \<Rightarrow> lift_error Driver_Refused (sealed_solver_mirror ex))"

definition check_provider ::
  "(string \<Rightarrow> capability_provider option) \<Rightarrow> provider_requirement \<Rightarrow> design_error + string" where
  "check_provider catalog q =
     (case catalog (pq_provider_id q) of
        None \<Rightarrow> Inl (Unknown_Provider (pq_label q) (pq_provider_id q))
      | Some provider \<Rightarrow>
          if cp_type provider \<notin> set (pq_allowed_types q)
          then Inl (Provider_Type_Refused (pq_provider_id q) (cp_type provider) (pq_label q))
          else if cp_name provider \<noteq> pq_expected_name q
          then Inl (Provider_Name_Differs (pq_expected_name q) (pq_provider_id q) (cp_name provider))
          else Inr (cp_openfoam_version provider))"

text \<open>A provider id that was seen is not looked at again; the versions are those of the others.\<close>

fun check_providers ::
  "(string \<Rightarrow> capability_provider option) \<Rightarrow> string list \<Rightarrow> provider_requirement list \<Rightarrow> design_error + string list" where
  "check_providers catalog seen [] = Inr []"
| "check_providers catalog seen (q # qs) =
     (if pq_provider_id q \<in> set seen then check_providers catalog seen qs
      else bind_result (check_provider catalog q) (\<lambda>version.
        bind_result (check_providers catalog (pq_provider_id q # seen) qs) (\<lambda>versions.
          Inr (version # versions))))"

definition result_field :: "string \<Rightarrow> string" where
  "result_field raw = (let s = strip raw in if starts_with s ''0/'' then drop 2 s else s)"

definition check_result_fields :: "string list \<Rightarrow> string list \<Rightarrow> design_error + unit" where
  "check_result_fields required raws =
     (case filter (\<lambda>raw. let f = result_field raw
           in f = [] \<or> starts_with f ''/'' \<or> ''..'' \<in> set (split_on (CHR ''/'') f)) raws of
        raw # _ \<Rightarrow> Inl (Unsafe_Result_Field raw)
      | [] \<Rightarrow>
          (let missing = filter (\<lambda>p. p \<notin> set required) (map (\<lambda>raw. ''0/'' @ result_field raw) raws)
           in if missing \<noteq> [] then Inl (Result_Without_Initial_Field (sort missing)) else Inr ()))"

definition check_topology :: "execution_spec option \<Rightarrow> design_error + unit" where
  "check_topology execution =
     (case execution of
        None \<Rightarrow> Inr ()
      | Some ex \<Rightarrow> bind_result (lift_error Driver_Refused (validate_execution_contract ex)) (\<lambda>failures.
          if failures \<noteq> [] then Inl (Topology_Violates_Contract failures) else Inr ()))"

definition one_version :: "string list \<Rightarrow> design_error + string" where
  "one_version versions =
     (case dict_fromkeys versions of
        [v] \<Rightarrow> if v \<notin> {''13'', ''14''} then Inl (Version_Unsupported v) else Inr v
      | vs \<Rightarrow> Inl (Versions_Differ (sort vs)))"

definition active_fact_ids :: "intake_fact list \<Rightarrow> string list" where
  "active_fact_ids facts = map if_id (filter (\<lambda>f. if_category f \<noteq> ''context'') facts)"

definition materialize_engineering_plan ::
  "(string \<Rightarrow> capability_provider option) \<Rightarrow> intake_fact list option \<Rightarrow> string option \<Rightarrow> engineering_design \<Rightarrow>
     design_error + sealed_plan" where
  "materialize_engineering_plan catalog intake digest d =
     (case (intake, digest) of
        (Some facts, Some sha) \<Rightarrow>
          if sha = [] then Inl Intake_Unavailable
          else if en_required_case_files d = [] then Inl Empty_Manifest
          else if get_default [] (en_result_fields d) = [] then Inl No_Result_Fields
          else
            bind_result (check_result_fields (en_required_case_files d) (the (en_result_fields d))) (\<lambda>_.
            bind_result (check_topology (en_execution d)) (\<lambda>_.
            bind_result (provider_requirements_of d) (\<lambda>requirements.
            bind_result (check_providers catalog [] requirements) (\<lambda>versions.
            bind_result (one_version versions) (\<lambda>version.
            bind_result (solver_mirror_of d) (\<lambda>(solver, provider).
              let fact_ids = active_fact_ids facts;
                  unknown = difference (map rb_fact_id (en_bindings d)) fact_ids
              in if unknown \<noteq> [] then Inl (Bindings_Unknown unknown)
                 else validate_plan
                   \<lparr>dp_solver = solver, dp_solver_provider_id = provider, dp_execution = en_execution d,
                    dp_result_fields = en_result_fields d, dp_openfoam_version = version,
                    dp_required_case_files = en_required_case_files d, dp_confirmed_fact_ids = fact_ids,
                    dp_bindings = en_bindings d, dp_defaults = en_defaults d, dp_plan_conflicts = [],
                    dp_confirmed_intake_sha256 = sha, dp_rest = en_rest d\<rparr>))))))
      | _ \<Rightarrow> Inl Intake_Unavailable)"

section \<open>The design check\<close>

datatype design_failure =
    Facts_Not_Preserved
  | Bindings_For_Unknown_Facts
  | Undeclared_Files string "string list"

definition validate_design :: "sealed_plan \<Rightarrow> intake_fact list \<Rightarrow> design_failure list" where
  "validate_design p facts =
     (let ids = set (active_fact_ids facts)
      in (if set (dp_confirmed_fact_ids p) \<noteq> ids then [Facts_Not_Preserved] else []) @
         (if \<not> set (map rb_fact_id (dp_bindings p)) \<subseteq> ids then [Bindings_For_Unknown_Facts] else []) @
         concat (map (\<lambda>b. let undeclared = difference (references b) (dp_required_case_files p)
             in if undeclared \<noteq> [] then [Undeclared_Files (rb_fact_id b) undeclared] else []) (dp_bindings p)))"

section \<open>What a sealed design guarantees\<close>

lemma nonblank_zero: "strip (''0/'' @ s) \<noteq> []"
proof -
  have "dropWhile is_space (rev s @ ''/0'') \<noteq> []"
    by (simp add: dropWhile_eq_Nil_conv is_space_def)
  then show ?thesis by (simp add: strip_def is_space_def)
qed

lemma set_nonblank: "set (nonblank xs) = {x \<in> set xs. strip x \<noteq> []}"
  by (simp add: nonblank_def set_dict_fromkeys)

lemma difference_nil: "difference xs ys = [] \<longleftrightarrow> set xs \<subseteq> set ys"
proof -
  have "set (difference xs ys) = set xs - set ys"
    by (auto simp: difference_def set_dict_fromkeys)
  then show ?thesis by (metis Diff_eq_empty_iff set_empty)
qed

lemma merge_duplicates_subset:
  "merge_duplicates key ident items seen conflicts = (out, c) \<Longrightarrow> set out \<subseteq> set items"
  by (induction key ident items seen conflicts arbitrary: out c rule: merge_duplicates.induct)
    (fastforce simp: Let_def split: option.splits if_splits prod.splits)+

lemma valid_execution_again:
  assumes "validate_execution_topology ex0 = Inr ex" and scopes: "ex_scopes ex \<noteq> []"
  shows "validate_execution_topology (migrate_legacy_topology ex) = Inr ex"
proof -
  from assms(1) have ex: "ex = mirror_legacy_fields ex0" and keys: "distinct (map scope_key (ex_scopes ex0))"
    and args: "filter bad_argument (ex_arguments ex0) = []"
    by (auto simp: validate_execution_topology_def split: if_splits list.splits)
  have same: "ex_scopes ex = ex_scopes ex0" "ex_arguments ex = ex_arguments ex0"
    by (simp_all add: ex mirror_legacy_fields_def Let_def)
  have again: "mirror_legacy_fields ex = ex"
    by (simp add: ex mirror_legacy_fields_def Let_def)
  have "migrate_legacy_topology ex = ex" using scopes by (simp add: migrate_legacy_topology_def)
  then show ?thesis using keys args again same by (simp add: validate_execution_topology_def)
qed

text \<open>The mirror of an accepted execution is what the plan's own normalization would put there.\<close>

lemma mirror_agrees:
  assumes "validate_execution_topology ex0 = Inr ex" "validate_execution_contract ex = Inr []"
    and "\<forall>sc \<in> set (ex_scopes ex). valid_scope sc"
    and "sealed_solver_mirror ex = Inr m" "ex_driver ex \<noteq> []"
  shows "execution_mirror (Some ex) m = m"
  using assms(1-3)
proof (cases rule: valid_execution_cases)
  case (modular sc m' p)
  then show ?thesis using assms(1,4)
    by (auto simp: execution_mirror_def sealed_solver_mirror_def foam_run_contract_def complete_solver_def present_def
        or_default_def validate_execution_topology_def mirror_legacy_fields_def root_only_def Let_def
        split: if_splits list.splits option.splits)
next
  case regions
  then show ?thesis using assms(4)
    by (auto simp: execution_mirror_def sealed_solver_mirror_def foam_multi_run_contract_def or_default_def present_def)
next
  case direct
  then show ?thesis using assms(4,5)
    by (auto simp: execution_mirror_def sealed_solver_mirror_def direct_contract_def or_default_def present_def)
qed

lemma check_providers_sound:
  "check_providers catalog seen qs = Inr vs \<Longrightarrow> q \<in> set qs \<Longrightarrow> pq_provider_id q \<notin> set seen \<Longrightarrow>
   \<exists>q' \<in> set qs. \<exists>cp. pq_provider_id q' = pq_provider_id q \<and> catalog (pq_provider_id q) = Some cp \<and>
     cp_type cp \<in> set (pq_allowed_types q') \<and> cp_name cp = pq_expected_name q' \<and> cp_openfoam_version cp \<in> set vs"
proof (induction catalog seen qs arbitrary: vs rule: check_providers.induct)
  case (2 catalog seen q0 qs)
  show ?case
  proof (cases "pq_provider_id q0 \<in> set seen")
    case True
    with 2 show ?thesis by auto
  next
    case False
    with 2(3) obtain v vs' where v: "check_provider catalog q0 = Inr v"
        and vs: "check_providers catalog (pq_provider_id q0 # seen) qs = Inr vs'" "vs = v # vs'"
      by (auto split: if_splits)
    show ?thesis
    proof (cases "pq_provider_id q = pq_provider_id q0")
      case True
      with v vs(2) show ?thesis by (auto simp: check_provider_def split: option.splits if_splits)
    next
      case other: False
      with 2(4,5) have "q \<in> set qs" "pq_provider_id q \<notin> set (pq_provider_id q0 # seen)" by auto
      from 2(2) [OF False v vs(1) this] vs(2) show ?thesis by auto
    qed
  qed
qed simp

lemma one_version_eq:
  assumes "one_version vs = Inr v"
  shows "set vs = {v}" "v \<in> {''13'', ''14''}"
proof -
  have one: "dict_fromkeys vs = [v]" and supported: "v \<in> {''13'', ''14''}"
    using assms by (auto simp: one_version_def split: list.splits if_splits)
  show "set vs = {v}" using set_dict_fromkeys [of vs] by (simp only: one) simp
  show "v \<in> {''13'', ''14''}" by (rule supported)
qed

lemma validate_plan_eq:
  assumes "validate_plan p0 = Inr p"
  obtains execution where "validate_plan_execution (dp_execution p0) = Inr execution"
    "p = (normalize_plan p0)\<lparr>dp_execution := execution\<rparr>" "validate_unique_audit_fields p = Inr ()"
    "plan_fields_ok p"
  using assms by (auto simp: validate_plan_def Let_def normalize_plan_def split: prod.splits if_splits)

lemma normalize_plan_fields:
  "dp_execution (normalize_plan p) = dp_execution p" "dp_openfoam_version (normalize_plan p) = dp_openfoam_version p"
  "dp_confirmed_intake_sha256 (normalize_plan p) = dp_confirmed_intake_sha256 p"
  "dp_result_fields (normalize_plan p) = dp_result_fields p"
  "dp_required_case_files (normalize_plan p) = nonblank (dp_required_case_files p)"
  "dp_confirmed_fact_ids (normalize_plan p) = nonblank (dp_confirmed_fact_ids p)"
  "(dp_solver (normalize_plan p), dp_solver_provider_id (normalize_plan p)) =
     execution_mirror (dp_execution p) (dp_solver p, dp_solver_provider_id p)"
  "set (dp_bindings (normalize_plan p)) \<subseteq> set (dp_bindings p)"
  by (auto simp: normalize_plan_def Let_def dest!: merge_duplicates_subset split: prod.splits)

lemma validate_unique_audit_fields_ok:
  assumes "validate_unique_audit_fields p = Inr ()"
  shows "distinct (map rb_fact_id (dp_bindings p))" "rb_fact_id ` set (dp_bindings p) \<subseteq> set (dp_confirmed_fact_ids p)"
    "\<forall>x \<in> set (dp_required_case_files p). required_path_ok x"
    "\<forall>b \<in> set (dp_bindings p). set (references b) \<subseteq> set (dp_required_case_files p)"
  using assms
  by (auto simp: validate_unique_audit_fields_def Let_def filter_empty_conv difference_nil
      split: if_splits list.splits)

lemma validate_design_ok:
  assumes "set (dp_confirmed_fact_ids p) = set (active_fact_ids facts)" "validate_unique_audit_fields p = Inr ()"
  shows "validate_design p facts = []"
  using validate_unique_audit_fields_ok [OF assms(2)] assms(1)
  by (auto simp: validate_design_def Let_def difference_nil)

text \<open>What the seal had to accept before it built the plan.\<close>

lemma materialize_steps:
  assumes "materialize_engineering_plan catalog (Some facts) (Some sha) d = Inr p"
  obtains qs vs version solver provider where
    "check_result_fields (en_required_case_files d) (get_default [] (en_result_fields d)) = Inr ()"
    "check_topology (en_execution d) = Inr ()" "provider_requirements_of d = Inr qs"
    "check_providers catalog [] qs = Inr vs" "one_version vs = Inr version"
    "solver_mirror_of d = Inr (solver, provider)"
    "validate_plan
       \<lparr>dp_solver = solver, dp_solver_provider_id = provider, dp_execution = en_execution d,
        dp_result_fields = en_result_fields d, dp_openfoam_version = version,
        dp_required_case_files = en_required_case_files d, dp_confirmed_fact_ids = active_fact_ids facts,
        dp_bindings = en_bindings d, dp_defaults = en_defaults d, dp_plan_conflicts = [],
        dp_confirmed_intake_sha256 = sha, dp_rest = en_rest d\<rparr> = Inr p"
  using assms
  by (auto simp: materialize_engineering_plan_def Let_def get_default_def split: if_splits prod.splits option.splits)

lemma check_result_fields_ok:
  "check_result_fields required raws = Inr () \<Longrightarrow> raw \<in> set raws \<Longrightarrow> ''0/'' @ result_field raw \<in> set required"
  by (auto simp: check_result_fields_def Let_def filter_empty_conv split: list.splits if_splits)

text \<open>What a design's execution is once the schema has accepted it.\<close>

definition schema_accepted :: "execution_spec option \<Rightarrow> bool" where
  "schema_accepted execution \<longleftrightarrow>
     (case execution of
        None \<Rightarrow> True
      | Some ex \<Rightarrow> validate_execution_topology ex = Inr ex \<and> ex_scopes ex \<noteq> [] \<and> ex_driver ex \<noteq> [] \<and>
          list_all valid_scope (ex_scopes ex))"

lemma schema_output_accepted:
  assumes "validate_execution_topology ex0 = Inr ex" "ex_scopes ex \<noteq> []" "ex_driver ex \<noteq> []"
    and "list_all valid_scope (ex_scopes ex)"
  shows "schema_accepted (Some ex)"
  using assms valid_execution_again [OF assms(1,2)] by (simp add: schema_accepted_def migrate_legacy_topology_def)

lemma accepted_execution:
  assumes "schema_accepted execution" "check_topology execution = Inr ()"
  shows "validate_plan_execution execution = Inr execution"
    "execution = Some ex \<Longrightarrow> sealed_solver_mirror ex = Inr m \<Longrightarrow> execution_mirror execution m = m"
  using assms valid_execution_again mirror_agrees
  by (auto simp: schema_accepted_def validate_plan_execution_def check_topology_def list_all_iff
      split: option.splits if_splits)
text \<open>
  C39: a sealed design carries exactly what was confirmed and chosen: the ids of the active
  facts and the digest of the intake, the execution unchanged, the solver and provider its driver's contract
  mirrors, an initial file for every result field, only safe paths, and one supported version, that of every provider it names.
  The design check that follows finds nothing.
\<close>

theorem sealed_design_spec:
  assumes sealed: "materialize_engineering_plan catalog (Some facts) (Some sha) d = Inr p"
    and named: "\<forall>f \<in> set facts. strip (if_id f) \<noteq> []" and accepted: "schema_accepted (en_execution d)"
  shows "validate_design p facts = [] \<and> set (dp_confirmed_fact_ids p) = set (active_fact_ids facts) \<and>
    dp_confirmed_intake_sha256 p = sha \<and> dp_execution p = en_execution d \<and>
    solver_mirror_of d = Inr (dp_solver p, dp_solver_provider_id p) \<and>
    (\<forall>raw \<in> set (get_default [] (en_result_fields d)). ''0/'' @ result_field raw \<in> set (dp_required_case_files p)) \<and>
    list_all required_path_ok (dp_required_case_files p) \<and> dp_openfoam_version p \<in> {''13'', ''14''} \<and>
    (\<exists>qs. provider_requirements_of d = Inr qs \<and> (\<forall>q \<in> set qs. \<exists>q' \<in> set qs. \<exists>cp.
       pq_provider_id q' = pq_provider_id q \<and> catalog (pq_provider_id q) = Some cp \<and>
       cp_type cp \<in> set (pq_allowed_types q') \<and> cp_name cp = pq_expected_name q' \<and>
       cp_openfoam_version cp = dp_openfoam_version p))"
  using sealed
proof (rule materialize_steps)
  fix qs vs version solver provider
  assume fields: "check_result_fields (en_required_case_files d) (get_default [] (en_result_fields d)) = Inr ()"
    and topology: "check_topology (en_execution d) = Inr ()" and qs: "provider_requirements_of d = Inr qs"
    and vs: "check_providers catalog [] qs = Inr vs" and version: "one_version vs = Inr version"
    and mirror: "solver_mirror_of d = Inr (solver, provider)"
    and plan: "validate_plan
       \<lparr>dp_solver = solver, dp_solver_provider_id = provider, dp_execution = en_execution d,
        dp_result_fields = en_result_fields d, dp_openfoam_version = version,
        dp_required_case_files = en_required_case_files d, dp_confirmed_fact_ids = active_fact_ids facts,
        dp_bindings = en_bindings d, dp_defaults = en_defaults d, dp_plan_conflicts = [],
        dp_confirmed_intake_sha256 = sha, dp_rest = en_rest d\<rparr> = Inr p" (is "validate_plan ?p = _")
  from plan obtain execution where execution: "validate_plan_execution (en_execution d) = Inr execution"
    and p: "p = (normalize_plan ?p)\<lparr>dp_execution := execution\<rparr>" and audit: "validate_unique_audit_fields p = Inr ()"
    by (rule validate_plan_eq) simp
  have same: "execution = en_execution d"
    using execution accepted_execution(1) [OF accepted topology] by simp
  have "execution_mirror (en_execution d) (solver, provider) = (solver, provider)"
  proof (cases "en_execution d")
    case (Some ex)
    with mirror show ?thesis using accepted_execution(2) [OF accepted topology Some]
      by (simp add: solver_mirror_of_def)
  qed (simp add: execution_mirror_def)
  then have solver: "(dp_solver p, dp_solver_provider_id p) = (solver, provider)"
    using normalize_plan_fields(7) [of ?p] by (simp add: p)
  have ids: "set (dp_confirmed_fact_ids p) = set (active_fact_ids facts)"
    using named by (auto simp: p normalize_plan_fields set_nonblank active_fact_ids_def)
  have initial: "''0/'' @ result_field raw \<in> set (dp_required_case_files p)"
    if "raw \<in> set (get_default [] (en_result_fields d))" for raw
    using check_result_fields_ok [OF fields that] nonblank_zero [of "result_field raw"]
    by (simp add: p normalize_plan_fields set_nonblank)
  show ?thesis
    using validate_design_ok [OF ids audit] ids initial same solver mirror qs one_version_eq [OF version]
      check_providers_sound [OF vs] validate_unique_audit_fields_ok(3) [OF audit]
    by (simp add: p normalize_plan_fields list_all_iff)
qed

section \<open>Concrete designs\<close>

definition catalog_of :: "(string \<times> capability_provider) list \<Rightarrow> string \<Rightarrow> capability_provider option" where
  "catalog_of entries = map_of entries"

definition small_catalog :: "string \<Rightarrow> capability_provider option" where
  "small_catalog = catalog_of
     [(''execution.foamRun'', \<lparr>cp_name = ''foamRun'', cp_type = ''execution_driver'', cp_openfoam_version = ''13''\<rparr>),
      (''execution.foamMultiRun'', \<lparr>cp_name = ''foamMultiRun'', cp_type = ''execution_driver'', cp_openfoam_version = ''13''\<rparr>),
      (''solver.fluid'', \<lparr>cp_name = ''fluid'', cp_type = ''solver_module'', cp_openfoam_version = ''13''\<rparr>)]"

definition small_facts :: "intake_fact list" where
  "small_facts = [\<lparr>if_id = ''velocity'', if_category = ''physics''\<rparr>, \<lparr>if_id = ''note'', if_category = ''context''\<rparr>]"

definition small_sha :: string where
  "small_sha = replicate 64 CHR ''a''"

definition small_design :: engineering_design where
  "small_design = \<lparr>en_solver = None, en_solver_provider_id = None, en_execution = Some modular_execution,
     en_result_fields = Some [''0/U''], en_required_case_files = [''0/U'', ''system/controlDict''],
     en_bindings = [\<lparr>rb_fact_id = ''velocity'', rb_case_files = [''0/U''], rb_assertion_paths = [],
       rb_relation_paths = None, rb_rest = []\<rparr>],
     en_defaults = [], en_rest = []\<rparr>"

lemma small_design_seals:
  "\<exists>p. materialize_engineering_plan small_catalog (Some small_facts) (Some small_sha) small_design = Inr p"
proof -
  have "case materialize_engineering_plan small_catalog (Some small_facts) (Some small_sha) small_design of
      Inr p \<Rightarrow> True | Inl _ \<Rightarrow> False" by code_simp
  then show ?thesis by (auto split: sum.splits)
qed

lemma sealed_design_spec_witness:
  "\<exists>p. materialize_engineering_plan small_catalog (Some small_facts) (Some small_sha) small_design = Inr p \<and>
     validate_design p small_facts = [] \<and> dp_openfoam_version p \<in> {''13'', ''14''} \<and>
     set (dp_confirmed_fact_ids p) = {''velocity''}"
proof -
  obtain p where p: "materialize_engineering_plan small_catalog (Some small_facts) (Some small_sha) small_design = Inr p"
    using small_design_seals by blast
  have "\<forall>f \<in> set small_facts. strip (if_id f) \<noteq> []" "schema_accepted (en_execution small_design)" by code_simp+
  from sealed_design_spec [OF p this] p show ?thesis
    by (auto simp: active_fact_ids_def small_facts_def)
qed

text \<open>Two regions name one provider for different solver modules.\<close>

definition two_modules_design :: engineering_design where
  "two_modules_design = small_design\<lparr>en_execution := Some
     \<lparr>ex_driver = ''foamMultiRun'', ex_driver_provider_id = ''execution.foamMultiRun'',
      ex_scopes = [\<lparr>scope_name = Some ''air'', scope_solver_module = Some ''fluid'',
          scope_solver_provider_id = Some ''solver.fluid''\<rparr>,
        \<lparr>scope_name = Some ''pipe'', scope_solver_module = Some ''solid'',
          scope_solver_provider_id = Some ''solver.fluid''\<rparr>],
      ex_solver_module = None, ex_solver_provider_id = None,
      ex_regions = [\<lparr>rsa_region = ''air'', rsa_solver_module = ''fluid'', rsa_provider_id = ''solver.fluid''\<rparr>,
        \<lparr>rsa_region = ''pipe'', rsa_solver_module = ''solid'', rsa_provider_id = ''solver.fluid''\<rparr>],
      ex_arguments = []\<rparr>\<rparr>"

text \<open>
  The name of a provider is compared with the solver it is named for only at the provider's first
  use.  A second region may name the provider of \<^verbatim>\<open>fluid\<close> for the module \<^verbatim>\<open>solid\<close>, and the design is sealed,
  while a single region that does the same is refused.
\<close>

lemma second_use_unchecked:
  "(case materialize_engineering_plan small_catalog (Some small_facts) (Some small_sha) two_modules_design of
      Inr p \<Rightarrow> validate_design p small_facts = [] | Inl _ \<Rightarrow> False) \<and>
   check_provider small_catalog \<lparr>pq_provider_id = ''solver.fluid'', pq_expected_name = ''solid'',
     pq_allowed_types = solver_types, pq_label = ''scope solver pipe''\<rparr> =
     Inl (Provider_Name_Differs ''solid'' ''solver.fluid'' ''fluid'')"
  by code_simp

end
