(* ===== verification/Spec2Isabelle.thy ===== *)
theory Spec2Isabelle
  imports Dependency_Order Workspace_Safety Case_Seals Boundary_Resolution Foam_Serializer
    Case_Delta Execution_Drivers Checkpoint Presolve Design_Seal
begin

text \<open>
  The OpenFOAM agent lets a language model propose a simulation case: case files, native commands
  that build a mesh, execution scopes, a solver run.  Everything the model proposes is checked, compiled,
  written, executed and sealed by deterministic Python under \<^verbatim>\<open>src/src/openfoam_agent\<close>.  This
  development models that Python; the paths below are relative to that directory.

  \<^bold>\<open>How the program works\<close>

  A run is a state machine (\<open>CFDWorkflow\<close> over \<open>CFDState\<close>).  The engineering agent asks the
  model for a candidate.  Its dictionaries are checked or rendered and given a \<open>FoamFile\<close> header; its
  commands are looked up in a registry of effects, completed with inferred mesh commands and ordered by
  what they read and write; the result is a build graph.  Accepted files are written through the
  sandboxed workspace in one transaction, native commands run through \<open>SafeRunner\<close>, and each mesh
  writer is recorded in a dependency graph so that later edits know which checks they outdate.  A
  finished case is sealed by the digests of its inputs.  The user approves the sealed case; from then on the
  solver runs only while plan, files and approval agree, and an automatic repair may change numerical
  controls only.  Results and human feedback end in a review.

  \<^bold>\<open>Theories\<close>, in the order they build on each other

  \<^item> \<open>Prelude\<close>, \<open>Py_Text\<close>: results that may raise (\<open>'e + 'a\<close>), insertion-ordered
    de-duplication, string methods, \<open>PurePosixPath\<close>.
  \<^item> \<open>Native_Contracts\<close> (\<^verbatim>\<open>tools/native_contracts.py\<close>): the registry of native commands, its
    loading over the shipped data file, lookup, phase permissions, \<open>-region\<close> and \<open>-dict\<close> selectors.
  \<^item> \<open>Execution_Scopes\<close>, \<open>Mesh_Consumers\<close> (\<^verbatim>\<open>contracts/execution_scopes.py\<close>,
    \<^verbatim>\<open>engineering/native_scope.py\<close>): root and region scopes, their paths and arguments, inferred
    mesh commands, the closure of consumers of an edit, mesh evidence.
  \<^item> \<open>Dependency_Order\<close>, \<open>Case_Build\<close>, \<open>Case_Delta\<close>
    (\<^verbatim>\<open>engineering/case_build_graph.py\<close>, \<^verbatim>\<open>engineering/case_delta_graph.py\<close>,
    \<^verbatim>\<open>engineering/revalidation.py\<close>): ordering tokens, the stable topological order, and the
    compilers of the build graph and of the delta graph.
  \<^item> \<open>Mesh_Dependencies\<close> (\<^verbatim>\<open>contracts/mesh_dependencies.py\<close>): the persisted graph of mesh
    operations, transitive producers and literal includes.
  \<^item> \<open>Dictionary_Policy\<close> (\<^verbatim>\<open>tools/dictionary_policy.py\<close>), \<open>Foam_Parser\<close>,
    \<open>Boundary_Resolution\<close> (\<^verbatim>\<open>verification/foam_semantics\<close>), \<open>Foam_File\<close>
    (\<^verbatim>\<open>tools/foam_file.py\<close>), \<open>Block_Topology\<close> (\<^verbatim>\<open>tools/block_mesh_topology.py\<close>),
    \<open>Foam_Serializer\<close> (\<^verbatim>\<open>tools/foam_serializer.py\<close>): reading and writing dictionaries.
  \<^item> \<open>Workspace\<close>, \<open>Workspace_Safety\<close>, \<open>Case_Seals\<close> (\<^verbatim>\<open>tools/workspace.py\<close>): the
    case directory as a store from paths to bytes, its operations, transactions, seals and ownership.
  \<^item> \<open>Repair_Approval\<close> (\<^verbatim>\<open>contracts/execution.py\<close>, \<open>ResourceLimits\<close> of
    \<^verbatim>\<open>contracts/models.py\<close>): the approval and what a repair may change under it.
  \<^item> \<open>Native_Execution\<close> (\<^verbatim>\<open>tools/execution_policy.py\<close>, \<^verbatim>\<open>tools/safe_runner.py\<close>): effects
    of command lines, the ledger of processes, execution contexts, the gate before a process starts.
  \<^item> \<open>Workflow\<close> (\<^verbatim>\<open>workflow/states.py\<close>, \<^verbatim>\<open>workflow/state.py\<close>,
    \<^verbatim>\<open>workflow/engine.py\<close>, \<^verbatim>\<open>runtime/orchestrator.py\<close>, \<^verbatim>\<open>review/agent.py\<close>): the states of
    a run, the user's decisions, the driver, the bounded attempt loop, the review of feedback.
  \<^item> \<open>Execution_Drivers\<close> (\<^verbatim>\<open>tools/execution_contracts.py\<close> and its data file): the contracts of
    execution drivers, and the views of an execution they give: the command, its stage, \<^verbatim>\<open>controlDict\<close>,
    the providers a plan has to name.
  \<^item> \<open>Checkpoint\<close> (\<^verbatim>\<open>workflow/checkpoint.py\<close>): saving a run, the decision whether it may be resumed,
    the reconciliation of recorded processes, and the marker of a decision that was interrupted.
  \<^item> \<open>Presolve\<close> (\<^verbatim>\<open>verification/presolve.py\<close>): required inputs, headers, mesh patches and
    the coverage of every patch by every field, over all regions.
  \<^item> \<open>Design_Seal\<close> (\<^verbatim>\<open>engineering/design_seal.py\<close>, \<open>EngineeringPlan\<close> of
    \<^verbatim>\<open>schemas/engineering.py\<close>): a design becomes a plan bound to the confirmed intake and to providers
    of the capability catalog.

  Each theory has the definitions in the order of its source file, then the lemmas.  A Python object is a
  record, a tagged union a datatype, a dictionary an association list in insertion order, a text a list of
  characters of code points below 256, a raise the left side of a sum.  A method that mutates returns the
  new state beside its result, also when it raises.

  \<^bold>\<open>What the lemmas show\<close>

  \<^item> Safety: transactions are atomic under every fault at every step; nothing is written outside the
    four roots of a case; a verified seal means unchanged inputs; the solver is started only with the approved
    command, files and limits, and only in a state in which approval, plan and seal agree.
  \<^item> Functional correctness: the command order is the stable topological order or a reported cycle;
    the build and delta graphs contain exactly the inferred, deferred and given commands; the boundary of a
    patch is the entry the OpenFOAM precedence selects; a rendered block mesh is one whose topology is valid.
  \<^item> Invariants: the mesh dependency graph stays acyclic and closed, the process ledger stays numbered
    and within its limit across restarts, repairs keep the approved case.
  \<^item> Round trips: scope arguments, headers, seals adopted by a new session, rejected revisions.
  \<^item> Termination and progress: every run of the driver ends in a state that waits for the user, the
    attempt loop never leaves its bound, and an approved case whose solver succeeds reaches the review.

  \<^bold>\<open>Recursion and bounds\<close>

  Loops over data are structural recursions or \<open>function\<close>s with a measure.  Kahn's algorithm, the closure of
  consumers and the closures of includes and producers carry a round counter as large as the number of
  vertices; the lemmas show that the result is the full closure, so the counter never cuts it off.  The
  loops over attempts and workflow steps are bounded in the source and carry the same bound here.

  \<^bold>\<open>Parameters\<close>

  What is not under \<^verbatim>\<open>src/\<close> is an argument: SHA-256 and the canonical JSON below it (injective where a
  theorem says so), \<open>re.fullmatch\<close>, \<open>float\<close> and the number format, \<open>Path.resolve\<close> and the clock.
  The agents that ask the language model, the native process, the parsers of its log and the checks of its
  outputs are arguments of the workflow.

  \<^bold>\<open>Not modelled\<close>

  The transport to the language model and its prompts, the command line, progress events and prose of messages;
  spawning of processes, control groups and the sanitized environment; the engineering agent's dialogue around
  the compilers modelled here; post-processing, which is floating point analysis of result files; the
  parsing of solver logs by regular expressions; the evidence a design cites, whose records are checked by
  field constraints; the assertions of a plan about dictionary values, which compare floating point numbers.
  Text outside Latin-1 and two processes writing the same case at once are outside the model: where a file is
  decoded with replacement of bad bytes, the replacement character is represented by the pilcrow, and the
  text of a checkpoint stands for its value, so that dumping and loading it is the identity.
\<close>

end
